(* ===== verification/Prelude.thy ===== *)
theory Prelude
  imports Main "HOL-Library.Multiset"
begin

text \<open>
  Shared vocabulary of the development: the fact collections the component theories fill
  and use, generic lemmas on lists, folds and options, and the error values of the program.
  The sentinel errors are the \<open>var Err... = errors.New(...)\<close> of
  \<^verbatim>\<open>internal/control\<close>, \<^verbatim>\<open>internal/routing\<close> and \<^verbatim>\<open>internal/p2p\<close>; \<open>ErrText\<close> is an
  error made by \<open>errors.New\<close> or \<open>fmt.Errorf\<close> without \<open>%w\<close> (or one returned by the
  standard library), \<open>ErrWrap\<close> is \<open>fmt.Errorf\<close> with one \<open>%w\<close>.
\<close>

named_theorems f64_simps \<open>evaluation of float64 arithmetic on exactly representable values\<close>
named_theorems state_defs \<open>definitions of the state-changing operations\<close>
named_theorems keeps \<open>frame facts: fields an operation leaves alone\<close>

section \<open>Errors as values\<close>

datatype go_error =
    ErrTokensExceeded | ErrOutsideServingWindow | ErrHostBusy | ErrInvalidPoW
  | ErrPeerReputationLow | ErrRateLimited | ErrTooManyInFlight
  | ErrNoPeers | ErrNoPeersDiscovered
  | ErrText string
  | ErrWrap string go_error

text \<open>\<open>errors.Is\<close>: the error itself or anything it wraps.\<close>

fun errors_is :: "go_error \<Rightarrow> go_error \<Rightarrow> bool" where
  "errors_is (ErrWrap p e) t = (ErrWrap p e = t \<or> errors_is e t)"
| "errors_is e t = (e = t)"

text \<open>The text of an error (\<open>err.Error()\<close>).\<close>

fun error_text :: "go_error \<Rightarrow> string" where
  "error_text ErrTokensExceeded = ''max tokens exceeded''"
| "error_text ErrOutsideServingWindow = ''outside serving window''"
| "error_text ErrHostBusy = ''host not idle''"
| "error_text ErrInvalidPoW = ''invalid proof of work''"
| "error_text ErrPeerReputationLow = ''peer reputation below threshold''"
| "error_text ErrRateLimited = ''rate limited''"
| "error_text ErrTooManyInFlight = ''too many in-flight requests''"
| "error_text ErrNoPeers = ''no peers available''"
| "error_text ErrNoPeersDiscovered = ''no peers discovered''"
| "error_text (ErrText s) = s"
| "error_text (ErrWrap p e) = p @ error_text e"

lemma errors_is_refl [simp]: "errors_is e e"
  by (cases e) auto

lemma errors_is_wrap: "errors_is e t \<Longrightarrow> errors_is (ErrWrap p e) t"
  by simp

section \<open>Lists\<close>

lemma filter_mset_list: "mset (filter P xs) = filter_mset P (mset xs)"
  by (rule mset_filter)

lemma mset_eq_set: "mset xs = mset ys \<Longrightarrow> set xs = set ys"
  by (metis set_mset_mset)

lemma mset_eq_nil_iff: "mset xs = mset ys \<Longrightarrow> (xs = []) = (ys = [])"
  by auto

lemma find_None_all: "find P xs = None \<longleftrightarrow> (\<forall>x\<in>set xs. \<not> P x)"
  by (auto simp: find_None_iff)

lemma sorted_wrt_hd:
  assumes "sorted_wrt P (x # xs)" "y \<in> set xs" shows "P x y"
  using assms by simp

lemma card_move:
  assumes "finite A" shows "int (card (if b then insert i A else A - {i})) = int (card A) + of_bool b - of_bool (i \<in> A)"
proof -
  have "i \<in> A \<Longrightarrow> 0 < card A" using assms by (auto simp: card_gt_0_iff)
  then show ?thesis using assms by (auto simp: insert_absorb card_Diff_singleton)
qed

end
