(* ===== verification/Float64.thy ===== *)
theory Float64
  imports Complex_Main "HOL-Library.Log_Nat" Prelude
begin

text \<open>
  Go's \<open>float64\<close>: IEEE 754 binary64 values with round-to-nearest-even, written out over the
  rationals. A finite value is the rational it denotes, so both zeros are \<open>Fin 0\<close> (the
  program never divides by a float zero and never prints one, the only ways to see the sign).
  Every operation rounds the exact result once; comparisons with NaN are false. The
  operators \<open>+ - * < \<le>\<close> on \<open>f64\<close> are the IEEE ones.
  Magnitudes are counted in units of \<open>2 ^ -1074\<close>, the smallest positive double:
  \<open>y\<close> units with \<open>y\<close> of more than 53 bits keep only the leading 53.
\<close>

section \<open>Rounding\<close>

text \<open>Round a rational to an integer, ties to even.\<close>

definition rne :: "rat \<Rightarrow> int" where
  "rne x = (let f = \<lfloor>x\<rfloor>; d = x - of_int f in
     if d < 1/2 then f else if d > 1/2 then f + 1 else if even f then f else f + 1)"

text \<open>Bits to drop from a magnitude of \<open>n\<close> units so that 53 remain.\<close>

definition drop_bits :: "nat \<Rightarrow> nat" where
  "drop_bits n = floorlog 2 n - 53"

definition round_units :: "rat \<Rightarrow> rat" where
  "round_units y = (let q = drop_bits (nat \<lfloor>y\<rfloor>) in of_int (rne (y / 2 ^ q)) * 2 ^ q)"

definition unit_scale :: rat where
  "unit_scale = 2 ^ 1074"

definition round_mag :: "rat \<Rightarrow> rat" where
  "round_mag x = round_units (x * unit_scale) / unit_scale"

section \<open>The type and its operations\<close>

datatype f64 = NaN | PInf | NInf | Fin rat

definition max_mag :: rat where
  "max_mag = 2 ^ 1024"

text \<open>The double nearest to a rational; too large magnitudes become infinite.\<close>

definition round64 :: "rat \<Rightarrow> f64" where
  "round64 x = (let m = round_mag \<bar>x\<bar> in
     if m \<ge> max_mag then (if x < 0 then NInf else PInf)
     else Fin (if x < 0 then - m else m))"

text \<open>\<open>float64(k)\<close> of an integer \<open>k\<close>.\<close>

definition f64_of_int :: "int \<Rightarrow> f64" where
  "f64_of_int k = round64 (of_int k)"

fun f64_is_nan :: "f64 \<Rightarrow> bool" where
  "f64_is_nan NaN = True"
| "f64_is_nan _ = False"

text \<open>\<open>int64(x)\<close> of a finite value truncates toward zero; Go leaves the result for NaN,
  infinities and values out of range to the implementation (\<open>None\<close> here).\<close>

fun f64_to_int :: "f64 \<Rightarrow> int option" where
  "f64_to_int (Fin r) =
     (let t = (if r < 0 then - \<lfloor>- r\<rfloor> else \<lfloor>r\<rfloor>) in
      if - (2 ^ 63) \<le> t \<and> t < 2 ^ 63 then Some t else None)"
| "f64_to_int _ = None"

instantiation f64 :: "{plus, minus, uminus, times, zero, one, ord}"
begin

definition "zero_f64 = Fin 0"

definition "one_f64 = Fin 1"

fun uminus_f64 :: "f64 \<Rightarrow> f64" where
  "uminus_f64 NaN = NaN"
| "uminus_f64 PInf = NInf"
| "uminus_f64 NInf = PInf"
| "uminus_f64 (Fin a) = Fin (- a)"

fun plus_f64 :: "f64 \<Rightarrow> f64 \<Rightarrow> f64" where
  "plus_f64 NaN _ = NaN"
| "plus_f64 _ NaN = NaN"
| "plus_f64 PInf NInf = NaN"
| "plus_f64 NInf PInf = NaN"
| "plus_f64 PInf _ = PInf"
| "plus_f64 _ PInf = PInf"
| "plus_f64 NInf _ = NInf"
| "plus_f64 _ NInf = NInf"
| "plus_f64 (Fin a) (Fin b) = round64 (a + b)"

definition minus_f64 :: "f64 \<Rightarrow> f64 \<Rightarrow> f64" where
  "minus_f64 a b = a + (- b)"

fun times_f64 :: "f64 \<Rightarrow> f64 \<Rightarrow> f64" where
  "times_f64 NaN _ = NaN"
| "times_f64 _ NaN = NaN"
| "times_f64 (Fin a) (Fin b) = round64 (a * b)"
| "times_f64 PInf (Fin b) = (if b = 0 then NaN else if b < 0 then NInf else PInf)"
| "times_f64 NInf (Fin b) = (if b = 0 then NaN else if b < 0 then PInf else NInf)"
| "times_f64 (Fin a) PInf = (if a = 0 then NaN else if a < 0 then NInf else PInf)"
| "times_f64 (Fin a) NInf = (if a = 0 then NaN else if a < 0 then PInf else NInf)"
| "times_f64 PInf PInf = PInf"
| "times_f64 PInf NInf = NInf"
| "times_f64 NInf PInf = NInf"
| "times_f64 NInf NInf = PInf"

fun less_f64 :: "f64 \<Rightarrow> f64 \<Rightarrow> bool" where
  "less_f64 NaN _ = False"
| "less_f64 _ NaN = False"
| "less_f64 _ NInf = False"
| "less_f64 NInf _ = True"
| "less_f64 PInf _ = False"
| "less_f64 _ PInf = True"
| "less_f64 (Fin a) (Fin b) = (a < b)"

definition less_eq_f64 :: "f64 \<Rightarrow> f64 \<Rightarrow> bool" where
  "less_eq_f64 a b = (\<not> f64_is_nan a \<and> \<not> f64_is_nan b \<and> \<not> b < a)"

instance ..

end

text \<open>Division of a finite value by a finite non-zero value (the only divisions of the
  program); the other cases follow IEEE with a positive zero.\<close>

fun f64_div :: "f64 \<Rightarrow> f64 \<Rightarrow> f64" where
  "f64_div NaN _ = NaN"
| "f64_div _ NaN = NaN"
| "f64_div (Fin a) (Fin b) =
     (if b = 0 then (if a = 0 then NaN else if a < 0 then NInf else PInf) else round64 (a / b))"
| "f64_div PInf (Fin b) = (if b < 0 then NInf else PInf)"
| "f64_div NInf (Fin b) = (if b < 0 then PInf else NInf)"
| "f64_div (Fin a) _ = Fin 0"
| "f64_div _ _ = NaN"

text \<open>Go's \<open>==\<close> on floats: NaN differs from everything.\<close>

definition f64_eq :: "f64 \<Rightarrow> f64 \<Rightarrow> bool" where
  "f64_eq a b = (\<not> f64_is_nan a \<and> a = b)"

text \<open>A value that a double can hold.\<close>

fun wf64 :: "f64 \<Rightarrow> bool" where
  "wf64 (Fin r) = (round64 r = Fin r)"
| "wf64 _ = True"

section \<open>Rounding is exact on doubles, monotone and odd\<close>

lemma rne_of_int [simp]: "rne (of_int k) = k"
  by (simp add: rne_def)

lemma rne_bounds: "\<lfloor>x\<rfloor> \<le> rne x" "rne x \<le> \<lfloor>x\<rfloor> + 1"
  by (auto simp: rne_def Let_def)

lemma rne_mono: assumes "x \<le> y" shows "rne x \<le> rne y"
proof (cases "\<lfloor>x\<rfloor> = \<lfloor>y\<rfloor>")
  case True
  then show ?thesis using assms by (auto simp: rne_def Let_def)
next
  case False
  with assms have "\<lfloor>x\<rfloor> + 1 \<le> \<lfloor>y\<rfloor>"
    using floor_mono by fastforce
  then show ?thesis using rne_bounds[of x] rne_bounds[of y] by linarith
qed

lemma rne_ge_int: "of_int k \<le> x \<Longrightarrow> k \<le> rne x"
  using rne_mono[of "of_int k" x] by simp

lemma rne_le_int: "x \<le> of_int k \<Longrightarrow> rne x \<le> k"
  using rne_mono[of x "of_int k"] by simp

lemma floorlog2_bounds:
  assumes "0 < n" shows "2 ^ (floorlog 2 n - 1) \<le> n" "n < 2 ^ floorlog 2 n"
  using floorlog_bounds[of n 2] assms by auto

lemma floorlog2_le: "n < 2 ^ w \<Longrightarrow> floorlog 2 n \<le> w"
  by (simp add: floorlog_leI)

lemma floorlog2_mult_pow: "0 < n \<Longrightarrow> floorlog 2 (n * 2 ^ j) = floorlog 2 n + j"
  using floorlog_power[of n 2 j] by (simp add: mult.commute)

lemma drop_bits_mono: "m \<le> n \<Longrightarrow> drop_bits m \<le> drop_bits n"
  unfolding drop_bits_def by (intro diff_le_mono floorlog_mono)

lemma pow2_quotient: "q \<le> b \<Longrightarrow> (2::rat) ^ b / 2 ^ q = of_int (2 ^ (b - q))"
  by (simp only: of_int_power of_int_numeral) (simp add: power_diff)

text \<open>The leading bit of \<open>n\<close> survives in units of the dropped precision.\<close>

lemma drop_bits_lt_floorlog: "0 < n \<Longrightarrow> drop_bits n \<le> floorlog 2 n - 1"
  by (auto simp: drop_bits_def)

lemma round_units_ge_pow:
  assumes "1 \<le> y" shows "2 ^ (floorlog 2 (nat \<lfloor>y\<rfloor>) - 1) \<le> round_units y"
proof -
  define n where "n = nat \<lfloor>y\<rfloor>"
  define q where "q = drop_bits n"
  define b where "b = floorlog 2 n - 1"
  have n0: "0 < n" using assms by (simp add: n_def)
  have qb: "q \<le> b" unfolding q_def b_def by (rule drop_bits_lt_floorlog [OF n0])
  have ny: "of_nat n \<le> y"
    unfolding n_def using assms by (simp add: of_nat_nat)
  have "(2::nat) ^ b \<le> n" unfolding b_def by (rule floorlog2_bounds(1)[OF n0])
  then have "(2::rat) ^ b \<le> of_nat n"
    by (metis of_nat_le_iff of_nat_numeral of_nat_power)
  with ny have le: "2 ^ b \<le> y" by linarith
  have "of_int (2 ^ (b - q)) = (2::rat) ^ b / 2 ^ q"
    using pow2_quotient [OF qb] by simp
  also have "\<dots> \<le> y / 2 ^ q" using le by (simp add: divide_right_mono)
  finally have "2 ^ (b - q) \<le> rne (y / 2 ^ q)" by (rule rne_ge_int)
  then have "(2::rat) ^ (b - q) \<le> of_int (rne (y / 2 ^ q))"
    by (metis of_int_le_iff of_int_numeral of_int_power)
  then have "(2::rat) ^ (b - q) * 2 ^ q \<le> of_int (rne (y / 2 ^ q)) * 2 ^ q"
    by (intro mult_right_mono) auto
  moreover have "(2::rat) ^ (b - q) * 2 ^ q = 2 ^ b"
    using qb by (simp flip: power_add)
  ultimately have "2 ^ b \<le> of_int (rne (y / 2 ^ q)) * (2::rat) ^ q" by (simp only:)
  then show ?thesis by (simp only: round_units_def Let_def n_def q_def b_def)
qed

lemma round_units_le_pow:
  assumes "0 \<le> y" "y \<le> 2 ^ b" "drop_bits (nat \<lfloor>y\<rfloor>) \<le> b"
  shows "round_units y \<le> 2 ^ b"
proof -
  define q where "q = drop_bits (nat \<lfloor>y\<rfloor>)"
  have "y / 2 ^ q \<le> 2 ^ b / 2 ^ q" using assms(2) by (simp add: divide_right_mono)
  also have "\<dots> = of_int (2 ^ (b - q))"
    using pow2_quotient [OF assms(3)] by (simp only: q_def)
  finally have "rne (y / 2 ^ q) \<le> 2 ^ (b - q)" by (rule rne_le_int)
  then have "of_int (rne (y / 2 ^ q)) \<le> (2::rat) ^ (b - q)"
    by (metis of_int_le_iff of_int_numeral of_int_power)
  then have "of_int (rne (y / 2 ^ q)) * 2 ^ q \<le> (2::rat) ^ (b - q) * 2 ^ q"
    by (intro mult_right_mono) auto
  also have "\<dots> = 2 ^ b" using assms(3) by (simp add: q_def flip: power_add)
  finally show ?thesis by (simp add: round_units_def Let_def q_def)
qed

lemma round_units_nonneg: "0 \<le> y \<Longrightarrow> 0 \<le> round_units y"
  unfolding round_units_def Let_def by (simp add: rne_ge_int)

lemma round_units_mono:
  assumes "0 \<le> x" "x \<le> y" shows "round_units x \<le> round_units y"
proof -
  define m n where "m = nat \<lfloor>x\<rfloor>" and "n = nat \<lfloor>y\<rfloor>"
  have mn: "m \<le> n" unfolding m_def n_def using assms by (intro nat_mono floor_mono)
  show ?thesis
  proof (cases "drop_bits m = drop_bits n")
    case True
    have "of_int (rne (x / 2 ^ drop_bits n)) * 2 ^ drop_bits n
        \<le> (of_int (rne (y / 2 ^ drop_bits n)) * 2 ^ drop_bits n :: rat)"
      using assms by (intro mult_right_mono) (auto intro!: rne_mono divide_right_mono)
    then show ?thesis using True by (simp add: round_units_def Let_def m_def n_def)
  next
    case False
    with drop_bits_mono[OF mn] have lt: "floorlog 2 m < floorlog 2 n" and big: "53 < floorlog 2 n"
      by (auto simp: drop_bits_def)
    have n0: "0 < n" using big by (auto intro: Nat.gr0I simp: floorlog_def)
    define b where "b = floorlog 2 n - 1"
    have "m < 2 ^ b"
      using lt floorlog2_bounds(2)[of m]
      by (cases "m = 0") (auto simp: b_def intro: less_le_trans power_increasing)
    then have "\<lfloor>x\<rfloor> < 2 ^ b"
      using assms(1) unfolding m_def by (simp add: nat_less_iff)
    then have xb: "x \<le> 2 ^ b"
      by (metis floor_less_iff less_le of_int_numeral of_int_power)
    have "drop_bits m \<le> b" using lt by (simp add: drop_bits_def b_def)
    then have "round_units x \<le> 2 ^ b"
      using assms(1) xb by (intro round_units_le_pow) (auto simp: m_def)
    also have "\<dots> \<le> round_units y"
      unfolding b_def n_def using n0 by (intro round_units_ge_pow) (simp add: n_def)
    finally show ?thesis .
  qed
qed

text \<open>A magnitude with at most 53 significant bits is kept.\<close>

lemma round_units_exact:
  assumes "k < 2 ^ 53" shows "round_units (of_nat k * 2 ^ j) = of_nat k * 2 ^ j"
proof (cases "k = 0")
  case True
  then show ?thesis by (simp add: round_units_def drop_bits_def rne_def)
next
  case False
  define q where "q = drop_bits (k * 2 ^ j)"
  have "floorlog 2 k \<le> 53" using assms by (rule floorlog2_le)
  then have qj: "q \<le> j" using False by (simp add: q_def drop_bits_def floorlog2_mult_pow)
  have fl: "nat \<lfloor>of_nat k * 2 ^ j :: rat\<rfloor> = k * 2 ^ j"
    by (metis floor_of_nat nat_int of_nat_mult of_nat_numeral of_nat_power)
  have "(of_nat k * 2 ^ j / 2 ^ q :: rat) = of_nat k * (2 ^ j / 2 ^ q)" by simp
  also have "\<dots> = of_int (int k * 2 ^ (j - q))" unfolding pow2_quotient [OF qj] by simp
  finally have "(of_nat k * 2 ^ j / 2 ^ q :: rat) = of_int (int k * 2 ^ (j - q))" .
  then have "rne (of_nat k * 2 ^ j / 2 ^ q) = int k * 2 ^ (j - q)"
    by (metis rne_of_int)
  then show ?thesis
    using qj by (simp add: round_units_def Let_def fl q_def [symmetric] flip: power_add)
qed

lemma unit_scale_pos [simp]: "0 < unit_scale" "0 \<le> unit_scale" "unit_scale \<noteq> 0"
  by (simp_all add: unit_scale_def)

lemma max_mag_pos [simp]: "0 < max_mag"
  by (simp add: max_mag_def)

lemma round_mag_nonneg: "0 \<le> x \<Longrightarrow> 0 \<le> round_mag x"
  by (simp add: round_mag_def round_units_nonneg)

lemma round_mag_mono: "0 \<le> x \<Longrightarrow> x \<le> y \<Longrightarrow> round_mag x \<le> round_mag y"
  unfolding round_mag_def by (intro divide_right_mono round_units_mono) auto

text \<open>What rounding produces has at most 53 significant bits, so it is kept by rounding.\<close>

lemma round_units_form:
  assumes "0 \<le> y" obtains k j where "k < 2 ^ 53" "round_units y = of_nat k * 2 ^ j"
proof -
  define n where "n = nat \<lfloor>y\<rfloor>"
  define q where "q = drop_bits n"
  define k where "k = nat (rne (y / 2 ^ q))"
  have r0: "0 \<le> rne (y / 2 ^ q)" using assms by (intro rne_ge_int) simp
  have "n < 2 ^ (53 + q)"
    using floorlog2_bounds(2)[of n]
    by (cases "n = 0") (auto simp: q_def drop_bits_def intro: less_le_trans power_increasing)
  then have "\<lfloor>y\<rfloor> < 2 ^ (53 + q)" unfolding n_def using assms by (simp add: nat_less_iff)
  then have "y < 2 ^ (53 + q)" by (metis floor_less_iff of_int_numeral of_int_power)
  then have "y / 2 ^ q \<le> of_int (2 ^ 53)"
    by (simp add: pos_divide_le_eq power_add)
  then have "rne (y / 2 ^ q) \<le> 2 ^ 53" by (rule rne_le_int)
  then have k: "k \<le> 2 ^ 53" using r0 by (simp add: k_def nat_le_iff)
  have form: "round_units y = of_nat k * 2 ^ q"
    using r0 by (simp add: round_units_def Let_def n_def [symmetric] q_def [symmetric] k_def)
  show thesis
  proof (cases "k = 2 ^ 53")
    case True
    then have "round_units y = of_nat 1 * 2 ^ (53 + q)" by (simp add: form power_add)
    then show thesis by (intro that[of 1 "53 + q"]) auto
  next
    case False
    with k show thesis by (intro that[OF _ form]) auto
  qed
qed

lemma round_units_idem: "0 \<le> y \<Longrightarrow> round_units (round_units y) = round_units y"
  by (erule round_units_form) (simp only: round_units_exact)

lemma round_mag_idem: "0 \<le> x \<Longrightarrow> round_mag (round_mag x) = round_mag x"
  by (simp add: round_mag_def round_units_idem)

lemma round64_cases:
  obtains (pinf) "round64 x = PInf" "0 \<le> x" "max_mag \<le> round_mag x"
  | (ninf) "round64 x = NInf" "x < 0" "max_mag \<le> round_mag (- x)"
  | (pos) "round64 x = Fin (round_mag x)" "0 \<le> x" "round_mag x < max_mag"
  | (neg) "round64 x = Fin (- round_mag (- x))" "x < 0" "round_mag (- x) < max_mag"
proof (cases "x < 0")
  case True
  show ?thesis
  proof (cases "max_mag \<le> round_mag (- x)")
    case big: True
    show ?thesis by (rule ninf) (use True big in \<open>auto simp: round64_def Let_def\<close>)
  next
    case small: False
    show ?thesis by (rule neg) (use True small in \<open>auto simp: round64_def Let_def\<close>)
  qed
next
  case False
  show ?thesis
  proof (cases "max_mag \<le> round_mag x")
    case big: True
    show ?thesis by (rule pinf) (use False big in \<open>auto simp: round64_def Let_def\<close>)
  next
    case small: False
    show ?thesis by (rule pos) (use False small in \<open>auto simp: round64_def Let_def\<close>)
  qed
qed

lemma round_mag_0 [simp]: "round_mag 0 = 0"
  by (simp add: round_mag_def round_units_def drop_bits_def rne_def)

lemma round64_not_nan [simp]: "round64 x \<noteq> NaN" "\<not> f64_is_nan (round64 x)"
  by (cases x rule: round64_cases; simp)+

lemma wf64_round64 [simp]: "wf64 (round64 x)"
proof (cases x rule: round64_cases)
  case pos
  then show ?thesis
    using round_mag_nonneg[of x] by (auto simp: round64_def Let_def round_mag_idem)
next
  case neg
  have nn: "0 \<le> round_mag (- x)" using neg by (simp add: round_mag_nonneg)
  with neg show ?thesis
    by (cases "round_mag (- x) = 0") (auto simp: round64_def Let_def round_mag_idem)
qed simp_all

lemma round64_mono: assumes "x \<le> y" shows "\<not> round64 y < round64 x"
proof (cases x rule: round64_cases)
  case pinf
  then show ?thesis using assms round_mag_mono[of x y]
    by (cases y rule: round64_cases) auto
next
  case ninf
  then show ?thesis by (cases y rule: round64_cases) auto
next
  case pos
  then show ?thesis using assms round_mag_mono[of x y]
    by (cases y rule: round64_cases) auto
next
  case neg
  then show ?thesis using assms round_mag_mono[of "- y" "- x"]
      round_mag_nonneg[of "- x"] round_mag_nonneg[of y]
    by (cases y rule: round64_cases) auto
qed

lemma round64_le_Fin:
  assumes "wf64 (Fin r)" "x \<le> r" shows "\<not> Fin r < round64 x"
  using round64_mono[OF assms(2)] assms(1) by simp

lemma round64_ge_Fin:
  assumes "wf64 (Fin r)" "r \<le> x" shows "\<not> round64 x < Fin r"
  using round64_mono[OF assms(2)] assms(1) by simp

lemma round64_uminus: "x \<noteq> 0 \<Longrightarrow> round64 (- x) = - round64 x"
  by (auto simp: round64_def Let_def)

lemma round_mag_int:
  assumes "k < 2 ^ 53" shows "round_mag (of_nat k) = of_nat k"
  using round_units_exact[OF assms, of 1074]
  by (simp only: round_mag_def unit_scale_def) simp

lemma int53_lt_max: "k < 2 ^ 53 \<Longrightarrow> of_nat k < max_mag"
proof -
  assume "k < 2 ^ 53"
  then have "(of_nat k :: rat) < of_nat (2 ^ 53)" by (simp only: of_nat_less_iff)
  also have "of_nat (2 ^ 53) \<le> max_mag"
    unfolding max_mag_def of_nat_power of_nat_numeral by (rule power_increasing) simp_all
  finally show ?thesis .
qed

lemma round64_int:
  assumes "\<bar>k\<bar> < 2 ^ 53" shows "round64 (of_int k) = Fin (of_int k)"
proof -
  have n: "nat \<bar>k\<bar> < 2 ^ 53" using assms by (simp add: nat_less_iff)
  have a: "\<bar>of_int k :: rat\<bar> = of_nat (nat \<bar>k\<bar>)" by simp
  show ?thesis
    unfolding round64_def a round_mag_int[OF n] Let_def
    using int53_lt_max[OF n] by auto
qed

lemma round64_0 [f64_simps, simp]: "round64 0 = Fin 0"
  using round64_int[of 0] by simp

lemma round64_1 [f64_simps, simp]: "round64 1 = Fin 1"
  using round64_int[of 1] by simp

lemma round64_numeral [f64_simps]:
  "(numeral k :: int) < 2 ^ 53 \<Longrightarrow> round64 (numeral k) = Fin (numeral k)"
  using round64_int[of "numeral k"] by simp

lemma round64_neg_numeral [f64_simps]:
  "(numeral k :: int) < 2 ^ 53 \<Longrightarrow> round64 (- numeral k) = Fin (- numeral k)"
  using round64_int[of "- numeral k"] by simp

lemma round64_dyadic:
  assumes "\<bar>k\<bar> < 2 ^ 53" "j \<le> 1074" shows "round64 (of_int k / 2 ^ j) = Fin (of_int k / 2 ^ j)"
proof -
  define n where "n = nat \<bar>k\<bar>"
  have n: "n < 2 ^ 53" using assms(1) by (simp add: n_def nat_less_iff)
  have a: "\<bar>of_int k / 2 ^ j :: rat\<bar> = of_nat n / 2 ^ j" by (simp add: n_def abs_divide)
  have us: "unit_scale = 2 ^ (1074 - j) * 2 ^ j"
    unfolding unit_scale_def using assms(2) by (simp only: flip: power_add) simp
  have u: "of_nat n / 2 ^ j * unit_scale = of_nat n * 2 ^ (1074 - j)"
    unfolding us by simp
  have "round_mag (of_nat n / 2 ^ j) = of_nat n * 2 ^ (1074 - j) / unit_scale"
    unfolding round_mag_def u round_units_exact[OF n] ..
  also have "\<dots> = of_nat n / 2 ^ j" by (simp flip: u)
  finally have m: "round_mag (of_nat n / 2 ^ j) = of_nat n / 2 ^ j" .
  have "of_nat n / 2 ^ j \<le> (of_nat n :: rat)"
    by (simp add: divide_le_eq mult_left_le one_le_power mult_le_cancel_left1)
  then have "of_nat n / 2 ^ j < max_mag" using int53_lt_max[OF n] by linarith
  then show ?thesis
    unfolding round64_def a m Let_def by (auto simp: n_def divide_less_0_iff)
qed

text \<open>Integers with at most 53 significant bits are exact; all of \<open>int64\<close> is finite.\<close>

lemma round64_scaled:
  assumes "\<bar>k\<bar> < 2 ^ 53" "e \<le> 900" shows "round64 (of_int k * 2 ^ e) = Fin (of_int k * 2 ^ e)"
proof -
  define n where "n = nat \<bar>k\<bar>"
  have n: "n < 2 ^ 53" using assms(1) by (simp add: n_def nat_less_iff)
  have a: "\<bar>of_int k * 2 ^ e :: rat\<bar> = of_nat n * 2 ^ e" by (simp add: n_def abs_mult)
  have u: "of_nat n * 2 ^ e * unit_scale = of_nat n * 2 ^ (e + 1074)"
    unfolding unit_scale_def power_add by (rule mult.assoc)
  have m: "round_mag (of_nat n * 2 ^ e) = of_nat n * 2 ^ e"
    unfolding round_mag_def u round_units_exact[OF n] by (simp flip: u)
  have "(of_nat n :: rat) < 2 ^ 53" using n by (metis of_nat_less_iff of_nat_numeral of_nat_power)
  then have "of_nat n * (2::rat) ^ e < 2 ^ 53 * 2 ^ e" by (intro mult_strict_right_mono) simp_all
  also have "\<dots> = 2 ^ (53 + e)" by (simp only: power_add)
  also have "\<dots> \<le> max_mag" unfolding max_mag_def using assms(2) by (intro power_increasing) simp_all
  finally show ?thesis
    unfolding round64_def a m Let_def by (auto simp: n_def mult_less_0_iff)
qed

section \<open>Order and arithmetic on finite values\<close>

lemma f64_less_irrefl [simp]: "\<not> (a::f64) < a"
  by (cases a) auto

lemma f64_less_trans: "(a::f64) < b \<Longrightarrow> b < c \<Longrightarrow> a < c"
  by (cases a; cases b; cases c) auto

lemma f64_less_asym: "(a::f64) < b \<Longrightarrow> \<not> b < a"
  by (cases a; cases b) auto

lemma f64_trichotomy: "\<not> f64_is_nan a \<Longrightarrow> \<not> f64_is_nan b \<Longrightarrow> a < b \<or> a = b \<or> b < a"
  by (cases a; cases b) auto

lemma f64_incomparable_trans:
  "\<not> f64_is_nan b \<Longrightarrow> \<not> a < b \<Longrightarrow> \<not> b < c \<Longrightarrow> \<not> (a::f64) < c"
  by (cases a; cases b; cases c) auto

lemma f64_le_Fin [simp]: "(Fin a \<le> Fin b) = (a \<le> b)"
  by (auto simp: less_eq_f64_def)

lemma f64_le_refl: "\<not> f64_is_nan a \<Longrightarrow> a \<le> a"
  by (simp add: less_eq_f64_def)

lemma f64_le_trans: "(a::f64) \<le> b \<Longrightarrow> b \<le> c \<Longrightarrow> a \<le> c"
  by (cases a; cases b; cases c) (auto simp: less_eq_f64_def)

lemma f64_le_antisym: "(a::f64) \<le> b \<Longrightarrow> b \<le> a \<Longrightarrow> a = b"
  by (cases a; cases b) (auto simp: less_eq_f64_def)

lemma f64_not_less_le: "\<not> f64_is_nan a \<Longrightarrow> \<not> f64_is_nan b \<Longrightarrow> \<not> a < b \<longleftrightarrow> b \<le> a"
  by (simp add: less_eq_f64_def)

lemma f64_le_less_trans: "(a::f64) \<le> b \<Longrightarrow> b < c \<Longrightarrow> a < c"
  by (cases a; cases b; cases c) (auto simp: less_eq_f64_def)

lemma f64_le_not_less: "(a::f64) \<le> b \<Longrightarrow> \<not> b < a"
  by (simp add: less_eq_f64_def)

lemma f64_minus_Fin [simp]: "Fin a - Fin b = round64 (a - b)"
  by (simp add: minus_f64_def)

lemma f64_one_zero [f64_simps]: "(0::f64) = Fin 0" "(1::f64) = Fin 1"
  by (simp_all add: zero_f64_def one_f64_def)

lemma wf64_int: "\<bar>k\<bar> < 2 ^ 53 \<Longrightarrow> wf64 (Fin (of_int k))"
  by (simp add: round64_int)

text \<open>The rounding of a value between two doubles is a double between them.\<close>

lemma round64_between:
  assumes "wf64 (Fin a)" "wf64 (Fin b)" "a \<le> x" "x \<le> b"
  obtains v where "round64 x = Fin v" "a \<le> v" "v \<le> b" "wf64 (Fin v)"
proof (cases "round64 x")
  case (Fin v)
  with round64_ge_Fin[OF assms(1,3)] round64_le_Fin[OF assms(2,4)] wf64_round64[of x] that
  show thesis by auto
next
  case PInf
  with round64_le_Fin[OF assms(2,4)] show thesis by simp
next
  case NInf
  with round64_ge_Fin[OF assms(1,3)] show thesis by simp
next
  case NaN
  then show thesis by simp
qed

lemma round64_unit:
  assumes "0 \<le> x" "x \<le> 1" obtains v where "round64 x = Fin v" "0 \<le> v" "v \<le> 1" "wf64 (Fin v)"
  by (rule round64_between[of 0 1 x]) (use assms that in simp_all)

lemma round64_pos:
  assumes "1 / 2 ^ 52 \<le> x" "x \<le> 1" obtains v where "round64 x = Fin v" "0 < v" "v \<le> 1" "wf64 (Fin v)"
proof (rule round64_between[of "1 / 2 ^ 52" 1 x])
  show "wf64 (Fin (1 / 2 ^ 52))" using round64_dyadic[of 1 52] by simp
next
  fix v :: rat assume v: "round64 x = Fin v" "1 / 2 ^ 52 \<le> v" "v \<le> 1" "wf64 (Fin v)"
  have "(0::rat) < 1 / 2 ^ 52" by simp
  with v(2) have "0 < v" by linarith
  with v that show thesis by blast
qed (use assms in simp_all)

lemma wf64_not_nan_plus: "\<lbrakk>a = Fin x; b = Fin y\<rbrakk> \<Longrightarrow> \<not> f64_is_nan (a + b)"
  by simp

lemma wf64_plus [simp]: "wf64 a \<Longrightarrow> wf64 b \<Longrightarrow> wf64 (a + b)"
  by (cases a; cases b) (auto simp del: wf64.simps(1))

lemma wf64_uminus [simp]: "wf64 a \<Longrightarrow> wf64 (- a)"
  by (cases a) (auto simp: round64_def Let_def abs_if split: if_splits)

lemma wf64_minus [simp]: "wf64 a \<Longrightarrow> wf64 b \<Longrightarrow> wf64 (a - b)"
  by (simp add: minus_f64_def)

lemma wf64_f64_of_int [simp]: "wf64 (f64_of_int k)"
  by (simp add: f64_of_int_def)

lemma f64_of_int_exact: "\<bar>k\<bar> < 2 ^ 53 \<Longrightarrow> f64_of_int k = Fin (of_int k)"
  by (simp add: f64_of_int_def round64_int)

lemma f64_of_int_not_nan [simp]: "\<not> f64_is_nan (f64_of_int k)"
  by (simp add: f64_of_int_def)

lemma f64_of_int_finite:
  assumes "\<bar>k\<bar> < 2 ^ 63" obtains v where "f64_of_int k = Fin v" "0 \<le> k \<Longrightarrow> 0 \<le> v"
proof -
  have w: "wf64 (Fin (2 ^ 63))" "wf64 (Fin (- (2 ^ 63)))"
    using round64_scaled[of 1 63] round64_scaled[of "- 1" 63] by simp_all
  have le: "(of_int k :: rat) \<le> of_int (2 ^ 63)" "of_int (- (2 ^ 63)) \<le> (of_int k :: rat)"
    using assms by (simp_all only: of_int_le_iff)
  obtain v where v: "round64 (of_int k) = Fin v"
    by (rule round64_between[OF w(2,1), of "of_int k"]) (use le in auto)
  moreover have "0 \<le> v" if "0 \<le> k"
    using round64_ge_Fin[of 0 "of_int k"] that v by simp
  ultimately show thesis using that by (auto simp: f64_of_int_def)
qed

text \<open>Representability is used through these facts, not by evaluating the rounding.\<close>

lemma wf64_01 [simp]: "wf64 (Fin 0)" "wf64 (Fin 1)" "wf64 (Fin (- 1))"
  using wf64_int[of "- 1"] by simp_all

lemma wf64_neg [simp]: "wf64 (Fin v) \<Longrightarrow> wf64 (Fin (- v))"
  using wf64_uminus[of "Fin v"] by (simp del: wf64.simps)

lemma wf64_dyadic: "\<bar>k\<bar> < 2 ^ 53 \<Longrightarrow> j \<le> 1074 \<Longrightarrow> wf64 (Fin (of_int k / 2 ^ j))"
  by (simp add: round64_dyadic)

declare wf64.simps(1) [simp del]

end
