(* ===== verification/GoText.thy ===== *)
theory GoText
  imports Prelude "HOL-Library.List_Lexorder" "HOL-Library.Char_ord" "HOL-Library.Sublist"
begin

text \<open>
  Go strings are byte sequences: a \<^typ>\<open>string\<close> here, one \<^typ>\<open>char\<close> per byte; \<open><\<close> on them
  (lexicographic by byte, from the library's list order) is Go's \<open><\<close>. This theory models what
  the program uses of the packages \<open>strings\<close> and \<open>strconv\<close>. Unicode white space is recognised
  by its UTF-8 encoding, at the front and at the back, as \<open>unicode.IsSpace\<close> does; case folding
  covers ASCII and the three non-ASCII letters that fold into ASCII (the program compares the
  folded text with ASCII words only).
\<close>

section \<open>Prefixes and splitting\<close>

definition has_prefix :: "string \<Rightarrow> string \<Rightarrow> bool" where
  "has_prefix p s = (take (length p) s = p)"

definition trim_prefix :: "string \<Rightarrow> string \<Rightarrow> string" where
  "trim_prefix p s = (if has_prefix p s then drop (length p) s else s)"

fun str_contains :: "string \<Rightarrow> string \<Rightarrow> bool" where
  "str_contains sub [] = (sub = [])"
| "str_contains sub (c # s) = (has_prefix sub (c # s) \<or> str_contains sub s)"

text \<open>\<open>strings.Split(s, sep)\<close> for a one-byte separator; \<open>strings.Join\<close>.\<close>

fun split_on :: "char \<Rightarrow> string \<Rightarrow> string list" where
  "split_on c [] = [[]]"
| "split_on c (x # s) =
     (if x = c then [] # split_on c s
      else case split_on c s of [] \<Rightarrow> [[x]] | w # ws \<Rightarrow> (x # w) # ws)"

fun str_join :: "string \<Rightarrow> string list \<Rightarrow> string" where
  "str_join sep [] = []"
| "str_join sep [w] = w"
| "str_join sep (w # ws) = w @ sep @ str_join sep ws"

text \<open>\<open>strings.TrimRight(s, "/")\<close>.\<close>

definition trim_right_char :: "char \<Rightarrow> string \<Rightarrow> string" where
  "trim_right_char c s = rev (dropWhile (\<lambda>x. x = c) (rev s))"

section \<open>White space\<close>

text \<open>The UTF-8 encodings of the code points with the White\_Space property.\<close>

definition space_seqs :: "string list" where
  "space_seqs =
     [[CHR 0x09], [CHR 0x0A], [CHR 0x0B], [CHR 0x0C], [CHR 0x0D], [CHR 0x20],
      [CHR 0xC2, CHR 0x85], [CHR 0xC2, CHR 0xA0], [CHR 0xE1, CHR 0x9A, CHR 0x80],
      [CHR 0xE2, CHR 0x80, CHR 0x80], [CHR 0xE2, CHR 0x80, CHR 0x81], [CHR 0xE2, CHR 0x80, CHR 0x82],
      [CHR 0xE2, CHR 0x80, CHR 0x83], [CHR 0xE2, CHR 0x80, CHR 0x84], [CHR 0xE2, CHR 0x80, CHR 0x85],
      [CHR 0xE2, CHR 0x80, CHR 0x86], [CHR 0xE2, CHR 0x80, CHR 0x87], [CHR 0xE2, CHR 0x80, CHR 0x88],
      [CHR 0xE2, CHR 0x80, CHR 0x89], [CHR 0xE2, CHR 0x80, CHR 0x8A], [CHR 0xE2, CHR 0x80, CHR 0xA8],
      [CHR 0xE2, CHR 0x80, CHR 0xA9], [CHR 0xE2, CHR 0x80, CHR 0xAF], [CHR 0xE2, CHR 0x81, CHR 0x9F],
      [CHR 0xE3, CHR 0x80, CHR 0x80]]"

text \<open>The number of leading bytes of \<open>s\<close> that form one of \<open>seqs\<close> (0 if none).\<close>

definition lead_len :: "string list \<Rightarrow> string \<Rightarrow> nat" where
  "lead_len seqs s = (case find (\<lambda>p. has_prefix p s) seqs of None \<Rightarrow> 0 | Some p \<Rightarrow> length p)"

function strip_lead :: "string list \<Rightarrow> string \<Rightarrow> string" where
  "strip_lead seqs s =
     (if lead_len seqs s = 0 \<or> s = [] then s else strip_lead seqs (drop (lead_len seqs s) s))"
  by pat_completeness auto
termination
  by (relation "measure (\<lambda>(seqs, s). length s)") auto

declare strip_lead.simps [simp del]

definition trim_left_space :: "string \<Rightarrow> string" where
  "trim_left_space s = strip_lead space_seqs s"

definition trim_right_space :: "string \<Rightarrow> string" where
  "trim_right_space s = rev (strip_lead (map rev space_seqs) (rev s))"

text \<open>\<open>strings.TrimSpace\<close>.\<close>

definition trim_space :: "string \<Rightarrow> string" where
  "trim_space s = trim_right_space (trim_left_space s)"

text \<open>\<open>strings.Fields\<close>: the maximal runs without white space; \<open>acc\<close> is the current
  field, reversed.\<close>

function fields_from :: "string \<Rightarrow> string \<Rightarrow> string list" where
  "fields_from acc s =
     (if s = [] then (if acc = [] then [] else [rev acc])
      else if lead_len space_seqs s = 0 then fields_from (hd s # acc) (tl s)
      else (if acc = [] then [] else [rev acc])
           @ fields_from [] (drop (lead_len space_seqs s) s))"
  by pat_completeness auto
termination
  by (relation "measure (\<lambda>(acc, s). length s)") (auto simp: neq_Nil_conv)

declare fields_from.simps [simp del]

definition str_fields :: "string \<Rightarrow> string list" where
  "str_fields s = fields_from [] s"

section \<open>Lines\<close>

text \<open>\<open>bufio.Scanner\<close> with its default buffer: lines without their terminator (\<open>\r\<close> dropped),
  the last one also without a newline; a line of 65536 bytes or more ends the scan.\<close>

definition drop_cr :: "string \<Rightarrow> string" where
  "drop_cr s = (if s \<noteq> [] \<and> last s = CHR 0x0D then butlast s else s)"

fun scan_pieces :: "string list \<Rightarrow> string list" where
  "scan_pieces [] = []"
| "scan_pieces (p # ps) =
     (if length p \<ge> 64 * 1024 then []
      else if ps = [] \<and> p = [] then []
      else drop_cr p # scan_pieces ps)"

definition scan_lines :: "string \<Rightarrow> string list" where
  "scan_lines body = scan_pieces (split_on (CHR 0x0A) body)"

section \<open>Case\<close>

definition lower_char :: "char \<Rightarrow> char" where
  "lower_char c = (if 65 \<le> (of_char c :: nat) \<and> (of_char c :: nat) \<le> 90 then char_of (of_char c + 32 :: nat) else c)"

text \<open>\<open>strings.ToLower\<close>: ASCII, the Kelvin sign (to k) and capital I with dot (to i).\<close>

fun to_lower :: "string \<Rightarrow> string" where
  "to_lower [] = []"
| "to_lower (a # s) =
     (if a = CHR 0xE2 \<and> has_prefix [CHR 0x84, CHR 0xAA] s then CHR ''k'' # to_lower (drop 2 s)
      else if a = CHR 0xC4 \<and> has_prefix [CHR 0xB0] s then CHR ''i'' # to_lower (drop 1 s)
      else lower_char a # to_lower s)"

text \<open>The representative of a string under simple folding (Kelvin sign, long s).\<close>

fun fold_case :: "string \<Rightarrow> string" where
  "fold_case [] = []"
| "fold_case (a # s) =
     (if a = CHR 0xE2 \<and> has_prefix [CHR 0x84, CHR 0xAA] s then CHR ''k'' # fold_case (drop 2 s)
      else if a = CHR 0xC5 \<and> has_prefix [CHR 0xBF] s then CHR ''s'' # fold_case (drop 1 s)
      else lower_char a # fold_case s)"

definition equal_fold :: "string \<Rightarrow> string \<Rightarrow> bool" where
  "equal_fold s t = (fold_case s = fold_case t)"

section \<open>Numbers\<close>

definition digit_char :: "nat \<Rightarrow> char" where
  "digit_char d = char_of (48 + d)"

fun nat_dec :: "nat \<Rightarrow> string" where
  "nat_dec n = (if n < 10 then [digit_char n] else nat_dec (n div 10) @ [digit_char (n mod 10)])"

declare nat_dec.simps [simp del]

definition int_dec :: "int \<Rightarrow> string" where
  "int_dec i = (if i < 0 then ''-'' @ nat_dec (nat (- i)) else nat_dec (nat i))"

definition is_digit :: "char \<Rightarrow> bool" where
  "is_digit c = (48 \<le> (of_char c :: nat) \<and> (of_char c :: nat) \<le> 57)"

fun dec_value :: "nat \<Rightarrow> string \<Rightarrow> nat" where
  "dec_value acc [] = acc"
| "dec_value acc (c # s) = dec_value (acc * 10 + (of_char c - 48)) s"

text \<open>\<open>strconv.ParseUint(s, 10, 64)\<close>: decimal digits only, in range.\<close>

definition parse_uint64 :: "string \<Rightarrow> nat option" where
  "parse_uint64 s =
     (if s \<noteq> [] \<and> list_all is_digit s \<and> dec_value 0 s < 2 ^ 64 then Some (dec_value 0 s) else None)"

text \<open>\<open>strconv.Atoi\<close> on a 64-bit platform: an optional sign and decimal digits, in range.\<close>

definition atoi :: "string \<Rightarrow> int option" where
  "atoi s =
     (let neg = has_prefix ''-'' s;
          ds = (if neg \<or> has_prefix ''+'' s then drop 1 s else s);
          v = int (dec_value 0 ds)
      in if ds = [] \<or> \<not> list_all is_digit ds then None
         else if neg then (if v \<le> 2 ^ 63 then Some (- v) else None)
         else (if v < 2 ^ 63 then Some v else None))"

section \<open>Facts\<close>

lemma has_prefix_append [simp]: "has_prefix p (p @ s)"
  by (simp add: has_prefix_def)

lemma has_prefix_nil [simp]: "has_prefix [] s"
  by (simp add: has_prefix_def)

lemma has_prefix_iff_prefix: "has_prefix p s \<longleftrightarrow> prefix p s"
  unfolding has_prefix_def prefix_def by (metis append_eq_conv_conj append_take_drop_id)

lemma has_prefix_mono: "has_prefix p s \<Longrightarrow> has_prefix p (s @ t)"
  by (simp add: has_prefix_iff_prefix)

lemma trim_prefix_append [simp]: "trim_prefix p (p @ s) = s"
  by (simp add: trim_prefix_def)

lemma str_contains_iff: "str_contains sub s \<longleftrightarrow> (\<exists>a b. s = a @ sub @ b)"
proof (induction s)
  case Nil
  then show ?case by auto
next
  case (Cons c s)
  have "(\<exists>a b. c # s = a @ sub @ b) \<longleftrightarrow> (\<exists>b. c # s = sub @ b) \<or> (\<exists>a b. s = a @ sub @ b)"
    by (metis append_Cons append_Nil list.exhaust list.inject)
  with Cons show ?case by (auto simp: has_prefix_iff_prefix prefix_def)
qed

subsection \<open>Splitting and joining\<close>

lemma split_on_ne [simp]: "split_on c s \<noteq> []"
  by (induction s) (auto split: list.splits)

lemma join_split_on: "str_join [c] (split_on c s) = s"
proof (induction s)
  case (Cons x s)
  show ?case
  proof (cases "split_on c s")
    case (Cons w ws)
    with Cons.IH show ?thesis by (cases ws) auto
  qed simp
qed simp

lemma split_on_no_sep: "w \<in> set (split_on c s) \<Longrightarrow> c \<notin> set w"
  by (induction s arbitrary: w) (auto split: if_splits list.splits)

lemma split_on_single: "c \<notin> set w \<Longrightarrow> split_on c w = [w]"
  by (induction w) auto

lemma split_on_append_sep: "c \<notin> set w \<Longrightarrow> split_on c (w @ c # s) = w # split_on c s"
  by (induction w) auto

lemma split_on_join:
  "ws \<noteq> [] \<Longrightarrow> (\<forall>w\<in>set ws. c \<notin> set w) \<Longrightarrow> split_on c (str_join [c] ws) = ws"
  by (induction "[c]" ws rule: str_join.induct) (auto simp: split_on_single split_on_append_sep)

text \<open>No line of the scan is longer than the buffer, none keeps its newline.\<close>

lemma scan_pieces_in: "l \<in> set (scan_pieces ps) \<Longrightarrow> \<exists>p\<in>set ps. l = drop_cr p \<and> length p < 65536"
  by (induction ps) (auto split: if_splits)

lemma scan_lines_clean: "l \<in> set (scan_lines body) \<Longrightarrow> CHR 0x0A \<notin> set l \<and> length l < 65536"
  unfolding scan_lines_def
  by (drule scan_pieces_in) (auto simp: drop_cr_def dest!: split_on_no_sep in_set_butlastD split: if_splits)

subsection \<open>Trimming\<close>

lemma lead_len_nil [simp]: "lead_len seqs [] = 0"
  by (auto simp: lead_len_def has_prefix_def find_Some_iff split: option.splits)

lemma lead_len_0_iff: "[] \<notin> set seqs \<Longrightarrow> lead_len seqs s = 0 \<longleftrightarrow> (\<forall>p\<in>set seqs. \<not> has_prefix p s)"
  by (auto simp: lead_len_def find_None_iff find_Some_iff split: option.splits) (metis nth_mem)

lemma strip_lead_stop: "lead_len seqs (strip_lead seqs s) = 0"
  by (induction seqs s rule: strip_lead.induct) (subst strip_lead.simps, auto)

lemma strip_lead_id: "lead_len seqs s = 0 \<Longrightarrow> strip_lead seqs s = s"
  by (subst strip_lead.simps) simp

lemma strip_lead_suffix: "suffix (strip_lead seqs s) s"
proof (induction seqs s rule: strip_lead.induct)
  case (1 seqs s)
  show ?case
  proof (cases "lead_len seqs s = 0 \<or> s = []")
    case True
    then show ?thesis by (subst strip_lead.simps) simp
  next
    case False
    with 1 have "suffix (strip_lead seqs (drop (lead_len seqs s) s)) s"
      by (meson suffix_drop suffix_order.trans)
    with False show ?thesis by (subst strip_lead.simps) simp
  qed
qed

lemma nil_notin_space_seqs [simp]: "[] \<notin> set space_seqs"
  by (simp add: space_seqs_def)

lemma prefix_no_lead: "lead_len space_seqs (s @ t) = 0 \<Longrightarrow> lead_len space_seqs s = 0"
  by (auto simp: lead_len_0_iff dest: has_prefix_mono)

lemma trim_right_space_prefix: "prefix (trim_right_space s) s"
  using strip_lead_suffix[of "map rev space_seqs" "rev s"]
  by (simp add: trim_right_space_def suffix_to_prefix)

lemma trim_right_space_idem: "trim_right_space (trim_right_space s) = trim_right_space s"
  by (simp add: trim_right_space_def strip_lead_id strip_lead_stop)

lemma trim_space_no_lead: "lead_len space_seqs (trim_space s) = 0"
proof -
  obtain t where "trim_left_space s = trim_space s @ t"
    using trim_right_space_prefix by (auto simp: trim_space_def prefix_def)
  moreover have "lead_len space_seqs (trim_left_space s) = 0"
    by (simp add: trim_left_space_def strip_lead_stop)
  ultimately show ?thesis by (metis prefix_no_lead)
qed

lemma trim_space_idem [simp]: "trim_space (trim_space s) = trim_space s"
proof -
  have "trim_left_space (trim_space s) = trim_space s"
    by (simp add: trim_left_space_def strip_lead_id trim_space_no_lead)
  then show ?thesis by (simp add: trim_space_def trim_right_space_idem)
qed

lemma trim_space_nil [simp]: "trim_space [] = []"
  by (simp add: trim_space_def trim_left_space_def trim_right_space_def strip_lead_id)

lemma trim_space_infix: "\<exists>a b. s = a @ trim_space s @ b"
proof -
  obtain a where "s = a @ trim_left_space s"
    using strip_lead_suffix by (auto simp: trim_left_space_def suffix_def)
  moreover obtain b where "trim_left_space s = trim_space s @ b"
    using trim_right_space_prefix by (auto simp: trim_space_def prefix_def)
  ultimately show ?thesis by metis
qed

lemma set_trim_space: "set (trim_space s) \<subseteq> set s"
  using trim_space_infix[of s] by (metis Un_iff set_append subsetI)

lemmas text_eval =
  trim_space_def trim_left_space_def trim_right_space_def strip_lead.simps lead_len_def
  space_seqs_def has_prefix_def

subsection \<open>Decimal numerals\<close>

lemma of_char_digit: "d < 10 \<Longrightarrow> of_char (digit_char d) = 48 + d"
  by (simp add: digit_char_def)

lemma is_digit_digit_char: "d < 10 \<Longrightarrow> is_digit (digit_char d)"
  by (simp add: is_digit_def of_char_digit)

lemma dec_value_append: "dec_value a (s @ t) = dec_value (dec_value a s) t"
  by (induction s arbitrary: a) auto

lemma nat_dec_ne [simp]: "nat_dec n \<noteq> []"
  by (subst nat_dec.simps) simp

lemma nat_dec_digits: "list_all is_digit (nat_dec n)"
proof (induction n rule: nat_dec.induct)
  case (1 n)
  then show ?case by (subst nat_dec.simps) (auto simp: is_digit_digit_char)
qed

lemma dec_value_nat_dec: "dec_value 0 (nat_dec n) = n"
proof (induction n rule: nat_dec.induct)
  case (1 n)
  then show ?case by (subst nat_dec.simps) (auto simp: dec_value_append of_char_digit)
qed

text \<open>What \<open>FormatUint\<close> writes, \<open>ParseUint\<close> reads back.\<close>

lemma parse_uint64_nat_dec: "n < 2 ^ 64 \<Longrightarrow> parse_uint64 (nat_dec n) = Some n"
  by (simp add: parse_uint64_def nat_dec_digits dec_value_nat_dec)

lemma parse_uint64_range: "parse_uint64 s = Some n \<Longrightarrow> n < 2 ^ 64"
  by (auto simp: parse_uint64_def split: if_splits)

lemma atoi_range: "atoi s = Some v \<Longrightarrow> - (2 ^ 63) \<le> v \<and> v < 2 ^ 63"
  by (auto simp: atoi_def Let_def split: if_splits)

end
