(* ===== verification/GoRt.thy ===== *)
theory GoRt
  imports Prelude Float64 GoText "HOL-Library.AList" "HOL-Library.Word"
begin

text \<open>
  The rest of the Go run time the program uses: 64-bit integers, \<open>time.Time\<close> and
  \<open>time.Duration\<close>, maps and \<open>sort.Slice\<close>.
  \<^item> Times are nanoseconds since the zero \<open>Time\<close>; durations are nanoseconds as \<open>int64\<close>.
  \<^item> A Go map is an association list with distinct keys (locale \<open>map_store\<close> is what its
    clients rely on). Ranging over a map visits the entries in an unspecified order: the
    operations that range take that order as an argument \<open>rng\<close>, any function that
    permutes lists (\<open>permuting\<close>).
  \<^item> \<open>sort.Slice\<close> is not stable and its algorithm is not part of its contract: operations
    that sort take the sorting function as an argument, and the locale \<open>slice_sort\<close> states
    what the documentation of \<open>sort.Slice\<close> promises. \<open>insertion_sort\<close> is the algorithm the
    library runs on up to 12 elements.
\<close>

section \<open>Integers\<close>

type_synonym i64 = "64 word"
type_synonym u64 = "64 word"

definition sat64 :: "int \<Rightarrow> int" where
  "sat64 n = max (- (2 ^ 63)) (min (2 ^ 63 - 1) n)"

text \<open>Go's \<open>/\<close> and \<open>%\<close> on signed integers truncate toward zero.\<close>

definition go_quot :: "int \<Rightarrow> int \<Rightarrow> int" where
  "go_quot a b = sgn a * sgn b * (\<bar>a\<bar> div \<bar>b\<bar>)"

definition go_rem :: "int \<Rightarrow> int \<Rightarrow> int" where
  "go_rem a b = a - go_quot a b * b"

section \<open>Time\<close>

type_synonym gtime = int
type_synonym duration = int

definition second :: duration where "second = 1000000000"
definition millisecond :: duration where "millisecond = 1000000"

definition time_is_zero :: "gtime \<Rightarrow> bool" where "time_is_zero t = (t = 0)"

text \<open>\<open>t.Sub(u)\<close> saturates at the ends of the duration range.\<close>

definition time_sub :: "gtime \<Rightarrow> gtime \<Rightarrow> duration" where "time_sub t u = sat64 (t - u)"
definition time_add :: "gtime \<Rightarrow> duration \<Rightarrow> gtime" where "time_add t d = t + d"
definition time_after :: "gtime \<Rightarrow> gtime \<Rightarrow> bool" where "time_after t u = (t > u)"
definition time_before :: "gtime \<Rightarrow> gtime \<Rightarrow> bool" where "time_before t u = (t < u)"

text \<open>\<open>d.Seconds()\<close> and \<open>d.Milliseconds()\<close>.\<close>

definition dur_seconds :: "duration \<Rightarrow> f64" where
  "dur_seconds d = f64_of_int (go_quot d second) + f64_div (f64_of_int (go_rem d second)) (f64_of_int second)"

definition dur_milliseconds :: "duration \<Rightarrow> int" where
  "dur_milliseconds d = go_quot d millisecond"

lemma go_quot_nonneg: "0 \<le> a \<Longrightarrow> 0 < b \<Longrightarrow> go_quot a b = a div b"
  by (cases "a = 0") (auto simp: go_quot_def)

lemma go_rem_nonneg: "0 \<le> a \<Longrightarrow> 0 < b \<Longrightarrow> go_rem a b = a mod b"
  by (simp add: go_rem_def go_quot_nonneg minus_div_mult_eq_mod)

lemma time_sub_pos: "0 < time_sub t u \<longleftrightarrow> u < t"
  by (auto simp: time_sub_def sat64_def)

lemma time_sub_range: "- (2 ^ 63) \<le> time_sub t u" "time_sub t u < 2 ^ 63"
  by (auto simp: time_sub_def sat64_def)

text \<open>A positive duration is a positive, finite number of seconds.\<close>

lemma dur_seconds_pos:
  assumes "0 < d" "d < 2 ^ 63" obtains v where "dur_seconds d = Fin v" "0 < v" "v \<le> 2 ^ 52"
proof -
  define q r where "q = d div second" and "r = d mod second"
  have q: "0 \<le> q" "q \<le> 9223372036" using assms by (auto simp: q_def second_def)
  have r: "0 \<le> r" "r < 1000000000" by (auto simp: r_def second_def)
  have qr: "0 < q \<or> 0 < r"
  proof (rule ccontr)
    assume "\<not> (0 < q \<or> 0 < r)"
    then have "q = 0" "r = 0" using q r by auto
    then have "d = 0" using div_mult_mod_eq[of d second] by (simp add: q_def r_def)
    then show False using assms by simp
  qed
  have sec: "dur_seconds d = Fin (of_int q) + round64 (of_int r / 1000000000)"
    using assms q r unfolding dur_seconds_def
    by (simp add: go_quot_nonneg go_rem_nonneg second_def f64_of_int_exact q_def r_def)
  obtain w where w: "round64 (of_int r / 1000000000) = Fin w" "0 \<le> w" "w \<le> 1"
    by (rule round64_unit[of "of_int r / 1000000000"]) (use r in auto)
  have lo: "1 / 2 ^ 52 \<le> w" if "0 < r"
  proof -
    have "wf64 (Fin (1 / 2 ^ 52))" using wf64_dyadic[of 1 52] by simp
    moreover have "1 / 2 ^ 52 \<le> of_int r / (1000000000::rat)"
    proof -
      have "(1::rat) \<le> of_int r" using that by simp
      then show ?thesis by (simp add: divide_simps)
    qed
    ultimately show ?thesis using round64_ge_Fin[of "1 / 2 ^ 52"] w(1) by fastforce
  qed
  have ge: "1 / 2 ^ 52 \<le> of_int q + w"
  proof (cases "0 < r")
    case True
    then show ?thesis using lo q by (simp add: add_increasing)
  next
    case False
    then have "(1::rat) \<le> of_int q" using qr by simp
    moreover have "(1::rat) / 2 ^ 52 \<le> 1" by simp
    ultimately show ?thesis using w by linarith
  qed
  have le: "of_int q + w \<le> 2 ^ 52"
  proof -
    have "(of_int q :: rat) \<le> 9223372036" using q by simp
    then show ?thesis using w by simp
  qed
  obtain v where "round64 (of_int q + w) = Fin v" "1 / 2 ^ 52 \<le> v" "v \<le> 2 ^ 52"
  proof (rule round64_between[of "1 / 2 ^ 52" "2 ^ 52" "of_int q + w"])
    show "wf64 (Fin (1 / 2 ^ 52))" using wf64_dyadic[of 1 52] by simp
    show "wf64 (Fin (2 ^ 52))" using wf64_dyadic[of "2 ^ 52" 0] by simp
  qed (use ge le in auto)
  then show thesis using that sec w(1) by (auto intro: less_le_trans[of 0 "1 / 2 ^ 52"])
qed

lemma dur_seconds_nonpos:
  assumes "d \<le> 0" "- (2 ^ 63) \<le> d" shows "dur_seconds d \<le> 0"
proof -
  define q r where "q = (- d) div second" and "r = (- d) mod second"
  have q: "0 \<le> q" "q \<le> 9223372036" using assms by (auto simp: q_def second_def)
  have r: "0 \<le> r" "r < 1000000000" by (auto simp: r_def second_def)
  have gq: "go_quot d second = - q" using assms by (auto simp: go_quot_def q_def second_def sgn_if)
  have gr: "go_rem d second = - r"
    unfolding go_rem_def gq r_def q_def by (simp add: minus_mult_div_eq_mod [symmetric])
  have a: "f64_of_int (- q) = Fin (- of_int q)" "f64_of_int (- r) = Fin (- of_int r)"
    using q r by (simp_all add: f64_of_int_exact)
  note z = round64_le_Fin [OF wf64_01(1)]
  have "\<not> Fin 0 < round64 (- of_int r / 1000000000)" using r by (intro z) simp
  then obtain w where w: "round64 (- of_int r / 1000000000) = Fin w" "w \<le> 0"
  proof -
    show thesis
      by (rule round64_between[of "-1" 0 "- of_int r / 1000000000"]) (use r that in auto)
  qed
  have "\<not> Fin 0 < round64 (- of_int q + w)" using q w by (intro z) auto
  then have "round64 (- of_int q + w) \<le> 0" by (simp add: less_eq_f64_def f64_simps)
  then show ?thesis
    using w unfolding dur_seconds_def gq gr a by (simp add: second_def f64_of_int_exact)
qed

section \<open>Maps\<close>

type_synonym ('k, 'v) gomap = "('k \<times> 'v) list"

abbreviation map_get :: "('k, 'v) gomap \<Rightarrow> 'k \<Rightarrow> 'v option" where "map_get \<equiv> map_of"
abbreviation map_put :: "'k \<Rightarrow> 'v \<Rightarrow> ('k, 'v) gomap \<Rightarrow> ('k, 'v) gomap" where "map_put \<equiv> AList.update"
abbreviation map_del :: "'k \<Rightarrow> ('k, 'v) gomap \<Rightarrow> ('k, 'v) gomap" where "map_del \<equiv> AList.delete"

definition map_wf :: "('k, 'v) gomap \<Rightarrow> bool" where
  "map_wf m = distinct (map fst m)"

definition permuting :: "('a list \<Rightarrow> 'a list) \<Rightarrow> bool" where
  "permuting rng = (\<forall>xs. mset (rng xs) = mset xs)"

lemma permuting_mset: "permuting rng \<Longrightarrow> mset (rng xs) = mset xs"
  by (simp add: permuting_def)

lemma permuting_single: "permuting rng \<Longrightarrow> rng [x] = [x]"
  using permuting_mset[of rng "[x]"] by simp

lemma permuting_set: "permuting rng \<Longrightarrow> set (rng xs) = set xs"
  by (intro mset_eq_set permuting_mset)

lemma permuting_id: "permuting (\<lambda>xs. xs)"
  by (simp add: permuting_def)

text \<open>What a client of a map relies on.\<close>

locale map_store =
  fixes empty :: 'm
    and put :: "'k \<Rightarrow> 'v \<Rightarrow> 'm \<Rightarrow> 'm"
    and del :: "'k \<Rightarrow> 'm \<Rightarrow> 'm"
    and get :: "'m \<Rightarrow> 'k \<Rightarrow> 'v option"
    and entries :: "'m \<Rightarrow> ('k \<times> 'v) list"
    and wf :: "'m \<Rightarrow> bool"
  assumes get_empty: "get empty k = None"
    and get_put: "get (put k v m) k' = (if k' = k then Some v else get m k')"
    and get_del: "get (del k m) k' = (if k' = k then None else get m k')"
    and entries_iff: "wf m \<Longrightarrow> (k, v) \<in> set (entries m) \<longleftrightarrow> get m k = Some v"
    and entries_distinct: "wf m \<Longrightarrow> distinct (map fst (entries m))"
    and wf_empty: "wf empty"
    and wf_put: "wf m \<Longrightarrow> wf (put k v m)"
    and wf_del: "wf m \<Longrightarrow> wf (del k m)"
begin

text \<open>A loop that stores: the last store to a key wins, other keys keep their value.\<close>

lemma get_fold_put:
  "get (fold (\<lambda>x. put (f x) (g x)) xs m) k =
     (case find (\<lambda>x. f x = k) (rev xs) of Some x \<Rightarrow> Some (g x) | None \<Rightarrow> get m k)"
proof (induction xs arbitrary: m)
  case (Cons x xs)
  have find_snoc: "find P (ys @ [y]) = (case find P ys of Some z \<Rightarrow> Some z | None \<Rightarrow> if P y then Some y else None)"
    for P and ys :: "'c list" and y
    by (induction ys) auto
  show ?case
    using Cons[of "put (f x) (g x) m"] by (auto simp: find_snoc get_put split: option.splits)
qed simp

lemma wf_fold_put: "wf m \<Longrightarrow> wf (fold (\<lambda>x. put (f x) (g x)) xs m)"
  by (induction xs arbitrary: m) (auto simp: wf_put)

text \<open>A loop that deletes the entries satisfying \<open>P\<close>, over any enumeration of keys.\<close>

lemma get_fold_del:
  "get (fold (\<lambda>(k, v) m. if P v then del k m else m) xs m) k =
     (if \<exists>v. (k, v) \<in> set xs \<and> P v then None else get m k)"
  by (induction xs arbitrary: m) (auto simp: get_del)

lemma wf_fold_del: "wf m \<Longrightarrow> wf (fold (\<lambda>(k, v) m. if P v then del k m else m) xs m)"
  by (induction xs arbitrary: m) (auto simp: wf_del)

text \<open>Pruning a map with its own entries removes exactly the entries satisfying \<open>P\<close>.\<close>

lemma get_prune:
  assumes "wf m" "set xs = set (entries m)"
  shows "get (fold (\<lambda>(k, v) m. if P v then del k m else m) xs m) k =
    (case get m k of Some v \<Rightarrow> if P v then None else Some v | None \<Rightarrow> None)"
  using assms by (auto simp: get_fold_del entries_iff split: option.splits)

end

interpretation gm: map_store "[]" map_put map_del map_get "\<lambda>m. m" map_wf
proof
  fix m :: "('k \<times> 'v) list" and k v
  assume "map_wf m"
  then show "(k, v) \<in> set m \<longleftrightarrow> map_get m k = Some v"
    by (auto simp: map_wf_def map_of_eq_Some_iff)
qed (auto simp: map_wf_def update_conv' delete_conv' distinct_update distinct_delete)

section \<open>Sorting\<close>

text \<open>What the documentation of \<open>sort.Slice\<close> asks of the comparison, on the elements present.\<close>

definition strict_weak :: "('a \<Rightarrow> 'a \<Rightarrow> bool) \<Rightarrow> 'a set \<Rightarrow> bool" where
  "strict_weak lt A \<longleftrightarrow>
     (\<forall>a\<in>A. \<not> lt a a)
   \<and> (\<forall>a\<in>A. \<forall>b\<in>A. \<forall>c\<in>A. lt a b \<and> lt b c \<longrightarrow> lt a c)
   \<and> (\<forall>a\<in>A. \<forall>b\<in>A. \<forall>c\<in>A. \<not> lt a b \<and> \<not> lt b c \<longrightarrow> \<not> lt a c)"

lemma strict_weak_asym: "strict_weak lt A \<Longrightarrow> a \<in> A \<Longrightarrow> b \<in> A \<Longrightarrow> lt a b \<Longrightarrow> \<not> lt b a"
  unfolding strict_weak_def by blast

lemma strict_weak_neg_trans:
  "strict_weak lt A \<Longrightarrow> a \<in> A \<Longrightarrow> b \<in> A \<Longrightarrow> c \<in> A \<Longrightarrow> \<not> lt a b \<Longrightarrow> \<not> lt b c \<Longrightarrow> \<not> lt a c"
  unfolding strict_weak_def by blast

lemma strict_weak_subset: "strict_weak lt A \<Longrightarrow> B \<subseteq> A \<Longrightarrow> strict_weak lt B"
  unfolding strict_weak_def by blast

locale slice_sort =
  fixes srt :: "('a \<Rightarrow> 'a \<Rightarrow> bool) \<Rightarrow> 'a list \<Rightarrow> 'a list"
  assumes srt_mset: "mset (srt lt xs) = mset xs"
    and srt_sorted: "strict_weak lt (set xs) \<Longrightarrow> sorted_wrt (\<lambda>a b. \<not> lt b a) (srt lt xs)"
begin

lemma srt_set: "set (srt lt xs) = set xs"
  by (rule mset_eq_set) (rule srt_mset)

lemma srt_length: "length (srt lt xs) = length xs"
  using srt_mset[of lt xs] by (metis size_mset)

lemma srt_nil_iff: "srt lt xs = [] \<longleftrightarrow> xs = []"
  using srt_mset[of lt xs] by (metis mset_zero_iff)

lemma srt_distinct: "distinct (srt lt xs) = distinct xs"
  by (metis card_distinct distinct_card srt_length srt_set)

text \<open>The first element of the result is minimal.\<close>

lemma srt_head_minimal:
  assumes "strict_weak lt (set xs)" "srt lt xs = y # ys" "x \<in> set xs"
  shows "\<not> lt x y"
proof (cases "x = y")
  case True
  then show ?thesis using assms(1,3) by (auto simp: strict_weak_def)
next
  case False
  have "x \<in> set (y # ys)" using assms(2,3) srt_set[of lt xs] by simp
  with False have "x \<in> set ys" by simp
  with srt_sorted[OF assms(1)] show ?thesis by (simp add: assms(2))
qed

end

text \<open>The insertion sort of package \<open>sort\<close> (\<open>insertionSortLessFunc\<close>): each element sinks
  from the right while it is less than its left neighbour; the sorted part is kept reversed.\<close>

fun ins_back :: "('a \<Rightarrow> 'a \<Rightarrow> bool) \<Rightarrow> 'a \<Rightarrow> 'a list \<Rightarrow> 'a list" where
  "ins_back lt x [] = [x]"
| "ins_back lt x (y # ys) = (if lt x y then y # ins_back lt x ys else x # y # ys)"

definition insertion_sort :: "('a \<Rightarrow> 'a \<Rightarrow> bool) \<Rightarrow> 'a list \<Rightarrow> 'a list" where
  "insertion_sort lt xs = rev (fold (ins_back lt) xs [])"

lemma mset_ins_back: "mset (ins_back lt x ys) = add_mset x (mset ys)"
  by (induction ys) auto

lemma set_ins_back: "set (ins_back lt x ys) = insert x (set ys)"
  by (metis mset_ins_back set_mset_add_mset_insert set_mset_mset)

lemma sorted_ins_back:
  assumes "strict_weak lt (insert x (set ys))" "sorted_wrt (\<lambda>b a. \<not> lt b a) ys"
  shows "sorted_wrt (\<lambda>b a. \<not> lt b a) (ins_back lt x ys)"
  using assms
proof (induction ys)
  case (Cons y ys)
  have sw: "strict_weak lt (insert x (set ys))"
    using Cons.prems(1) by (rule strict_weak_subset) auto
  show ?case
  proof (cases "lt x y")
    case True
    then have "\<not> lt y x" by (intro strict_weak_asym [OF Cons.prems(1)]) auto
    then show ?thesis using True Cons.IH[OF sw] Cons.prems(2) by (auto simp: set_ins_back)
  next
    case False
    have "\<not> lt x z" if "z \<in> set ys" for z
      by (rule strict_weak_neg_trans [OF Cons.prems(1), of x y z]) (use that False Cons.prems(2) in auto)
    then show ?thesis using False Cons.prems(2) by auto
  qed
qed simp

lemma mset_fold_ins: "mset (fold (ins_back lt) xs ys) = mset xs + mset ys"
  by (induction xs arbitrary: ys) (auto simp: mset_ins_back)

lemma sorted_fold_ins:
  assumes "strict_weak lt (set xs \<union> set ys)" "sorted_wrt (\<lambda>b a. \<not> lt b a) ys"
  shows "sorted_wrt (\<lambda>b a. \<not> lt b a) (fold (ins_back lt) xs ys)"
  using assms
proof (induction xs arbitrary: ys)
  case (Cons x xs)
  have "strict_weak lt (insert x (set ys))"
    using Cons.prems(1) by (rule strict_weak_subset) auto
  then have "sorted_wrt (\<lambda>b a. \<not> lt b a) (ins_back lt x ys)"
    using Cons.prems(2) by (rule sorted_ins_back)
  then show ?case using Cons by (simp add: set_ins_back)
qed simp

interpretation isort: slice_sort insertion_sort
proof
  fix lt :: "'a \<Rightarrow> 'a \<Rightarrow> bool" and xs
  show "mset (insertion_sort lt xs) = mset xs"
    by (simp add: insertion_sort_def mset_fold_ins)
  assume "strict_weak lt (set xs)"
  then show "sorted_wrt (\<lambda>a b. \<not> lt b a) (insertion_sort lt xs)"
    using sorted_fold_ins[of lt xs "[]"] by (simp add: insertion_sort_def sorted_wrt_rev)
qed

end
