(* ===== verification/Types.thy ===== *)
theory Types
  imports GoRt
begin

text \<open>
  The data the nodes exchange (\<^verbatim>\<open>internal/model/types.go\<close>): chat requests with their model
  requirements, capability documents, routing weights, and the two capability tests the
  router filters with. A Go \<open>int\<close> field is an \<^typ>\<open>int\<close> (no arithmetic is done on them);
  \<open>Metadata\<close> distinguishes the nil map (\<open>None\<close>).
\<close>

definition HeaderClientPeerID :: string where "HeaderClientPeerID = ''X-Infermesh-Client-Peer''"
definition HeaderPoWNonce :: string where "HeaderPoWNonce = ''X-Infermesh-Pow-Nonce''"
definition HeaderClientName :: string where "HeaderClientName = ''X-Infermesh-Client-Name''"

record Message =
  msg_Role :: string
  msg_Content :: string

record ModelRequirements =
  mr_SHA256 :: string
  mr_Tokenizer :: string
  mr_Quant :: string
  mr_Backend :: string

record ChatCompletionRequest =
  req_Model :: string
  req_Messages :: "Message list"
  req_Stream :: bool
  req_MaxTokens :: int
  req_Requirements :: ModelRequirements
  req_Metadata :: "(string, string) gomap option"

record PeerContext =
  pc_ClientPeerID :: string
  pc_ClientName :: string
  pc_PoWNonce :: u64

record ModelSpec =
  ms_Name :: string
  ms_SHA256 :: string
  ms_Tokenizer :: string
  ms_Quant :: string
  ms_Backend :: string
  ms_MaxCtx :: int

record CapabilityDocument =
  PeerID :: string
  Self :: bool
  NodeName :: string
  Models :: "ModelSpec list"
  AnnounceAddrs :: "string list"
  GPU :: string
  VRAMFreeMB :: int
  QueueDepth :: int
  AvgLatencyMS :: int
  Reliability :: f64
  GatewayURL :: string
  UpdatedAt :: gtime

record RoutingWeights =
  w_Latency :: f64
  w_QueueDepth :: f64
  w_VRAMPressure :: f64
  w_Reliability :: f64
  w_FavoriteBonus :: f64
  w_KnownBonus :: f64

text \<open>The zero values Go gives to fields a literal does not mention.\<close>

definition no_requirements :: ModelRequirements where
  "no_requirements = \<lparr>mr_SHA256 = [], mr_Tokenizer = [], mr_Quant = [], mr_Backend = []\<rparr>"

definition zero_spec :: ModelSpec where
  "zero_spec = \<lparr>ms_Name = [], ms_SHA256 = [], ms_Tokenizer = [], ms_Quant = [], ms_Backend = [], ms_MaxCtx = 0\<rparr>"

definition zero_doc :: CapabilityDocument where
  "zero_doc = \<lparr>PeerID = [], Self = False, NodeName = [], Models = [], AnnounceAddrs = [], GPU = [],
     VRAMFreeMB = 0, QueueDepth = 0, AvgLatencyMS = 0, Reliability = 0, GatewayURL = [], UpdatedAt = 0\<rparr>"

definition zero_request :: ChatCompletionRequest where
  "zero_request = \<lparr>req_Model = [], req_Messages = [], req_Stream = False, req_MaxTokens = 0,
     req_Requirements = no_requirements, req_Metadata = None\<rparr>"

section \<open>Capability tests\<close>

fun spec_list_supports :: "ModelSpec list \<Rightarrow> string \<Rightarrow> bool" where
  "spec_list_supports [] model = False"
| "spec_list_supports (m # ms) model = (if ms_Name m = model then True else spec_list_supports ms model)"

definition SupportsModel :: "CapabilityDocument \<Rightarrow> string \<Rightarrow> bool" where
  "SupportsModel c model = spec_list_supports (Models c) model"

fun spec_list_satisfies :: "ModelSpec list \<Rightarrow> string \<Rightarrow> ModelRequirements \<Rightarrow> bool" where
  "spec_list_satisfies [] model r = False"
| "spec_list_satisfies (m # ms) model r =
     (if ms_Name m \<noteq> model then spec_list_satisfies ms model r
      else if mr_SHA256 r \<noteq> [] \<and> ms_SHA256 m \<noteq> mr_SHA256 r then spec_list_satisfies ms model r
      else if mr_Tokenizer r \<noteq> [] \<and> ms_Tokenizer m \<noteq> mr_Tokenizer r then spec_list_satisfies ms model r
      else if mr_Quant r \<noteq> [] \<and> ms_Quant m \<noteq> mr_Quant r then spec_list_satisfies ms model r
      else if mr_Backend r \<noteq> [] \<and> ms_Backend m \<noteq> mr_Backend r then spec_list_satisfies ms model r
      else True)"

definition SupportsRequirements :: "CapabilityDocument \<Rightarrow> string \<Rightarrow> ModelRequirements \<Rightarrow> bool" where
  "SupportsRequirements c model r = spec_list_satisfies (Models c) model r"

text \<open>One model specification meets a requirement: the specification the two loops implement.\<close>

definition field_ok :: "string \<Rightarrow> string \<Rightarrow> bool" where
  "field_ok want got = (want = [] \<or> got = want)"

definition spec_meets :: "string \<Rightarrow> ModelRequirements \<Rightarrow> ModelSpec \<Rightarrow> bool" where
  "spec_meets model r m = (ms_Name m = model \<and> field_ok (mr_SHA256 r) (ms_SHA256 m)
     \<and> field_ok (mr_Tokenizer r) (ms_Tokenizer m) \<and> field_ok (mr_Quant r) (ms_Quant m)
     \<and> field_ok (mr_Backend r) (ms_Backend m))"

lemma SupportsModel_iff: "SupportsModel c model \<longleftrightarrow> (\<exists>m\<in>set (Models c). ms_Name m = model)"
proof -
  have "spec_list_supports ms model \<longleftrightarrow> (\<exists>m\<in>set ms. ms_Name m = model)" for ms
    by (induction ms) auto
  then show ?thesis by (simp add: SupportsModel_def)
qed

lemma SupportsRequirements_iff:
  "SupportsRequirements c model r \<longleftrightarrow> (\<exists>m\<in>set (Models c). spec_meets model r m)"
proof -
  have "spec_list_satisfies ms model r \<longleftrightarrow> (\<exists>m\<in>set ms. spec_meets model r m)" for ms
    by (induction ms) (auto simp: spec_meets_def field_ok_def)
  then show ?thesis by (simp add: SupportsRequirements_def)
qed

lemma SupportsRequirements_model: "SupportsRequirements c model r \<Longrightarrow> SupportsModel c model"
  by (auto simp: SupportsRequirements_iff SupportsModel_iff spec_meets_def)

lemma SupportsRequirements_none: "SupportsRequirements c model no_requirements = SupportsModel c model"
  by (auto simp: SupportsRequirements_iff SupportsModel_iff spec_meets_def field_ok_def no_requirements_def)

end
