(* ===== verification/Credits.thy ===== *)
theory Credits
  imports GoRt
begin

text \<open>
  The credit ledger (\<^verbatim>\<open>internal/control/credits.go\<close>). Each method runs under the ledger's
  mutex, so it is one atomic transformer of the balance, a wrapping \<open>int64\<close>. The locale
  \<open>credit_account\<close> is what the two services rely on: a granted spend takes exactly its amount
  and never overdraws, a refused one changes nothing, an earn adds its amount.
\<close>

section \<open>The ledger\<close>

record CreditLedger =
  balance :: i64

definition NewCreditLedger :: "i64 \<Rightarrow> CreditLedger" where
  "NewCreditLedger initial = \<lparr>balance = initial\<rparr>"

definition Balance :: "CreditLedger \<Rightarrow> i64" where
  "Balance l = balance l"

definition Spend :: "i64 \<Rightarrow> CreditLedger \<Rightarrow> bool \<times> CreditLedger" where
  "Spend v l = (if v \<le>s 0 then (True, l)
     else if balance l <s v then (False, l)
     else (True, l\<lparr>balance := balance l - v\<rparr>))"

definition Earn :: "i64 \<Rightarrow> CreditLedger \<Rightarrow> CreditLedger" where
  "Earn v l = (if v \<le>s 0 then l else l\<lparr>balance := balance l + v\<rparr>)"

text \<open>The balance as a number, and the amount an operation is about.\<close>

definition credits :: "CreditLedger \<Rightarrow> int" where
  "credits l = sint (balance l)"

definition amount :: "i64 \<Rightarrow> int" where
  "amount v = max 0 (sint v)"

section \<open>Sequences of operations\<close>

datatype ledger_op = DoSpend i64 | DoEarn i64

fun run_account ::
  "(i64 \<Rightarrow> 's \<Rightarrow> bool \<times> 's) \<Rightarrow> (i64 \<Rightarrow> 's \<Rightarrow> 's) \<Rightarrow> ledger_op list \<Rightarrow> 's \<Rightarrow> bool list \<times> 's" where
  "run_account spend earn [] s = ([], s)"
| "run_account spend earn (DoSpend v # ops) s =
     (let (ok, s1) = spend v s; (rs, s2) = run_account spend earn ops s1 in (ok # rs, s2))"
| "run_account spend earn (DoEarn v # ops) s = run_account spend earn ops (earn v s)"

text \<open>The credits earned by a sequence and the credits of its granted spends.\<close>

fun earned :: "ledger_op list \<Rightarrow> int" where
  "earned [] = 0"
| "earned (DoSpend v # ops) = earned ops"
| "earned (DoEarn v # ops) = amount v + earned ops"

fun spent :: "ledger_op list \<Rightarrow> bool list \<Rightarrow> int" where
  "spent (DoSpend v # ops) (r # rs) = (if r then amount v else 0) + spent ops rs"
| "spent (DoEarn v # ops) rs = spent ops rs"
| "spent _ _ = 0"

lemma amount_nonneg [simp]: "0 \<le> amount v"
  by (simp add: amount_def)

lemma earned_nonneg [simp]: "0 \<le> earned ops"
  by (induction ops rule: earned.induct) (auto intro: add_nonneg_nonneg)

locale credit_account =
  fixes spend :: "i64 \<Rightarrow> 's \<Rightarrow> bool \<times> 's"
    and earn :: "i64 \<Rightarrow> 's \<Rightarrow> 's"
    and bal :: "'s \<Rightarrow> int"
  assumes spend_granted:
      "spend v s = (True, s') \<Longrightarrow> 0 \<le> bal s \<Longrightarrow> bal s' = bal s - amount v \<and> 0 \<le> bal s'"
    and spend_refused: "spend v s = (False, s') \<Longrightarrow> s' = s \<and> bal s < amount v"
    and earn_adds: "0 \<le> bal s \<Longrightarrow> bal s + amount v < 2 ^ 63 \<Longrightarrow> bal (earn v s) = bal s + amount v"
begin

lemma spend_nonneg: "spend v s = (ok, s') \<Longrightarrow> 0 \<le> bal s \<Longrightarrow> 0 \<le> bal s' \<and> bal s' \<le> bal s"
  by (cases ok) (use spend_granted spend_refused amount_nonneg[of v] in fastforce)+

lemma run_conserves:
  assumes "run_account spend earn ops s = (rs, s')" "0 \<le> bal s" "bal s + earned ops < 2 ^ 63"
  shows "bal s' = bal s + earned ops - spent ops rs \<and> 0 \<le> bal s'"
  using assms
proof (induction ops arbitrary: s rs)
  case (Cons op ops)
  show ?case
  proof (cases op)
    case (DoSpend v)
    obtain ok s1 where sp: "spend v s = (ok, s1)" by (cases "spend v s")
    obtain rs1 where rest: "run_account spend earn ops s1 = (rs1, s')" and rs: "rs = ok # rs1"
      using Cons.prems(1) by (auto simp: DoSpend sp split: prod.splits)
    have b: "bal s1 = bal s - (if ok then amount v else 0)" "0 \<le> bal s1"
      using spend_granted[of v s s1] spend_refused[of v s s1] sp Cons.prems(2) by (cases ok; auto)+
    have "bal s1 \<le> bal s" using b(1) by simp
    then have "bal s1 + earned ops < 2 ^ 63" using Cons.prems(3) by (simp add: DoSpend)
    from Cons.IH[OF rest b(2) this] show ?thesis using b by (simp add: DoSpend rs)
  next
    case (DoEarn v)
    have lt: "bal s + amount v < 2 ^ 63"
      using Cons.prems(3) earned_nonneg[of ops] unfolding DoEarn earned.simps by linarith
    have b: "bal (earn v s) = bal s + amount v" using Cons.prems(2) lt by (rule earn_adds)
    have "run_account spend earn ops (earn v s) = (rs, s')" using Cons.prems(1) by (simp add: DoEarn)
    from Cons.IH[OF this] show ?thesis using b Cons.prems by (simp add: DoEarn)
  qed
qed auto

end

section \<open>The ledger is such an account\<close>

lemma sint_diff_no_overflow:
  fixes a b :: i64
  assumes "0 \<le> sint b" "sint b \<le> sint a" shows "sint (a - b) = sint a - sint b"
  using assms sint_lt[of a] by (simp add: sint_word_diff signed_take_bit_int_eq_self)

lemma sint_add_no_overflow:
  fixes a b :: i64
  assumes "0 \<le> sint a" "0 \<le> sint b" "sint a + sint b < 2 ^ 63"
  shows "sint (a + b) = sint a + sint b"
  using assms by (simp add: sint_word_add signed_take_bit_int_eq_self)

interpretation ledger: credit_account Spend Earn credits
proof
  fix v :: i64 and s s' :: CreditLedger
  show "Spend v s = (True, s') \<Longrightarrow> 0 \<le> credits s \<Longrightarrow>
      credits s' = credits s - amount v \<and> 0 \<le> credits s'"
    by (auto simp: Spend_def credits_def amount_def word_sle_eq word_sless_alt sint_diff_no_overflow
        split: if_splits)
  show "Spend v s = (False, s') \<Longrightarrow> s' = s \<and> credits s < amount v"
    by (auto simp: Spend_def credits_def amount_def word_sless_alt split: if_splits)
  show "0 \<le> credits s \<Longrightarrow> credits s + amount v < 2 ^ 63 \<Longrightarrow> credits (Earn v s) = credits s + amount v"
    by (auto simp: Earn_def credits_def amount_def word_sle_eq sint_add_no_overflow)
qed

text \<open>A spend is granted exactly when the balance covers it (or there is nothing to pay).\<close>

lemma Spend_granted_iff: "fst (Spend v l) \<longleftrightarrow> sint v \<le> 0 \<or> sint v \<le> credits l"
  by (auto simp: Spend_def credits_def word_sle_eq word_sless_alt)

text \<open>Without the bound of the account's law, an earn wraps.\<close>

lemma Earn_wraps: "credits (Earn 1 (NewCreditLedger (2 ^ 63 - 1))) = - (2 ^ 63)"
  by (simp add: Earn_def NewCreditLedger_def credits_def word_sle_eq)

section \<open>The ledger over a whole run\<close>

text \<open>C31: However spends and earnings follow one another, the balance is what it started with plus what
  was earned minus the spends that were granted, and it never goes below zero, as long as the
  total stays in the range of \<open>int64\<close>.\<close>

theorem credits_conserved:
  assumes "run_account Spend Earn ops l = (rs, l')" "0 \<le> credits l" "credits l + earned ops < 2 ^ 63"
  shows "credits l' = credits l + earned ops - spent ops rs \<and> 0 \<le> credits l'"
  by (rule ledger.run_conserves[OF assms])

lemma credits_conserved_witness:
  "credits \<lparr>balance = 0\<rparr> =
     credits \<lparr>balance = 2\<rparr> + earned [DoSpend 2, DoSpend 1, DoEarn 1, DoSpend 1]
       - spent [DoSpend 2, DoSpend 1, DoEarn 1, DoSpend 1] [True, False, True] \<and> 0 \<le> credits \<lparr>balance = 0\<rparr>"
proof (rule credits_conserved)
  show "run_account Spend Earn [DoSpend 2, DoSpend 1, DoEarn 1, DoSpend 1] \<lparr>balance = 2\<rparr> = ([True, False, True], \<lparr>balance = 0\<rparr>)"
    by code_simp
qed (simp_all add: credits_def amount_def)

end
