(* ===== verification/Reputation.thy ===== *)
theory Reputation
  imports GoRt
begin

text \<open>
  The reputation tracker (\<^verbatim>\<open>internal/control/reputation.go\<close>): a score per peer in
  \<open>float64\<close>, 1.0 for a peer never adjusted, clamped to \<open>[floor, ceil]\<close> by every
  adjustment. The locale \<open>score_book\<close> is what the services rely on.
\<close>

section \<open>The tracker\<close>

record ReputationTracker =
  scores :: "(string, f64) gomap"
  floor :: f64
  ceil :: f64

definition NewReputationTracker :: ReputationTracker where
  "NewReputationTracker = \<lparr>scores = [], floor = Fin 0, ceil = Fin 1\<rparr>"

definition Score :: "ReputationTracker \<Rightarrow> string \<Rightarrow> f64" where
  "Score r peerID = (case map_get (scores r) peerID of None \<Rightarrow> Fin 1 | Some s \<Rightarrow> s)"

definition adjust :: "string \<Rightarrow> f64 \<Rightarrow> ReputationTracker \<Rightarrow> ReputationTracker" where
  "adjust peerID delta r =
     (let cur = (case map_get (scores r) peerID of None \<Rightarrow> Fin 1 | Some s \<Rightarrow> s);
          cur = cur + delta;
          cur = (if cur < floor r then floor r else cur);
          cur = (if cur > ceil r then ceil r else cur)
      in r\<lparr>scores := map_put peerID cur (scores r)\<rparr>)"

definition Reward :: "string \<Rightarrow> f64 \<Rightarrow> ReputationTracker \<Rightarrow> ReputationTracker" where
  "Reward peerID delta r = adjust peerID delta r"

definition Penalize :: "string \<Rightarrow> f64 \<Rightarrow> ReputationTracker \<Rightarrow> ReputationTracker" where
  "Penalize peerID delta r = adjust peerID (- delta) r"

section \<open>Invariant\<close>

text \<open>A score is a finite double in the unit interval.\<close>

definition unit_score :: "f64 \<Rightarrow> bool" where
  "unit_score x = (wf64 x \<and> Fin 0 \<le> x \<and> x \<le> Fin 1)"

definition rep_inv :: "ReputationTracker \<Rightarrow> bool" where
  "rep_inv r = (floor r = Fin 0 \<and> ceil r = Fin 1 \<and> map_wf (scores r)
     \<and> (\<forall>(p, s)\<in>set (scores r). unit_score s))"

lemma unit_score_E:
  assumes "unit_score x" obtains v where "x = Fin v" "0 \<le> v" "v \<le> 1" "wf64 (Fin v)"
  using assms by (cases x) (auto simp: unit_score_def less_eq_f64_def)

lemma unit_score_I [intro]: "0 \<le> v \<Longrightarrow> v \<le> 1 \<Longrightarrow> wf64 (Fin v) \<Longrightarrow> unit_score (Fin v)"
  by (simp add: unit_score_def)

lemma unit_score_01 [simp]: "unit_score (Fin 0)" "unit_score (Fin 1)"
  by (auto simp: unit_score_def)

lemma rep_inv_new [simp]: "rep_inv NewReputationTracker"
  by (simp add: rep_inv_def NewReputationTracker_def map_wf_def)

lemma Score_unit: "rep_inv r \<Longrightarrow> unit_score (Score r p)"
  by (auto simp: rep_inv_def Score_def split: option.splits dest!: map_of_SomeD)

text \<open>The new score, as a function of the old: the sum clamped to the unit interval.\<close>

definition clamp01 :: "f64 \<Rightarrow> f64" where
  "clamp01 x = (if x < Fin 0 then Fin 0 else if x > Fin 1 then Fin 1 else x)"

lemma clamp01_unit: "wf64 x \<Longrightarrow> \<not> f64_is_nan x \<Longrightarrow> unit_score (clamp01 x)"
  by (cases x) (auto simp: clamp01_def unit_score_def less_eq_f64_def)

lemma Score_adjust:
  assumes "floor r = Fin 0" "ceil r = Fin 1"
  shows "Score (adjust p d r) q = (if q = p then clamp01 (Score r p + d) else Score r q)"
  using assms by (simp add: adjust_def Score_def gm.get_put Let_def clamp01_def)

lemma adjust_bounds [simp]: "floor (adjust p d r) = floor r" "ceil (adjust p d r) = ceil r"
  by (simp_all add: adjust_def Let_def)

lemma rep_inv_adjust:
  assumes "rep_inv r" "d = Fin x" "wf64 d" shows "rep_inv (adjust p d r)"
proof -
  have b: "floor r = Fin 0" "ceil r = Fin 1" "map_wf (scores r)" using assms(1) by (auto simp: rep_inv_def)
  obtain v where v: "Score r p = Fin v" "wf64 (Fin v)"
    using Score_unit[OF assms(1)] by (rule unit_score_E)
  have new: "unit_score (clamp01 (Score r p + d))"
    using v assms(2,3) by (intro clamp01_unit) auto
  have sc: "scores (adjust p d r) = map_put p (clamp01 (Score r p + d)) (scores r)"
    using b by (simp add: adjust_def Score_def Let_def clamp01_def)
  have wf: "map_wf (scores (adjust p d r))" using b(3) by (simp add: sc gm.wf_put)
  have "unit_score s" if "(q, s) \<in> set (scores (adjust p d r))" for q s
  proof -
    have "map_get (scores (adjust p d r)) q = Some s"
      using that by (simp add: gm.entries_iff [OF wf])
    then have "s = Score (adjust p d r) q" by (simp add: Score_def)
    then show ?thesis
      using b new Score_unit[OF assms(1)] by (simp add: Score_adjust)
  qed
  then show ?thesis using b wf by (auto simp: rep_inv_def)
qed

section \<open>The book of scores\<close>

locale score_book =
  fixes score :: "'s \<Rightarrow> string \<Rightarrow> f64"
    and reward penalize :: "string \<Rightarrow> f64 \<Rightarrow> 's \<Rightarrow> 's"
    and inv :: "'s \<Rightarrow> bool"
  assumes score_unit: "inv s \<Longrightarrow> unit_score (score s p)"
    and inv_reward: "inv s \<Longrightarrow> unit_score d \<Longrightarrow> inv (reward p d s)"
    and inv_penalize: "inv s \<Longrightarrow> unit_score d \<Longrightarrow> inv (penalize p d s)"
    and reward_other: "inv s \<Longrightarrow> q \<noteq> p \<Longrightarrow> score (reward p d s) q = score s q"
    and penalize_other: "inv s \<Longrightarrow> q \<noteq> p \<Longrightarrow> score (penalize p d s) q = score s q"
    and reward_up: "inv s \<Longrightarrow> unit_score d \<Longrightarrow> score s p \<le> score (reward p d s) p"
    and penalize_down: "inv s \<Longrightarrow> unit_score d \<Longrightarrow> score (penalize p d s) p \<le> score s p"
begin

lemma penalize_le: "inv s \<Longrightarrow> unit_score d \<Longrightarrow> score (penalize p d s) q \<le> score s q"
  using penalize_down[of s d p] penalize_other[of s q p d] score_unit[of s q]
  by (cases "q = p") (auto simp: unit_score_def less_eq_f64_def intro: f64_le_refl)

lemma reward_ge: "inv s \<Longrightarrow> unit_score d \<Longrightarrow> score s q \<le> score (reward p d s) q"
  using reward_up[of s d p] reward_other[of s q p d] score_unit[of s q]
  by (cases "q = p") (auto simp: unit_score_def less_eq_f64_def intro: f64_le_refl)

text \<open>A peer below a threshold stays below it through any number of penalties.\<close>

lemma penalties_keep_below:
  "inv s \<Longrightarrow> list_all (\<lambda>(p, d). unit_score d) pds \<Longrightarrow> score s q < m \<Longrightarrow>
   inv (fold (\<lambda>(p, d). penalize p d) pds s) \<and> score (fold (\<lambda>(p, d). penalize p d) pds s) q < m"
proof (induction pds arbitrary: s)
  case (Cons pd pds)
  obtain p d where pd: "pd = (p, d)" by force
  have d: "unit_score d" using Cons.prems(2) by (simp add: pd)
  have "score (penalize p d s) q < m"
    using penalize_le[OF Cons.prems(1) d] Cons.prems(3) by (rule f64_le_less_trans)
  with Cons.IH[of "penalize p d s"] Cons.prems d show ?case
    by (simp add: pd inv_penalize)
qed auto

end

lemma unit_score_uminus: "unit_score d \<Longrightarrow> \<exists>x. - d = Fin x \<and> x \<le> 0 \<and> wf64 (- d)"
  by (erule unit_score_E) auto

lemma adjust_up:
  assumes "rep_inv r" "unit_score d" shows "Score r p \<le> Score (adjust p d r) p"
proof -
  obtain v where v: "Score r p = Fin v" "0 \<le> v" "v \<le> 1" "wf64 (Fin v)"
    using Score_unit[OF assms(1)] by (rule unit_score_E)
  obtain x where x: "d = Fin x" "0 \<le> x" "x \<le> 1" using assms(2) by (rule unit_score_E)
  have "\<not> round64 (v + x) < Fin v" using x v by (intro round64_ge_Fin) auto
  then have "Fin v \<le> clamp01 (round64 (v + x))"
    using v by (cases "round64 (v + x)") (auto simp: clamp01_def less_eq_f64_def)
  moreover have "floor r = Fin 0" "ceil r = Fin 1" using assms(1) by (auto simp: rep_inv_def)
  ultimately show ?thesis using v x by (simp add: Score_adjust)
qed

lemma adjust_down:
  assumes "rep_inv r" "d = Fin x" "x \<le> 0" shows "Score (adjust p d r) p \<le> Score r p"
proof -
  obtain v where v: "Score r p = Fin v" "0 \<le> v" "v \<le> 1" "wf64 (Fin v)"
    using Score_unit[OF assms(1)] by (rule unit_score_E)
  have "\<not> Fin v < round64 (v + x)" using assms(3) v by (intro round64_le_Fin) auto
  then have "clamp01 (round64 (v + x)) \<le> Fin v"
    using v by (cases "round64 (v + x)") (auto simp: clamp01_def less_eq_f64_def)
  moreover have "floor r = Fin 0" "ceil r = Fin 1" using assms(1) by (auto simp: rep_inv_def)
  ultimately show ?thesis using v assms(2) by (simp add: Score_adjust)
qed

interpretation rep: score_book Score Reward Penalize rep_inv
proof
  fix s :: ReputationTracker and p q :: string and d :: f64
  assume inv: "rep_inv s"
  then have b: "floor s = Fin 0" "ceil s = Fin 1" by (auto simp: rep_inv_def)
  show "unit_score (Score s p)" using inv by (rule Score_unit)
  show "q \<noteq> p \<Longrightarrow> Score (Reward p d s) q = Score s q"
    "q \<noteq> p \<Longrightarrow> Score (Penalize p d s) q = Score s q"
    using b by (simp_all add: Reward_def Penalize_def Score_adjust)
  assume d: "unit_score d"
  then show "rep_inv (Reward p d s)"
    unfolding Reward_def using inv by (elim unit_score_E) (auto intro: rep_inv_adjust)
  obtain x where x: "- d = Fin x" "x \<le> 0" "wf64 (- d)" using unit_score_uminus[OF d] by auto
  then show "rep_inv (Penalize p d s)" unfolding Penalize_def using inv by (auto intro: rep_inv_adjust)
  show "Score s p \<le> Score (Reward p d s) p" unfolding Reward_def using inv d by (rule adjust_up)
  show "Score (Penalize p d s) p \<le> Score s p" unfolding Penalize_def using inv x by (auto intro: adjust_down)
qed

text \<open>Rewarding a peer that was never adjusted leaves it at the ceiling.\<close>

lemma reward_unknown: "rep_inv r \<Longrightarrow> map_get (scores r) p = None \<Longrightarrow> unit_score d \<Longrightarrow> Score (Reward p d r) p = Fin 1"
  using rep.reward_up[of r d p] rep.score_unit[OF rep.inv_reward, of r d p p]
  by (intro f64_le_antisym) (auto simp: Score_def[of r] unit_score_def)

section \<open>Scores over a whole run\<close>

text \<open>One adjustment of a sequence: a reward or a penalty of some peer by some amount.\<close>

definition rate_peer :: "bool \<times> string \<times> f64 \<Rightarrow> ReputationTracker \<Rightarrow> ReputationTracker" where
  "rate_peer = (\<lambda>(up, p, d). if up then Reward p d else Penalize p d)"

lemma rate_peer_inv: "rep_inv r \<Longrightarrow> unit_score (snd (snd a)) \<Longrightarrow> rep_inv (rate_peer a r)"
  by (cases a) (auto simp: rate_peer_def rep.inv_reward rep.inv_penalize)

lemma rate_peer_other: "rep_inv r \<Longrightarrow> q \<noteq> fst (snd a) \<Longrightarrow> Score (rate_peer a r) q = Score r q"
  by (cases a) (auto simp: rate_peer_def rep.reward_other rep.penalize_other)

lemma rate_run:
  "rep_inv r \<Longrightarrow> list_all (\<lambda>a. unit_score (snd (snd a))) adj \<Longrightarrow>
   rep_inv (fold rate_peer adj r)
   \<and> (q \<notin> (fst \<circ> snd) ` set adj \<longrightarrow> Score (fold rate_peer adj r) q = Score r q)"
  by (induction adj arbitrary: r) (simp_all add: rate_peer_inv rate_peer_other)

text \<open>C32: After any sequence of rewards and penalties from a new tracker, every score is a finite
  \<open>float64\<close> between 0 and 1, and a peer that was never adjusted still has the score 1.\<close>

theorem reputation_stays_unit:
  assumes "list_all (\<lambda>a. unit_score (snd (snd a))) adj"
  shows "unit_score (Score (fold rate_peer adj NewReputationTracker) q)
    \<and> (q \<notin> (fst \<circ> snd) ` set adj \<longrightarrow> Score (fold rate_peer adj NewReputationTracker) q = Fin 1)"
proof -
  have "Score NewReputationTracker q = Fin 1" by (simp add: NewReputationTracker_def Score_def)
  then show ?thesis using rate_run[OF rep_inv_new assms] Score_unit by simp
qed

lemma reputation_stays_unit_witness:
  "unit_score (Score (fold rate_peer [(False, ''a'', Fin 1), (True, ''a'', Fin (1/2)), (True, ''b'', Fin 1)] NewReputationTracker) ''c'')
   \<and> Score (fold rate_peer [(False, ''a'', Fin 1), (True, ''a'', Fin (1/2)), (True, ''b'', Fin 1)] NewReputationTracker) ''c'' = Fin 1"
proof -
  have "unit_score (Fin (1/2))" using wf64_dyadic[of 1 1] by (intro unit_score_I) simp_all
  then show ?thesis
    using reputation_stays_unit[of "[(False, ''a'', Fin 1), (True, ''a'', Fin (1/2)), (True, ''b'', Fin 1)]" "''c''"] by simp
qed

end
