(* ===== verification/Limiter.thy ===== *)
theory Limiter
  imports GoRt
begin

text \<open>
  The concurrency and rate limiter (\<^verbatim>\<open>internal/control/limiter.go\<close>): a bound on requests in
  flight and a token bucket in \<open>float64\<close>. \<open>Acquire\<close> and \<open>Release\<close> run under the limiter's
  mutex; the context's error and the clock are arguments. The locale \<open>admission\<close> is what the
  provider service relies on, whatever rations the requests.
\<close>

section \<open>The limiter\<close>

record Limiter =
  inFlight :: int
  maxInFlight :: int
  tokens :: f64
  ratePerSecond :: f64
  burst :: f64
  lastRefill :: gtime

definition NewLimiter :: "int \<Rightarrow> f64 \<Rightarrow> int \<Rightarrow> gtime \<Rightarrow> Limiter" where
  "NewLimiter maxInF rate bst now =
     \<lparr>inFlight = 0, maxInFlight = maxInF, tokens = f64_of_int bst, ratePerSecond = rate,
      burst = f64_of_int bst, lastRefill = now\<rparr>"

definition refillLocked :: "gtime \<Rightarrow> Limiter \<Rightarrow> Limiter" where
  "refillLocked now l =
     (let elapsed = dur_seconds (time_sub now (lastRefill l)) in
      if elapsed \<le> Fin 0 then l
      else let t = tokens l + elapsed * ratePerSecond l;
               t = (if t > burst l then burst l else t)
           in l\<lparr>tokens := t, lastRefill := now\<rparr>)"

text \<open>\<open>ctxErr\<close> is the context's error when it is already done.\<close>

definition Acquire :: "go_error option \<Rightarrow> gtime \<Rightarrow> Limiter \<Rightarrow> go_error option \<times> Limiter" where
  "Acquire ctxErr now l =
     (case ctxErr of
        Some e \<Rightarrow> (Some e, l)
      | None \<Rightarrow>
          if inFlight l \<ge> maxInFlight l then (Some ErrTooManyInFlight, l)
          else let l = refillLocked now l in
               if tokens l < Fin 1 then (Some ErrRateLimited, l)
               else (None, l\<lparr>tokens := tokens l - Fin 1, inFlight := inFlight l + 1\<rparr>))"

definition Release :: "Limiter \<Rightarrow> Limiter" where
  "Release l = (if inFlight l > 0 then l\<lparr>inFlight := inFlight l - 1\<rparr> else l)"

section \<open>Invariant\<close>

definition limiter_inv :: "Limiter \<Rightarrow> bool" where
  "limiter_inv l = (0 \<le> inFlight l \<and> inFlight l \<le> max 0 (maxInFlight l)
     \<and> wf64 (tokens l) \<and> Fin 0 \<le> tokens l \<and> tokens l \<le> burst l
     \<and> wf64 (burst l) \<and> burst l < PInf \<and> Fin 0 \<le> ratePerSecond l)"

lemma limiter_inv_E:
  assumes "limiter_inv l"
  obtains t b where "tokens l = Fin t" "burst l = Fin b" "0 \<le> t" "t \<le> b"
    "wf64 (Fin t)" "wf64 (Fin b)" "Fin 0 \<le> ratePerSecond l"
  using assms by (cases "tokens l"; cases "burst l") (auto simp: limiter_inv_def less_eq_f64_def)

lemma limiter_inv_new:
  assumes "0 \<le> b" "b < 2 ^ 53" "Fin 0 \<le> rate" shows "limiter_inv (NewLimiter m rate b now)"
  using assms by (simp add: limiter_inv_def NewLimiter_def f64_of_int_exact wf64_int)

text \<open>Seconds elapsed that pass the guard of the refill are positive and finite.\<close>

lemma elapsed_pos:
  assumes "\<not> dur_seconds (time_sub now prev) \<le> Fin 0"
  obtains v where "dur_seconds (time_sub now prev) = Fin v" "0 < v" "prev < now"
proof (cases "0 < time_sub now prev")
  case True
  then show thesis
    using time_sub_range[of now prev] that time_sub_pos by (metis dur_seconds_pos)
next
  case False
  then show thesis
    using assms dur_seconds_nonpos[of "time_sub now prev"] time_sub_range[of now prev]
    by (simp add: zero_f64_def)
qed

lemma times_nonneg: "0 < v \<Longrightarrow> Fin 0 \<le> r \<Longrightarrow> Fin 0 \<le> Fin v * r"
proof (cases r)
  case (Fin x)
  assume "0 < v" "Fin 0 \<le> r"
  then have "\<not> round64 (v * x) < Fin 0" by (intro round64_ge_Fin) (auto simp: Fin)
  then show ?thesis by (simp add: Fin less_eq_f64_def)
qed (auto simp: less_eq_f64_def)

lemma plus_nonneg_ge: "wf64 (Fin t) \<Longrightarrow> Fin 0 \<le> r \<Longrightarrow> Fin t \<le> Fin t + r"
proof (cases r)
  case (Fin x)
  assume "wf64 (Fin t)" "Fin 0 \<le> r"
  then have "\<not> round64 (t + x) < Fin t" by (intro round64_ge_Fin) (auto simp: Fin)
  then show ?thesis by (simp add: Fin less_eq_f64_def)
qed (auto simp: less_eq_f64_def)

lemma wf64_times: "wf64 (a * b)"
  by (cases a; cases b) auto

lemma refill_frame [keeps]:
  "inFlight (refillLocked now l) = inFlight l" "maxInFlight (refillLocked now l) = maxInFlight l"
  "burst (refillLocked now l) = burst l" "ratePerSecond (refillLocked now l) = ratePerSecond l"
  by (simp_all add: refillLocked_def Let_def)

text \<open>A refill only adds tokens, and never past the burst.\<close>

lemma refill_tokens:
  assumes "limiter_inv l"
  shows "wf64 (tokens (refillLocked now l))" "tokens l \<le> tokens (refillLocked now l)"
    "tokens (refillLocked now l) \<le> burst l"
proof -
  obtain t b where l: "tokens l = Fin t" "burst l = Fin b" "0 \<le> t" "t \<le> b" "wf64 (Fin t)"
    "wf64 (Fin b)" "Fin 0 \<le> ratePerSecond l" using assms by (rule limiter_inv_E)
  have "wf64 (tokens (refillLocked now l)) \<and> tokens l \<le> tokens (refillLocked now l)
      \<and> tokens (refillLocked now l) \<le> burst l"
  proof (cases "dur_seconds (time_sub now (lastRefill l)) \<le> Fin 0")
    case True
    then show ?thesis using l by (simp add: refillLocked_def)
  next
    case False
    then obtain v where v: "dur_seconds (time_sub now (lastRefill l)) = Fin v" "0 < v"
      by (rule elapsed_pos)
    define s where "s = Fin t + Fin v * ratePerSecond l"
    have s: "Fin t \<le> s" "wf64 s"
      unfolding s_def using l v by (auto intro!: plus_nonneg_ge times_nonneg simp: wf64_times)
    have tk: "tokens (refillLocked now l) = (if s > burst l then burst l else s)"
      using False v l by (simp add: refillLocked_def Let_def s_def)
    show ?thesis
      using s l by (cases s) (auto simp: tk less_eq_f64_def)
  qed
  then show "wf64 (tokens (refillLocked now l))" "tokens l \<le> tokens (refillLocked now l)"
    "tokens (refillLocked now l) \<le> burst l" by auto
qed

lemma limiter_inv_refill: "limiter_inv l \<Longrightarrow> limiter_inv (refillLocked now l)"
  using refill_tokens[of l now] f64_le_trans[of "Fin 0" "tokens l"]
  by (simp add: limiter_inv_def keeps)

lemma Acquire_cases:
  assumes "Acquire c now l = (r, l')"
  obtains (done_) e where "c = Some e" "r = Some e" "l' = l"
  | (full) "c = None" "maxInFlight l \<le> inFlight l" "r = Some ErrTooManyInFlight" "l' = l"
  | (limited) "c = None" "inFlight l < maxInFlight l" "tokens (refillLocked now l) < Fin 1"
      "r = Some ErrRateLimited" "l' = refillLocked now l"
  | (granted) "c = None" "inFlight l < maxInFlight l" "\<not> tokens (refillLocked now l) < Fin 1" "r = None"
      "l' = (refillLocked now l)\<lparr>tokens := tokens (refillLocked now l) - Fin 1, inFlight := inFlight l + 1\<rparr>"
  using assms by (auto simp: Acquire_def Let_def keeps split: option.splits if_splits)

lemma limiter_inv_Acquire:
  assumes "limiter_inv l" "Acquire c now l = (r, l')" shows "limiter_inv l'"
  using assms(2)
proof (cases rule: Acquire_cases)
  case limited
  then show ?thesis using assms(1) by (simp add: limiter_inv_refill)
next
  case granted
  have ri: "limiter_inv (refillLocked now l)" using assms(1) by (rule limiter_inv_refill)
  then obtain t b where t: "tokens (refillLocked now l) = Fin t" "burst (refillLocked now l) = Fin b"
    "0 \<le> t" "t \<le> b" "wf64 (Fin t)" "wf64 (Fin b)" by (rule limiter_inv_E)
  have "\<not> t < 1" using granted(3) t(1) by simp
  then obtain u where "round64 (t - 1) = Fin u" "0 \<le> u" "u \<le> t" "wf64 (Fin u)"
    by (rule_tac round64_between[of 0 t "t - 1"]) (use t in auto)
  then show ?thesis
    using ri granted t by (simp add: limiter_inv_def keeps)
qed (use assms(1) in auto)

lemma limiter_inv_Release: "limiter_inv l \<Longrightarrow> limiter_inv (Release l)"
  by (auto simp: limiter_inv_def Release_def)

section \<open>Admission control as an interface\<close>

locale admission =
  fixes acquire :: "go_error option \<Rightarrow> gtime \<Rightarrow> 's \<Rightarrow> go_error option \<times> 's"
    and release :: "'s \<Rightarrow> 's"
    and held :: "'s \<Rightarrow> int"
    and capacity :: "'s \<Rightarrow> int"
    and inv :: "'s \<Rightarrow> bool"
  assumes inv_acquire: "inv s \<Longrightarrow> acquire c t s = (r, s') \<Longrightarrow> inv s'"
    and inv_release: "inv s \<Longrightarrow> inv (release s)"
    and acquire_granted: "inv s \<Longrightarrow> acquire c t s = (None, s') \<Longrightarrow>
       held s < capacity s \<and> held s' = held s + 1 \<and> capacity s' = capacity s"
    and acquire_refused: "inv s \<Longrightarrow> acquire c t s = (Some e, s') \<Longrightarrow>
       held s' = held s \<and> capacity s' = capacity s"
    and release_held: "inv s \<Longrightarrow> 0 < held s \<Longrightarrow> held (release s) = held s - 1 \<and> capacity (release s) = capacity s"
begin

text \<open>Keeping the slots in step with the set of requests that hold one.\<close>

lemma grant_agrees:
  assumes "inv s" "acquire c t s = (None, s')" "finite A" "i \<notin> A" "held s = int (card A)"
  shows "held s' = int (card (insert i A)) \<and> int (card (insert i A)) \<le> capacity s'"
  using acquire_granted[OF assms(1,2)] assms(3-5) by simp

lemma release_agrees:
  assumes "inv s" "finite A" "i \<in> A" "held s = int (card A)"
  shows "held (release s) = int (card (A - {i})) \<and> capacity (release s) = capacity s"
proof -
  have "0 < card A" using assms(2,3) by (auto simp: card_gt_0_iff)
  then show ?thesis
    using release_held[OF assms(1)] assms by (simp add: card_Diff_singleton)
qed

text \<open>A slot taken and given back.\<close>

lemma acquire_release:
  assumes "inv s" "0 \<le> held s" "acquire c t s = (None, s')"
  shows "held (release s') = held s \<and> capacity (release s') = capacity s"
  using acquire_granted[OF assms(1,3)] release_held[OF inv_acquire[OF assms(1,3)]] assms(2) by simp

end

interpretation lim: admission Acquire Release inFlight maxInFlight limiter_inv
proof
  fix s s' :: Limiter and c t r e
  assume inv: "limiter_inv s"
  show "Acquire c t s = (r, s') \<Longrightarrow> limiter_inv s'" using inv by (rule limiter_inv_Acquire)
  show "limiter_inv (Release s)" using inv by (rule limiter_inv_Release)
  show "Acquire c t s = (None, s') \<Longrightarrow>
      inFlight s < maxInFlight s \<and> inFlight s' = inFlight s + 1 \<and> maxInFlight s' = maxInFlight s"
    by (erule Acquire_cases) (auto simp: keeps)
  show "Acquire c t s = (Some e, s') \<Longrightarrow> inFlight s' = inFlight s \<and> maxInFlight s' = maxInFlight s"
    by (erule Acquire_cases) (auto simp: keeps)
  show "0 < inFlight s \<Longrightarrow> inFlight (Release s) = inFlight s - 1 \<and> maxInFlight (Release s) = maxInFlight s"
    by (simp add: Release_def)
qed

section \<open>Runs of the limiter\<close>

datatype slot_op = DoAcquire "go_error option" gtime | DoRelease

fun run_slots :: "slot_op list \<Rightarrow> Limiter \<Rightarrow> go_error option list \<times> Limiter" where
  "run_slots [] l = ([], l)"
| "run_slots (DoAcquire c t # ops) l =
     (let (r, l1) = Acquire c t l; (rs, l2) = run_slots ops l1 in (r # rs, l2))"
| "run_slots (DoRelease # ops) l = run_slots ops (Release l)"

definition grants :: "go_error option list \<Rightarrow> nat" where
  "grants rs = length (filter (\<lambda>r. r = None) rs)"

text \<open>Every clock reading of the run is at or before \<open>t0\<close>.\<close>

fun clock_at_most :: "gtime \<Rightarrow> slot_op \<Rightarrow> bool" where
  "clock_at_most t0 (DoAcquire c t) = (t \<le> t0)"
| "clock_at_most t0 DoRelease = True"

lemma run_slots_inv: "limiter_inv l \<Longrightarrow> limiter_inv (snd (run_slots ops l))"
proof (induction ops arbitrary: l)
  case (Cons op ops)
  show ?case
  proof (cases op)
    case (DoAcquire c t)
    have "limiter_inv (snd (Acquire c t l))"
      by (rule limiter_inv_Acquire [OF Cons.prems surjective_pairing])
    from Cons.IH[OF this] show ?thesis by (simp add: DoAcquire split_beta Let_def)
  next
    case DoRelease
    with Cons limiter_inv_Release show ?thesis by simp
  qed
qed simp

lemma refill_no_time: "now \<le> lastRefill l \<Longrightarrow> refillLocked now l = l"
  using dur_seconds_nonpos[of "time_sub now (lastRefill l)"] time_sub_pos[of now "lastRefill l"]
    time_sub_range[of now "lastRefill l"]
  by (simp add: refillLocked_def zero_f64_def)

text \<open>Without the clock advancing, a bucket of \<open>k\<close> tokens grants at most \<open>k\<close> requests.\<close>

lemma grants_le_tokens:
  assumes "tokens l = Fin (of_nat k)" "k < 2 ^ 53" "list_all (clock_at_most (lastRefill l)) ops"
    "run_slots ops l = (rs, l')"
  shows "grants rs \<le> k"
  using assms
proof (induction ops arbitrary: l k rs)
  case Nil
  then show ?case by (simp add: grants_def)
next
  case (Cons op ops)
  show ?case
  proof (cases op)
    case DoRelease
    have "tokens (Release l) = tokens l" "lastRefill (Release l) = lastRefill l"
      by (simp_all add: Release_def)
    then show ?thesis using Cons.IH[of "Release l" k rs] Cons.prems by (simp add: DoRelease)
  next
    case (DoAcquire c t)
    obtain r l1 where acq: "Acquire c t l = (r, l1)" by force
    obtain rs1 where rest: "run_slots ops l1 = (rs1, l')" and rs: "rs = r # rs1"
      using Cons.prems(4) by (auto simp: DoAcquire acq split: prod.splits)
    have same: "refillLocked t l = l" using Cons.prems(3) by (simp add: DoAcquire refill_no_time)
    from acq show ?thesis
    proof (cases rule: Acquire_cases)
      case granted
      then have k0: "0 < k" using Cons.prems(1) by (cases k) (auto simp: same)
      have "tokens l1 = round64 (of_int (int k - 1))"
        using granted Cons.prems(1) by (simp add: same)
      also have "\<dots> = Fin (of_nat (k - 1))"
        using round64_int[of "int k - 1"] Cons.prems(2) k0 by (simp add: of_nat_diff)
      finally have "grants rs1 \<le> k - 1"
        using Cons.IH[of l1 "k - 1" rs1] Cons.prems granted rest by (simp add: same DoAcquire)
      then show ?thesis using k0 granted by (simp add: rs grants_def)
    qed (use Cons.IH[of l k rs1] Cons.prems rest rs same in \<open>auto simp: grants_def DoAcquire\<close>)
  qed
qed

section \<open>Runs from a new limiter\<close>

text \<open>C12: A limiter made with a burst of \<open>b\<close> tokens, whatever acquires and releases follow, never has
  more in flight than its maximum, a token count outside 0 and \<open>b\<close>, or a value that is not a
  number; and while the clock does not advance it grants at most \<open>b\<close> requests.\<close>

theorem limiter_run_bounds:
  assumes b: "b < 2 ^ 53" and rate: "Fin 0 \<le> rate"
    and run: "run_slots ops (NewLimiter m rate (int b) now) = (rs, l)"
  shows "limiter_inv l \<and> (list_all (clock_at_most now) ops \<longrightarrow> grants rs \<le> b)"
proof -
  define l0 where "l0 = NewLimiter m rate (int b) now"
  have "(int b) < 2 ^ 53" using b by (metis of_nat_less_iff of_nat_numeral of_nat_power)
  then have "limiter_inv l0" unfolding l0_def using rate by (intro limiter_inv_new) auto
  then have inv: "limiter_inv l" using run_slots_inv[of l0 ops] run by (simp add: l0_def)
  have "tokens l0 = Fin (of_nat b)" "lastRefill l0 = now"
    using \<open>int b < 2 ^ 53\<close> by (simp_all add: l0_def NewLimiter_def f64_of_int_exact)
  then show ?thesis using inv grants_le_tokens[of l0 b ops rs l] b run by (auto simp: l0_def)
qed

lemma limiter_run_bounds_witness:
  "\<exists>rs l. run_slots [DoAcquire None 5, DoAcquire None 5, DoRelease, DoAcquire None 5] (NewLimiter 4 (Fin 20) (int 2) 5) = (rs, l)
     \<and> limiter_inv l \<and> grants rs \<le> 2"
proof -
  obtain rs l where run: "run_slots [DoAcquire None 5, DoAcquire None 5, DoRelease, DoAcquire None 5] (NewLimiter 4 (Fin 20) (int 2) 5) = (rs, l)"
    by force
  then show ?thesis using limiter_run_bounds[OF _ _ run] by auto
qed

text \<open>A request that finds a free slot, on a clock that has moved on far enough for the rate to
  yield a token, is admitted: the limiter does not starve its callers.\<close>

theorem refill_admits:
  assumes inv: "limiter_inv l" and free: "inFlight l < maxInFlight l" and b: "Fin 1 \<le> burst l"
    and v: "dur_seconds (time_sub now (lastRefill l)) = Fin v" and r: "ratePerSecond l = Fin r"
    and v0: "0 < v" and vr: "1 \<le> v * r"
  shows "fst (Acquire None now l) = None"
proof -
  obtain t where t: "tokens l = Fin t" "0 \<le> t" using inv by (rule limiter_inv_E)
  have "\<not> round64 (v * r) < Fin 1" using vr by (intro round64_ge_Fin) auto
  then have w: "Fin 1 \<le> round64 (v * r)" by (simp add: less_eq_f64_def)
  have "Fin 1 \<le> Fin t + round64 (v * r)"
  proof (cases "round64 (v * r)")
    case (Fin x)
    then have "\<not> round64 (t + x) < Fin 1" using w t by (intro round64_ge_Fin) auto
    then show ?thesis by (simp add: Fin less_eq_f64_def)
  qed (use w in \<open>auto simp: less_eq_f64_def\<close>)
  then have "\<not> tokens (refillLocked now l) < Fin 1"
    using v v0 r t b by (auto simp: refillLocked_def Let_def f64_le_not_less)
  then show ?thesis using free by (simp add: Acquire_def Let_def keeps)
qed

lemma refill_admits_witness:
  "fst (Acquire None 1000000000 \<lparr>inFlight = 0, maxInFlight = 4, tokens = Fin 0, ratePerSecond = Fin 20, burst = Fin 20, lastRefill = 0\<rparr>) = None"
proof (rule refill_admits[where v = 1 and r = 20])
  show "limiter_inv \<lparr>inFlight = 0, maxInFlight = 4, tokens = Fin 0, ratePerSecond = Fin 20, burst = Fin 20, lastRefill = 0\<rparr>"
    using wf64_int[of 20] wf64_int[of 0] by (simp add: limiter_inv_def)
  show "dur_seconds (time_sub 1000000000 (lastRefill \<lparr>inFlight = 0, maxInFlight = 4, tokens = Fin 0, ratePerSecond = Fin 20, burst = Fin 20, lastRefill = 0\<rparr>)) = Fin 1"
    by (simp add: time_sub_def dur_seconds_def sat64_def second_def go_quot_def go_rem_def f64_of_int_exact)
qed simp_all

end
