(* ===== verification/Pow.thy ===== *)
theory Pow
  imports Sha256
begin

text \<open>
  Proof of work (\<^verbatim>\<open>internal/control/pow.go\<close>): a nonce is valid when the SHA-256 digest of
  \<open>client:nonce:model\<close> starts with \<open>difficulty\<close> zero hex digits; the solver tries nonces
  from 0. Nonces are \<open>uint64\<close>.
\<close>

section \<open>Validation and search\<close>

definition pow_input :: "string \<Rightarrow> 64 word \<Rightarrow> string \<Rightarrow> string" where
  "pow_input clientID nonce model = clientID @ '':'' @ nat_dec (unat nonce) @ '':'' @ model"

fun zeros_upto :: "nat \<Rightarrow> string \<Rightarrow> bool" where
  "zeros_upto 0 s = True"
| "zeros_upto (Suc n) [] = False"
| "zeros_upto (Suc n) (c # s) = (if c \<noteq> CHR ''0'' then False else zeros_upto n s)"

definition ValidatePoW :: "string \<Rightarrow> 64 word \<Rightarrow> string \<Rightarrow> int \<Rightarrow> bool" where
  "ValidatePoW clientID nonce model difficulty =
     (if difficulty \<le> 0 then True
      else let hexHash = EncodeToString (Sum256 (pow_input clientID nonce model)) in
           if difficulty > int (length hexHash) then False
           else zeros_upto (nat difficulty) hexHash)"

lemma word_succ_closer:
  fixes i m :: "64 word" assumes "i < m" shows "unat (m - (i + 1)) < unat (m - i)"
  using assms by unat_arith

function solve_from :: "string \<Rightarrow> string \<Rightarrow> int \<Rightarrow> 64 word \<Rightarrow> 64 word \<Rightarrow> 64 word \<times> bool" where
  "solve_from clientID model difficulty maxIterations i =
     (if i < maxIterations then
        if ValidatePoW clientID i model difficulty then (i, True)
        else solve_from clientID model difficulty maxIterations (i + 1)
      else (0, False))"
  by pat_completeness auto
termination
  by (relation "measure (\<lambda>(c, m, d, n, i). unat (n - i))") (auto intro: word_succ_closer)

declare solve_from.simps [simp del]

definition SolvePoW :: "string \<Rightarrow> string \<Rightarrow> int \<Rightarrow> 64 word \<Rightarrow> 64 word \<times> bool" where
  "SolvePoW clientID model difficulty maxIterations =
     (if difficulty \<le> 0 then (0, True) else solve_from clientID model difficulty maxIterations 0)"

section \<open>The solver finds the least valid nonce in range\<close>

lemma word_le_cases: fixes i j :: "64 word" shows "i \<le> j \<Longrightarrow> i = j \<or> i + 1 \<le> j"
  by unat_arith

lemma solve_from_spec:
  "case solve_from c m d n i of
     (j, True) \<Rightarrow> i \<le> j \<and> j < n \<and> ValidatePoW c j m d \<and> (\<forall>k. i \<le> k \<and> k < j \<longrightarrow> \<not> ValidatePoW c k m d)
   | (j, False) \<Rightarrow> j = 0 \<and> (\<forall>k. i \<le> k \<and> k < n \<longrightarrow> \<not> ValidatePoW c k m d)"
proof (induction c m d n i rule: solve_from.induct)
  case (1 c m d n i)
  show ?case
  proof (cases "i < n \<and> \<not> ValidatePoW c i m d")
    case True
    have up: "i \<le> k" if "i + 1 \<le> k" for k using that True by unat_arith
    have eq: "solve_from c m d n i = solve_from c m d n (i + 1)"
      using True by (subst solve_from.simps) simp
    have IH: "case solve_from c m d n (i + 1) of
        (j, True) \<Rightarrow> i + 1 \<le> j \<and> j < n \<and> ValidatePoW c j m d \<and> (\<forall>k. i + 1 \<le> k \<and> k < j \<longrightarrow> \<not> ValidatePoW c k m d)
      | (j, False) \<Rightarrow> j = 0 \<and> (\<forall>k. i + 1 \<le> k \<and> k < n \<longrightarrow> \<not> ValidatePoW c k m d)"
      using 1 True by simp
    show ?thesis
      unfolding eq using IH True up word_le_cases[of i]
      by (auto split: prod.splits bool.splits)
  next
    case False
    then show ?thesis by (subst solve_from.simps) auto
  qed
qed

text \<open>Any nonce is valid when nothing is asked.\<close>

lemma ValidatePoW_trivial [simp]: "d \<le> 0 \<Longrightarrow> ValidatePoW c n m d"
  by (simp add: ValidatePoW_def)

lemma SolvePoW_found:
  assumes "SolvePoW c m d n = (j, True)"
  shows "ValidatePoW c j m d \<and> (\<forall>k < j. \<not> ValidatePoW c k m d)"
  using assms solve_from_spec[where c = c and m = m and d = d and n = n and i = 0] by (auto simp: SolvePoW_def split: if_splits)

lemma SolvePoW_exhausted:
  assumes "SolvePoW c m d n = (j, False)"
  shows "j = 0 \<and> (\<forall>k < n. \<not> ValidatePoW c k m d)"
  using assms solve_from_spec[where c = c and m = m and d = d and n = n and i = 0] by (auto simp: SolvePoW_def split: if_splits)

section \<open>What a valid nonce means: a bound on the digest as a number\<close>

text \<open>The digest read as a big-endian number.\<close>

fun digest_value :: "byte list \<Rightarrow> nat" where
  "digest_value [] = 0"
| "digest_value (b # bs) = unat b * 256 ^ length bs + digest_value bs"

lemma byte_lt: "unat (b :: byte) < 256"
proof -
  have "unat b < 2 ^ LENGTH(8)" by (rule unsigned_less)
  then show ?thesis by simp
qed

lemma digest_value_lt: "digest_value bs < 256 ^ length bs"
proof (induction bs)
  case (Cons b bs)
  have "unat b * 256 ^ length bs + digest_value bs < (unat b + 1) * 256 ^ length bs"
    using Cons by simp
  also have "\<dots> \<le> 256 * 256 ^ length bs" using byte_lt[of b] by (intro mult_right_mono) auto
  finally show ?case by simp
qed simp

declare digest_value.simps(2) [simp del]

lemma hex_digit_zero: "d < 16 \<Longrightarrow> hex_digit d = CHR ''0'' \<longleftrightarrow> d = 0"
proof -
  assume "d < 16"
  then have "d \<in> set [0..<16]" by simp
  then show ?thesis by (auto simp: hex_digit_def upt_rec char_of_eq_iff)
qed

lemma hex_byte_split:
  "hex_byte b = [hex_digit (unat b div 16), hex_digit (unat b mod 16)]"
  "unat b div 16 < 16" "unat b mod 16 < 16"
  using byte_lt[of b] by (auto simp: hex_byte_def)

lemma length_EncodeToString [simp]: "length (EncodeToString bs) = 2 * length bs"
  by (induction bs) (auto simp: EncodeToString_def hex_byte_def)

lemma EncodeToString_Cons:
  "EncodeToString (b # bs) = hex_digit (unat b div 16) # hex_digit (unat b mod 16) # EncodeToString bs"
  by (simp add: EncodeToString_def hex_byte_def)

text \<open>Leading zero hex digits bound the number: induction two digits at a time.\<close>

text \<open>A number written with a leading part \<open>b\<close> before \<open>k\<close> digits, against a power of the base.\<close>

lemma first_digit_zero:
  fixes b v :: nat assumes "v < 16 ^ k" shows "b * 16 ^ k + v < 16 ^ (k + 1) \<longleftrightarrow> b div 16 = 0"
proof
  assume "b * 16 ^ k + v < 16 ^ (k + 1)"
  then have "b * 16 ^ k < 16 * 16 ^ k" unfolding power_add power_one_right by linarith
  then show "b div 16 = 0" by simp
next
  assume "b div 16 = 0"
  then have "b * 16 ^ k \<le> 15 * 16 ^ k" by (intro mult_right_mono) auto
  then show "b * 16 ^ k + v < 16 ^ (k + 1)" using assms unfolding power_add power_one_right by linarith
qed

lemma leading_part_zero:
  fixes b v :: nat assumes "j \<le> k" shows "b * 16 ^ k + v < 16 ^ j \<longleftrightarrow> b = 0 \<and> v < 16 ^ j"
proof
  assume l: "b * 16 ^ k + v < 16 ^ j"
  have "(16::nat) ^ j \<le> 16 ^ k" using assms by (intro power_increasing) auto
  with l have "b * 16 ^ k < 1 * 16 ^ k" by linarith
  then have "b = 0" by simp
  with l show "b = 0 \<and> v < 16 ^ j" by simp
qed simp

lemma zeros_iff_value:
  "d \<le> 2 * length bs \<Longrightarrow> zeros_upto d (EncodeToString bs) \<longleftrightarrow> digest_value bs < 16 ^ (2 * length bs - d)"
proof (induction bs arbitrary: d)
  case Nil
  then show ?case by simp
next
  case (Cons b bs)
  define n where "n = length bs"
  have p: "(256::nat) ^ n = 16 ^ (2 * n)" by (simp add: power_mult)
  have lo: "digest_value bs < 16 ^ (2 * n)" using digest_value_lt[of bs] by (simp only: n_def [symmetric] p)
  have val: "digest_value (b # bs) = unat b * 16 ^ (2 * n) + digest_value bs"
    by (simp only: digest_value.simps n_def [symmetric] p)
  consider "d = 0" | "d = 1" | d2 where "d = Suc (Suc d2)" by (metis One_nat_def not0_implies_Suc)
  then show ?case
  proof cases
    case 1
    then show ?thesis using digest_value_lt[of "b # bs"] by (simp add: power_mult)
  next
    case 2
    then show ?thesis using first_digit_zero[OF lo, of "unat b"]
      by (simp add: val EncodeToString_Cons hex_digit_zero hex_byte_split n_def)
  next
    case (3 d2)
    have d2: "d2 \<le> 2 * n" using Cons.prems by (simp add: 3 n_def)
    have nib: "unat b = 0 \<longleftrightarrow> unat b div 16 = 0 \<and> unat b mod 16 = 0" by auto
    have "zeros_upto d (EncodeToString (b # bs)) \<longleftrightarrow> unat b = 0 \<and> zeros_upto d2 (EncodeToString bs)"
      unfolding 3 EncodeToString_Cons nib
      by (simp only: zeros_upto.simps hex_digit_zero [OF hex_byte_split(2)] hex_digit_zero [OF hex_byte_split(3)]) simp
    also have "\<dots> \<longleftrightarrow> unat b = 0 \<and> digest_value bs < 16 ^ (2 * n - d2)" using Cons.IH[of d2] d2 by (simp only: n_def)
    also have "\<dots> \<longleftrightarrow> digest_value (b # bs) < 16 ^ (2 * n - d2)" unfolding val by (rule leading_part_zero[symmetric]) simp
    also have "2 * n - d2 = 2 * length (b # bs) - d" using d2 by (simp add: 3 n_def)
    finally show ?thesis .
  qed
qed

text \<open>C29: A proof of work is accepted if and only if the digest, read as a 256-bit number, is below
  \<open>16 ^ (64 - difficulty)\<close>; difficulty zero or less accepts any nonce and a difficulty above 64
  none.\<close>

theorem ValidatePoW_below_target:
  "ValidatePoW c n m d \<longleftrightarrow>
     d \<le> 0 \<or> d \<le> 64 \<and> digest_value (Sum256 (pow_input c n m)) < 2 ^ (4 * (64 - nat d))"
proof -
  have "(2::nat) ^ (4 * k) = 16 ^ k" for k by (simp add: power_mult)
  then show ?thesis
    using zeros_iff_value[of "nat d" "Sum256 (pow_input c n m)"]
    by (auto simp: ValidatePoW_def Let_def nat_le_iff)
qed

end
