(* ===== verification/PowVector.thy ===== *)
theory PowVector
  imports Pow
begin

text \<open>
  One digest evaluated by the kernel, \<open>SHA-256("t:0:m")\<close>, in four steps (the padded block,
  its message schedule, the two halves of the compression): the concrete input on which
  the proof-of-work theorems are exercised.
\<close>

lemma vec_words:
  "be_words (sha_pad (map of_char ''t:0:m'')) =
     [0x743a303a, 0x6d800000, 0x0, 0x0, 0x0, 0x0, 0x0, 0x0,
      0x0, 0x0, 0x0, 0x0, 0x0, 0x0, 0x0, 0x28]"
  by code_simp

lemma vec_schedule:
  "rev (sha_schedule 48 (rev
     [0x743a303a, 0x6d800000, 0x0, 0x0, 0x0, 0x0, 0x0, 0x0,
      0x0, 0x0, 0x0, 0x0, 0x0, 0x0, 0x0, 0x28])) =
     [0x743a303a, 0x6d800000, 0x0, 0x0, 0x0, 0x0, 0x0, 0x0,
      0x0, 0x0, 0x0, 0x0, 0x0, 0x0, 0x0, 0x28,
      0x81a54b9a, 0x6d910000, 0xc9e79b4, 0xa01b5f3a, 0xf3efa042, 0xc45202d9, 0x2415dc8a, 0xc2ac19bd,
      0xc36e53ff, 0x9c786bb9, 0x83cc2188, 0x2c7c83eb, 0x5927a570, 0xf599c91b, 0x38b68820, 0x18d379c1,
      0xa107a6, 0xbd23ae17, 0x92d0db03, 0xfb3fe3b, 0x8c030dab, 0xe5c9aef6, 0x89ecb93c, 0x18fee39c,
      0xc6874bb9, 0xe6213415, 0xd3483c69, 0x77fc06dc, 0xb39d4dff, 0xe89e7e90, 0xc07dc4a9, 0xddf7f710,
      0x150fe0d1, 0xb988519a, 0x9faca994, 0x6c143ac9, 0xd14fe335, 0x86cf7e53, 0xf975d94d, 0x38845b0f,
      0x51cdd997, 0xf38c1b14, 0x4ef10e04, 0x928b6e85, 0x84a4a83f, 0xf77064af, 0x81fc6215, 0xc785508e]"
  by code_simp

lemma vec_rounds_1:
  "fold sha_round (zip (take 32 sha_K)
     [0x743a303a, 0x6d800000, 0x0, 0x0, 0x0, 0x0, 0x0, 0x0,
      0x0, 0x0, 0x0, 0x0, 0x0, 0x0, 0x0, 0x28,
      0x81a54b9a, 0x6d910000, 0xc9e79b4, 0xa01b5f3a, 0xf3efa042, 0xc45202d9, 0x2415dc8a, 0xc2ac19bd,
      0xc36e53ff, 0x9c786bb9, 0x83cc2188, 0x2c7c83eb, 0x5927a570, 0xf599c91b, 0x38b68820, 0x18d379c1]) sha_H0 =
     (0xb507de96, 0xf0f65319, 0xdda3ac51, 0x7f2e210a, 0xa7fe3c85, 0xac9c25a4, 0xdc551b47, 0xacd6ebc3)"
  by code_simp

lemma vec_rounds_2:
  "fold sha_round (zip (drop 32 sha_K)
     [0xa107a6, 0xbd23ae17, 0x92d0db03, 0xfb3fe3b, 0x8c030dab, 0xe5c9aef6, 0x89ecb93c, 0x18fee39c,
      0xc6874bb9, 0xe6213415, 0xd3483c69, 0x77fc06dc, 0xb39d4dff, 0xe89e7e90, 0xc07dc4a9, 0xddf7f710,
      0x150fe0d1, 0xb988519a, 0x9faca994, 0x6c143ac9, 0xd14fe335, 0x86cf7e53, 0xf975d94d, 0x38845b0f,
      0x51cdd997, 0xf38c1b14, 0x4ef10e04, 0x928b6e85, 0x84a4a83f, 0xf77064af, 0x81fc6215, 0xc785508e])
     (0xb507de96, 0xf0f65319, 0xdda3ac51, 0x7f2e210a, 0xa7fe3c85, 0xac9c25a4, 0xdc551b47, 0xacd6ebc3) =
     (0x9f5d6814, 0xb9dedc20, 0xafe62750, 0x250017d5, 0x543d7b29, 0x8841b5a3, 0xa1f707be, 0x95897ddd)"
  by code_simp

lemma fold_zip_split:
  "length ys = length xs \<Longrightarrow>
   fold f (zip xs ys) s = fold f (zip (drop n xs) (drop n ys)) (fold f (zip (take n xs) (take n ys)) s)"
  by (metis append_take_drop_id fold_append comp_apply take_zip drop_zip)

lemma vec_halves:
  "take 32 [0x743a303a, 0x6d800000, 0x0, 0x0, 0x0, 0x0, 0x0, 0x0,
      0x0, 0x0, 0x0, 0x0, 0x0, 0x0, 0x0, 0x28,
      0x81a54b9a, 0x6d910000, 0xc9e79b4, 0xa01b5f3a, 0xf3efa042, 0xc45202d9, 0x2415dc8a, 0xc2ac19bd,
      0xc36e53ff, 0x9c786bb9, 0x83cc2188, 0x2c7c83eb, 0x5927a570, 0xf599c91b, 0x38b68820, 0x18d379c1,
      0xa107a6, 0xbd23ae17, 0x92d0db03, 0xfb3fe3b, 0x8c030dab, 0xe5c9aef6, 0x89ecb93c, 0x18fee39c,
      0xc6874bb9, 0xe6213415, 0xd3483c69, 0x77fc06dc, 0xb39d4dff, 0xe89e7e90, 0xc07dc4a9, 0xddf7f710,
      0x150fe0d1, 0xb988519a, 0x9faca994, 0x6c143ac9, 0xd14fe335, 0x86cf7e53, 0xf975d94d, 0x38845b0f,
      0x51cdd997, 0xf38c1b14, 0x4ef10e04, 0x928b6e85, 0x84a4a83f, 0xf77064af, 0x81fc6215, 0xc785508e] =
     [0x743a303a, 0x6d800000, 0x0, 0x0, 0x0, 0x0, 0x0, 0x0,
      0x0, 0x0, 0x0, 0x0, 0x0, 0x0, 0x0, 0x28,
      0x81a54b9a, 0x6d910000, 0xc9e79b4, 0xa01b5f3a, 0xf3efa042, 0xc45202d9, 0x2415dc8a, 0xc2ac19bd,
      0xc36e53ff, 0x9c786bb9, 0x83cc2188, 0x2c7c83eb, 0x5927a570, 0xf599c91b, 0x38b68820, 0x18d379c1]"
  "drop 32 [0x743a303a, 0x6d800000, 0x0, 0x0, 0x0, 0x0, 0x0, 0x0,
      0x0, 0x0, 0x0, 0x0, 0x0, 0x0, 0x0, 0x28,
      0x81a54b9a, 0x6d910000, 0xc9e79b4, 0xa01b5f3a, 0xf3efa042, 0xc45202d9, 0x2415dc8a, 0xc2ac19bd,
      0xc36e53ff, 0x9c786bb9, 0x83cc2188, 0x2c7c83eb, 0x5927a570, 0xf599c91b, 0x38b68820, 0x18d379c1,
      0xa107a6, 0xbd23ae17, 0x92d0db03, 0xfb3fe3b, 0x8c030dab, 0xe5c9aef6, 0x89ecb93c, 0x18fee39c,
      0xc6874bb9, 0xe6213415, 0xd3483c69, 0x77fc06dc, 0xb39d4dff, 0xe89e7e90, 0xc07dc4a9, 0xddf7f710,
      0x150fe0d1, 0xb988519a, 0x9faca994, 0x6c143ac9, 0xd14fe335, 0x86cf7e53, 0xf975d94d, 0x38845b0f,
      0x51cdd997, 0xf38c1b14, 0x4ef10e04, 0x928b6e85, 0x84a4a83f, 0xf77064af, 0x81fc6215, 0xc785508e] =
     [0xa107a6, 0xbd23ae17, 0x92d0db03, 0xfb3fe3b, 0x8c030dab, 0xe5c9aef6, 0x89ecb93c, 0x18fee39c,
      0xc6874bb9, 0xe6213415, 0xd3483c69, 0x77fc06dc, 0xb39d4dff, 0xe89e7e90, 0xc07dc4a9, 0xddf7f710,
      0x150fe0d1, 0xb988519a, 0x9faca994, 0x6c143ac9, 0xd14fe335, 0x86cf7e53, 0xf975d94d, 0x38845b0f,
      0x51cdd997, 0xf38c1b14, 0x4ef10e04, 0x928b6e85, 0x84a4a83f, 0xf77064af, 0x81fc6215, 0xc785508e]"
  by simp_all

lemma vec_block:
  "sha_block
     [0x743a303a, 0x6d800000, 0x0, 0x0, 0x0, 0x0, 0x0, 0x0,
      0x0, 0x0, 0x0, 0x0, 0x0, 0x0, 0x0, 0x28] sha_H0 =
     (0x9674e7b, 0x75468aa5, 0xec551ac2, 0xca500d0f, 0xa54bcda8, 0x23471e2f, 0xc17ae169, 0xf16a4af6)"
proof -
  have "fold sha_round (zip sha_K (rev (sha_schedule 48 (rev
     [0x743a303a, 0x6d800000, 0x0, 0x0, 0x0, 0x0, 0x0, 0x0,
      0x0, 0x0, 0x0, 0x0, 0x0, 0x0, 0x0, 0x28])))) sha_H0 =
     (0x9f5d6814, 0xb9dedc20, 0xafe62750, 0x250017d5, 0x543d7b29, 0x8841b5a3, 0xa1f707be, 0x95897ddd)"
    unfolding vec_schedule
    by (subst fold_zip_split [where n = 32], simp add: sha_K_def)
      (simp only: vec_halves vec_rounds_1 vec_rounds_2)
  then show ?thesis by (simp add: sha_block_def sha_H0_def)
qed

lemma digest_t0m:
  "EncodeToString (Sum256 (pow_input ''t'' 0 ''m'')) =
     ''09674e7b75468aa5ec551ac2ca500d0fa54bcda823471e2fc17ae169f16a4af6''"
proof -
  have inp: "pow_input ''t'' 0 ''m'' = ''t:0:m''" by code_simp
  have "sha_blocks (be_words (sha_pad (map of_char ''t:0:m''))) sha_H0 =
     (0x9674e7b, 0x75468aa5, 0xec551ac2, 0xca500d0f, 0xa54bcda8, 0x23471e2f, 0xc17ae169, 0xf16a4af6)"
    unfolding vec_words by (subst sha_blocks.simps) (simp add: vec_block sha_blocks.simps)
  moreover have "EncodeToString (state_bytes
     (0x9674e7b, 0x75468aa5, 0xec551ac2, 0xca500d0f, 0xa54bcda8, 0x23471e2f, 0xc17ae169, 0xf16a4af6)) =
     ''09674e7b75468aa5ec551ac2ca500d0fa54bcda823471e2fc17ae169f16a4af6''" by code_simp
  ultimately show ?thesis unfolding inp Sum256_def sha256_bytes_def by (simp only:)
qed

section \<open>The solver\<close>

lemma ValidatePoW_t0m: "ValidatePoW ''t'' 0 ''m'' 1"
  by (simp add: ValidatePoW_def digest_t0m)

lemma SolvePoW_t0m: "0 < n \<Longrightarrow> SolvePoW ''t'' ''m'' 1 n = (0, True)"
  using ValidatePoW_t0m by (subst SolvePoW_def, subst solve_from.simps) simp

text \<open>C28: The search for a nonce always ends; when it reports success the nonce passes the check and
  no smaller one does, and when it reports failure it returns 0 and no nonce below the bound
  passes.\<close>

theorem SolvePoW_least:
  "case SolvePoW c m d n of
     (j, True) \<Rightarrow> ValidatePoW c j m d \<and> (\<forall>k < j. \<not> ValidatePoW c k m d)
   | (j, False) \<Rightarrow> j = 0 \<and> (\<forall>k < n. \<not> ValidatePoW c k m d)"
  using SolvePoW_found SolvePoW_exhausted by (auto split: prod.split bool.split)

lemma SolvePoW_least_witness: "ValidatePoW ''t'' 0 ''m'' 1 \<and> SolvePoW ''t'' ''m'' 1 5 = (0, True)"
  using SolvePoW_least[of "''t''" "''m''" 1 5] by (simp add: SolvePoW_t0m)

end
