(* ===== verification/Policy.thy ===== *)
theory Policy
  imports Types
begin

text \<open>
  What a provider asks of a request before it does any work (\<^verbatim>\<open>internal/control/policy.go\<close>):
  a token limit, a serving window in hours of the day, and an idle host. The load probe is
  an interface value: \<open>None\<close> for nil, otherwise the result of \<open>Load1m\<close>. The hour of the
  local clock is an argument.
\<close>

record ProviderPolicy =
  MaxTokensPerRequest :: int
  NightOnly :: bool
  NightStartHour :: int
  NightEndHour :: int
  IdleOnly :: bool
  MaxLoad1m :: f64
  PoWDifficulty :: int
  MinPeerReputation :: f64

text \<open>The probe of \<open>/proc/loadavg\<close>: the file's content (or the error of opening it) and
  \<open>strconv.ParseFloat\<close> are arguments.\<close>

definition Load1m :: "bool \<Rightarrow> go_error + string \<Rightarrow> (string \<Rightarrow> go_error + f64) \<Rightarrow> go_error + f64" where
  "Load1m on_linux loadavg parse_float =
     (if \<not> on_linux then Inr (Fin 0)
      else case loadavg of
          Inl e \<Rightarrow> Inl e
        | Inr content \<Rightarrow>
            (case scan_lines content of
               [] \<Rightarrow> Inl (ErrText ''empty /proc/loadavg'')
             | line # _ \<Rightarrow>
                 (case str_fields line of
                    [] \<Rightarrow> Inl (ErrText ''invalid /proc/loadavg'')
                  | part # _ \<Rightarrow>
                      (case parse_float part of
                         Inl e \<Rightarrow> Inl (ErrWrap ''parse loadavg: '' e)
                       | Inr v \<Rightarrow> Inr v))))"

definition withinWindow :: "int \<Rightarrow> int \<Rightarrow> int \<Rightarrow> bool" where
  "withinWindow hour start stop =
     (if start = stop then True
      else if start < stop then hour \<ge> start \<and> hour < stop
      else hour \<ge> start \<or> hour < stop)"

definition Validate ::
  "ProviderPolicy \<Rightarrow> ChatCompletionRequest \<Rightarrow> int \<Rightarrow> (go_error + f64) option \<Rightarrow> go_error option" where
  "Validate p req hour probe =
     (if MaxTokensPerRequest p > 0 \<and> req_MaxTokens req > MaxTokensPerRequest p then Some ErrTokensExceeded
      else if NightOnly p \<and> \<not> withinWindow hour (NightStartHour p) (NightEndHour p)
        then Some ErrOutsideServingWindow
      else case (if IdleOnly p \<and> MaxLoad1m p > Fin 0 then probe else None) of
          Some (Inr load) \<Rightarrow> if load > MaxLoad1m p then Some ErrHostBusy else None
        | _ \<Rightarrow> None)"

section \<open>The serving window on the clock face\<close>

text \<open>Walking the clock forward from \<open>start\<close>, the hour comes before the end.\<close>

definition clock_window :: "int \<Rightarrow> int \<Rightarrow> int \<Rightarrow> bool" where
  "clock_window hour start stop =
     (start = stop \<or> (hour - start) mod 24 < (stop - start) mod 24)"

lemma mod24_cases:
  fixes a b :: int assumes "0 \<le> a" "a < 24" "0 \<le> b" "b < 24"
  shows "(a - b) mod 24 = (if b \<le> a then a - b else a - b + 24)"
proof (cases "b \<le> a")
  case True
  then show ?thesis using assms by (simp add: mod_pos_pos_trivial)
next
  case False
  have "(a - b) mod 24 = (a - b + 24) mod 24" by simp
  also have "\<dots> = a - b + 24" using False assms by (intro mod_pos_pos_trivial) auto
  finally show ?thesis using False by simp
qed

section \<open>Outcomes\<close>

text \<open>The three requirements, and the outcome as the first that fails.\<close>

definition tokens_ok :: "ProviderPolicy \<Rightarrow> ChatCompletionRequest \<Rightarrow> bool" where
  "tokens_ok p req = (MaxTokensPerRequest p \<le> 0 \<or> req_MaxTokens req \<le> MaxTokensPerRequest p)"

definition hour_ok :: "ProviderPolicy \<Rightarrow> int \<Rightarrow> bool" where
  "hour_ok p hour = (NightOnly p \<longrightarrow> withinWindow hour (NightStartHour p) (NightEndHour p))"

definition load_ok :: "ProviderPolicy \<Rightarrow> (go_error + f64) option \<Rightarrow> bool" where
  "load_ok p probe = (\<forall>load. IdleOnly p \<and> MaxLoad1m p > Fin 0 \<and> probe = Some (Inr load)
     \<longrightarrow> \<not> load > MaxLoad1m p)"

lemma Validate_outcome:
  "Validate p req hour probe =
     (if \<not> tokens_ok p req then Some ErrTokensExceeded
      else if \<not> hour_ok p hour then Some ErrOutsideServingWindow
      else if \<not> load_ok p probe then Some ErrHostBusy
      else None)"
  by (auto simp: Validate_def tokens_ok_def hour_ok_def load_ok_def split: option.splits sum.splits)

lemma Validate_ok_iff: "Validate p req hour probe = None \<longleftrightarrow> tokens_ok p req \<and> hour_ok p hour \<and> load_ok p probe"
  by (simp add: Validate_outcome)

lemma Validate_errors:
  "Validate p req hour probe = Some e \<Longrightarrow> e \<in> {ErrTokensExceeded, ErrOutsideServingWindow, ErrHostBusy}"
  by (auto simp: Validate_outcome split: if_splits)

text \<open>A request that names no token limit passes any limit; a probe that fails passes the idle check.\<close>

lemma unlimited_request_passes: "req_MaxTokens req \<le> 0 \<Longrightarrow> tokens_ok p req"
  by (auto simp: tokens_ok_def)

lemma failing_probe_passes: "load_ok p (Some (Inl e))"
  by (simp add: load_ok_def)

section \<open>The window as arithmetic\<close>

text \<open>For hours of the day, the three-way comparison of the source, with its wrap past midnight, is
  membership in the arc of the clock face that starts at the start hour and ends before the end
  hour.\<close>

theorem window_is_clock_arc:
  assumes "hour \<in> {0..<24}" "start \<in> {0..<24}" "stop \<in> {0..<24}"
  shows "withinWindow hour start stop = clock_window hour start stop"
  using assms mod24_cases[of hour start] mod24_cases[of stop start]
  by (auto simp: withinWindow_def clock_window_def)

lemma window_is_clock_arc_witness: "withinWindow 23 22 6 = clock_window 23 22 6 \<and> clock_window 23 22 6"
  using window_is_clock_arc[of 23 22 6] by (simp add: withinWindow_def)

end
