(* ===== verification/Routing.thy ===== *)
theory Routing
  imports Types
begin

text \<open>
  The router (\<^verbatim>\<open>internal/routing/router.go\<close>): a score per capability document in \<open>float64\<close>
  (each product and sum rounded once, in the order of the source), the preference filter, and
  the ranking by \<open>sort.Slice\<close>. The Go sets \<open>map[string]struct{}\<close> are sets; \<open>len(...) > 0\<close>
  is non-emptiness. The sorting function is an argument (locale \<open>slice_sort\<close>).
\<close>

section \<open>Scores\<close>

record PeerScore =
  ps_Capability :: CapabilityDocument
  ps_Score :: f64

record Preferences =
  pref_Policy :: string
  pref_Favorites :: "string set"
  pref_Known :: "string set"
  pref_Allowed :: "string set"
  pref_Blocked :: "string set"

definition no_preferences :: Preferences where
  "no_preferences = \<lparr>pref_Policy = [], pref_Favorites = {}, pref_Known = {}, pref_Allowed = {}, pref_Blocked = {}\<rparr>"

definition RouterScore :: "RoutingWeights \<Rightarrow> CapabilityDocument \<Rightarrow> f64" where
  "RouterScore w c =
     (let vramPressure = (if VRAMFreeMB c > 0 then f64_div (Fin 1) (f64_of_int (VRAMFreeMB c)) else PInf);
          reliabilityPenalty = Fin 1 - Reliability c;
          reliabilityPenalty = (if reliabilityPenalty < Fin 0 then Fin 0 else reliabilityPenalty)
      in w_Latency w * f64_of_int (AvgLatencyMS c)
         + w_QueueDepth w * f64_of_int (QueueDepth c)
         + w_VRAMPressure w * vramPressure
         + w_Reliability w * reliabilityPenalty)"

section \<open>Ranking\<close>

text \<open>The first loop: is some favourite able to serve the request?\<close>

fun hasFavCandidates :: "Preferences \<Rightarrow> ChatCompletionRequest \<Rightarrow> CapabilityDocument list \<Rightarrow> bool" where
  "hasFavCandidates pref req [] = False"
| "hasFavCandidates pref req (p # ps) =
     (if PeerID p \<in> pref_Favorites pref \<and> SupportsRequirements p (req_Model req) (req_Requirements req)
      then True else hasFavCandidates pref req ps)"

definition effective_policy :: "Preferences \<Rightarrow> string" where
  "effective_policy pref = (if pref_Policy pref = [] then ''auto'' else pref_Policy pref)"

text \<open>The body of the second loop: \<open>None\<close> for \<open>continue\<close>.\<close>

definition score_peer ::
  "RoutingWeights \<Rightarrow> ChatCompletionRequest \<Rightarrow> Preferences \<Rightarrow> bool \<Rightarrow> CapabilityDocument \<Rightarrow> PeerScore option" where
  "score_peer w req pref hasFav p =
     (let policy = effective_policy pref in
      if PeerID p \<in> pref_Blocked pref then None
      else if policy = ''manual'' \<and> pref_Allowed pref \<noteq> {} \<and> PeerID p \<notin> pref_Allowed pref then None
      else if policy = ''prefer_favorites'' \<and> hasFav \<and> PeerID p \<notin> pref_Favorites pref then None
      else if \<not> SupportsRequirements p (req_Model req) (req_Requirements req) then None
      else let score = RouterScore w p;
               score = (if PeerID p \<in> pref_Favorites pref then score - w_FavoriteBonus w else score);
               score = (if policy = ''prefer_known'' \<and> PeerID p \<in> pref_Known pref
                        then score - w_KnownBonus w else score)
           in Some \<lparr>ps_Capability = p, ps_Score = score\<rparr>)"

type_synonym sorter = "(PeerScore \<Rightarrow> PeerScore \<Rightarrow> bool) \<Rightarrow> PeerScore list \<Rightarrow> PeerScore list"

definition RankWithPreferences ::
  "sorter \<Rightarrow> RoutingWeights \<Rightarrow> CapabilityDocument list \<Rightarrow> ChatCompletionRequest \<Rightarrow> Preferences \<Rightarrow> PeerScore list" where
  "RankWithPreferences srt w peers req pref =
     srt (\<lambda>a b. ps_Score a < ps_Score b)
       (List.map_filter (score_peer w req pref (hasFavCandidates pref req peers)) peers)"

definition Rank ::
  "sorter \<Rightarrow> RoutingWeights \<Rightarrow> CapabilityDocument list \<Rightarrow> ChatCompletionRequest \<Rightarrow> PeerScore list" where
  "Rank srt w peers req = RankWithPreferences srt w peers req no_preferences"

definition SelectBestWithPreferences ::
  "sorter \<Rightarrow> RoutingWeights \<Rightarrow> CapabilityDocument list \<Rightarrow> ChatCompletionRequest \<Rightarrow> Preferences \<Rightarrow> go_error + PeerScore" where
  "SelectBestWithPreferences srt w peers req pref =
     (case RankWithPreferences srt w peers req pref of [] \<Rightarrow> Inl ErrNoPeers | best # _ \<Rightarrow> Inr best)"

definition SelectBest ::
  "sorter \<Rightarrow> RoutingWeights \<Rightarrow> CapabilityDocument list \<Rightarrow> ChatCompletionRequest \<Rightarrow> go_error + PeerScore" where
  "SelectBest srt w peers req = SelectBestWithPreferences srt w peers req no_preferences"

section \<open>Eligibility: the specification of the filter\<close>

definition eligible ::
  "ChatCompletionRequest \<Rightarrow> Preferences \<Rightarrow> CapabilityDocument list \<Rightarrow> CapabilityDocument \<Rightarrow> bool" where
  "eligible req pref peers p \<longleftrightarrow>
     SupportsRequirements p (req_Model req) (req_Requirements req)
   \<and> PeerID p \<notin> pref_Blocked pref
   \<and> (pref_Policy pref = ''manual'' \<and> pref_Allowed pref \<noteq> {} \<longrightarrow> PeerID p \<in> pref_Allowed pref)
   \<and> (pref_Policy pref = ''prefer_favorites''
        \<and> (\<exists>f\<in>set peers. PeerID f \<in> pref_Favorites pref
             \<and> SupportsRequirements f (req_Model req) (req_Requirements req))
        \<longrightarrow> PeerID p \<in> pref_Favorites pref)"

text \<open>The score with the bonuses of the policy.\<close>

definition preferred_score :: "RoutingWeights \<Rightarrow> Preferences \<Rightarrow> CapabilityDocument \<Rightarrow> f64" where
  "preferred_score w pref p =
     (let s = RouterScore w p;
          s = (if PeerID p \<in> pref_Favorites pref then s - w_FavoriteBonus w else s)
      in if pref_Policy pref = ''prefer_known'' \<and> PeerID p \<in> pref_Known pref then s - w_KnownBonus w else s)"

lemma hasFavCandidates_iff:
  "hasFavCandidates pref req ps \<longleftrightarrow>
     (\<exists>f\<in>set ps. PeerID f \<in> pref_Favorites pref \<and> SupportsRequirements f (req_Model req) (req_Requirements req))"
  by (induction ps) auto

lemma effective_policy_eq [simp]: "q \<noteq> [] \<Longrightarrow> q \<noteq> ''auto'' \<Longrightarrow> effective_policy pref = q \<longleftrightarrow> pref_Policy pref = q"
  by (auto simp: effective_policy_def)

lemma score_peer_eq:
  "score_peer w req pref (hasFavCandidates pref req peers) p =
     (if eligible req pref peers p
      then Some \<lparr>ps_Capability = p, ps_Score = preferred_score w pref p\<rparr> else None)"
  by (auto simp: score_peer_def eligible_def preferred_score_def Let_def hasFavCandidates_iff)

lemma map_filter_if: "List.map_filter (\<lambda>x. if P x then Some (f x) else None) xs = map f (filter P xs)"
  by (induction xs) (auto simp: List.map_filter_simps)

text \<open>The ranked list, before sorting, is the eligible peers with their scores.\<close>

lemma scored_eq:
  "List.map_filter (score_peer w req pref (hasFavCandidates pref req peers)) peers =
     map (\<lambda>p. \<lparr>ps_Capability = p, ps_Score = preferred_score w pref p\<rparr>) (filter (eligible req pref peers) peers)"
proof -
  have "score_peer w req pref (hasFavCandidates pref req peers) =
    (\<lambda>p. if eligible req pref peers p
      then Some \<lparr>ps_Capability = p, ps_Score = preferred_score w pref p\<rparr> else None)"
    by (rule ext) (rule score_peer_eq)
  then show ?thesis by (simp add: map_filter_if)
qed

section \<open>Comparing scores\<close>

text \<open>Without NaN the comparison of the sort is a strict weak order, which \<open>sort.Slice\<close> asks for.\<close>

lemma score_order:
  assumes "\<And>x. x \<in> A \<Longrightarrow> \<not> f64_is_nan (ps_Score x)"
  shows "strict_weak (\<lambda>a b. ps_Score a < ps_Score b) A"
  unfolding strict_weak_def
proof (intro conjI ballI impI)
  fix a b c assume "b \<in> A" "\<not> ps_Score a < ps_Score b \<and> \<not> ps_Score b < ps_Score c"
  then show "\<not> ps_Score a < ps_Score c" using assms f64_incomparable_trans by blast
qed (auto intro: f64_less_trans)

text \<open>What a sort that keeps its promise does to the ranking.\<close>

context slice_sort
begin

lemma ranked_order:
  assumes "\<And>x. x \<in> set xs \<Longrightarrow> \<not> f64_is_nan (key x)"
  shows "sorted_wrt (\<lambda>a b. \<not> key b < key a) (srt (\<lambda>a b. key a < (key b :: f64)) xs)"
proof -
  have "strict_weak (\<lambda>a b. key a < key b) (set xs)"
    unfolding strict_weak_def
  proof (intro conjI ballI impI)
    fix a b c assume "b \<in> set xs" "\<not> key a < key b \<and> \<not> key b < key c"
    then show "\<not> key a < key c" using assms f64_incomparable_trans by blast
  qed (auto intro: f64_less_trans)
  then show ?thesis by (rule srt_sorted)
qed

end

lemma RankWithPreferences_mset:
  assumes "slice_sort srt"
  shows "mset (RankWithPreferences srt w peers req pref) =
    mset (map (\<lambda>p. \<lparr>ps_Capability = p, ps_Score = preferred_score w pref p\<rparr>) (filter (eligible req pref peers) peers))"
  unfolding RankWithPreferences_def scored_eq by (rule slice_sort.srt_mset [OF assms])

lemma RankWithPreferences_set:
  assumes "slice_sort srt"
  shows "set (RankWithPreferences srt w peers req pref) =
    (\<lambda>p. \<lparr>ps_Capability = p, ps_Score = preferred_score w pref p\<rparr>) ` {p \<in> set peers. eligible req pref peers p}"
  using mset_eq_set [OF RankWithPreferences_mset [OF assms]] by auto

lemma RankWithPreferences_nil_iff:
  assumes "slice_sort srt"
  shows "RankWithPreferences srt w peers req pref = [] \<longleftrightarrow> (\<forall>p\<in>set peers. \<not> eligible req pref peers p)"
  using mset_eq_nil_iff [OF RankWithPreferences_mset [OF assms]] by (auto simp: filter_empty_conv)

lemma RankWithPreferences_sorted:
  assumes "slice_sort srt" "\<And>p. p \<in> set peers \<Longrightarrow> \<not> f64_is_nan (preferred_score w pref p)"
  shows "sorted_wrt (\<lambda>a b. \<not> ps_Score b < ps_Score a) (RankWithPreferences srt w peers req pref)"
  unfolding RankWithPreferences_def scored_eq
  by (rule slice_sort.ranked_order [OF assms(1)]) (use assms(2) in auto)

section \<open>Scores of sensible documents are never NaN\<close>

text \<open>Finite non-negative weights (a positive one for VRAM), a non-negative document.\<close>

fun nonneg_fin :: "f64 \<Rightarrow> bool" where
  "nonneg_fin (Fin x) = (0 \<le> x)"
| "nonneg_fin _ = False"

definition sane_weights :: "RoutingWeights \<Rightarrow> bool" where
  "sane_weights w = (nonneg_fin (w_Latency w) \<and> nonneg_fin (w_QueueDepth w) \<and> Fin 0 < w_VRAMPressure w
     \<and> nonneg_fin (w_VRAMPressure w) \<and> nonneg_fin (w_Reliability w)
     \<and> nonneg_fin (w_FavoriteBonus w) \<and> nonneg_fin (w_KnownBonus w))"

definition sane_doc :: "CapabilityDocument \<Rightarrow> bool" where
  "sane_doc c = (0 \<le> AvgLatencyMS c \<and> 0 \<le> QueueDepth c \<and> nonneg_fin (Reliability c))"

definition ge0 :: "f64 \<Rightarrow> bool" where "ge0 x = (Fin 0 \<le> x)"

lemma ge0_cases: "ge0 x \<Longrightarrow> x = PInf \<or> (\<exists>v\<ge>0. x = Fin v)"
  by (cases x) (auto simp: ge0_def less_eq_f64_def)

lemma ge0_round: "0 \<le> x \<Longrightarrow> ge0 (round64 x)"
  using round64_ge_Fin[of 0 x] by (simp add: ge0_def less_eq_f64_def)

lemma ge0_plus: "ge0 a \<Longrightarrow> ge0 b \<Longrightarrow> ge0 (a + b)"
  by (drule ge0_cases, drule ge0_cases) (auto simp: ge0_round, auto simp: ge0_def less_eq_f64_def)

lemma ge0_times: "nonneg_fin w \<Longrightarrow> ge0 a \<Longrightarrow> a = PInf \<longrightarrow> Fin 0 < w \<Longrightarrow> ge0 (w * a)"
  by (drule ge0_cases, cases w) (auto simp: ge0_round, auto simp: ge0_def less_eq_f64_def)

lemma ge0_of_int: "0 \<le> k \<Longrightarrow> ge0 (f64_of_int k)"
  by (simp add: f64_of_int_def ge0_round)

lemma ge0_not_nan: "ge0 x \<Longrightarrow> \<not> f64_is_nan x"
  by (cases x) (auto simp: ge0_def less_eq_f64_def)

lemma ge0_vram:
  "ge0 (if VRAMFreeMB c > 0 then f64_div (Fin 1) (f64_of_int (VRAMFreeMB c)) else PInf)"
proof (cases "0 < VRAMFreeMB c")
  case True
  then have "ge0 (f64_of_int (VRAMFreeMB c))" by (simp add: ge0_of_int)
  moreover have "\<not> f64_of_int (VRAMFreeMB c) < Fin 1"
    unfolding f64_of_int_def using True by (intro round64_ge_Fin) auto
  ultimately show ?thesis
    using True by (auto dest!: ge0_cases simp: ge0_round) (simp_all add: ge0_def)
next
  case False
  then show ?thesis by (simp add: ge0_def less_eq_f64_def)
qed

lemma ge0_penalty:
  assumes "nonneg_fin (Reliability c)"
  shows "ge0 (let p = Fin 1 - Reliability c in if p < Fin 0 then Fin 0 else p)"
    "(let p = Fin 1 - Reliability c in if p < Fin 0 then Fin 0 else p) \<le> Fin 1"
proof -
  obtain r where r: "Reliability c = Fin r" "0 \<le> r" using assms by (cases "Reliability c") auto
  have up: "\<not> Fin 1 < round64 (1 - r)" using r by (intro round64_le_Fin) auto
  show "ge0 (let p = Fin 1 - Reliability c in if p < Fin 0 then Fin 0 else p)"
    by (auto simp: Let_def r ge0_def less_eq_f64_def)
  show "(let p = Fin 1 - Reliability c in if p < Fin 0 then Fin 0 else p) \<le> Fin 1"
    using up by (auto simp: Let_def r less_eq_f64_def)
qed

lemma f64_of_int_not_PInf: "\<bar>k\<bar> < 2 ^ 63 \<Longrightarrow> f64_of_int k \<noteq> PInf"
  by (metis f64.distinct(9) f64_of_int_finite)

text \<open>The score of a sensible document is a number at least zero, possibly infinite.\<close>

lemma RouterScore_ge0:
  assumes w: "sane_weights w" and c: "sane_doc c"
    and r: "AvgLatencyMS c < 2 ^ 63" "QueueDepth c < 2 ^ 63"
  shows "ge0 (RouterScore w c)"
proof -
  define v where "v = (if VRAMFreeMB c > 0 then f64_div (Fin 1) (f64_of_int (VRAMFreeMB c)) else PInf)"
  define p where "p = (let p = Fin 1 - Reliability c in if p < Fin 0 then Fin 0 else p)"
  have eq: "RouterScore w c = w_Latency w * f64_of_int (AvgLatencyMS c) + w_QueueDepth w * f64_of_int (QueueDepth c)
      + w_VRAMPressure w * v + w_Reliability w * p"
    by (simp add: RouterScore_def v_def p_def Let_def)
  have "ge0 p" "p \<noteq> PInf"
    using c ge0_penalty[of c] by (auto simp: sane_doc_def p_def less_eq_f64_def split: if_splits)
  moreover have "ge0 v" unfolding v_def by (rule ge0_vram)
  moreover have "0 \<le> AvgLatencyMS c" "0 \<le> QueueDepth c" using c by (auto simp: sane_doc_def)
  ultimately show ?thesis
    unfolding eq using w r
    by (intro ge0_plus ge0_times) (auto simp: sane_weights_def ge0_of_int f64_of_int_not_PInf)
qed

lemma minus_Fin_not_nan: "\<not> f64_is_nan a \<Longrightarrow> nonneg_fin b \<Longrightarrow> \<not> f64_is_nan (a - b)"
  by (cases a; cases b) (auto simp: minus_f64_def)

lemma preferred_score_not_nan:
  assumes "sane_weights w" "sane_doc c" "AvgLatencyMS c < 2 ^ 63" "QueueDepth c < 2 ^ 63"
  shows "\<not> f64_is_nan (preferred_score w pref c)"
  using ge0_not_nan [OF RouterScore_ge0 [OF assms]] assms(1)
  by (simp add: preferred_score_def Let_def minus_Fin_not_nan sane_weights_def)

section \<open>What a ranking is\<close>

text \<open>C17: The router ranks exactly the peers that can serve the request and that the policy admits (not
  blocked; on the allow list under manual routing with a list; a favourite under
  \<open>prefer_favorites\<close> when some favourite can serve), each once per document, with the weighted
  score and its bonuses; the ranking is in ascending order of score, its head has the least
  score, and there is no choice exactly when nobody is eligible. Weights and documents are those
  a resolved configuration and sane peers yield, so that no score is NaN.\<close>

theorem ranking_is_sorted_eligible:
  fixes req :: ChatCompletionRequest and pref :: Preferences
  assumes srt: "slice_sort srt" and w: "sane_weights w"
    and docs: "list_all (\<lambda>p. sane_doc p \<and> AvgLatencyMS p < 2 ^ 63 \<and> QueueDepth p < 2 ^ 63) peers"
  defines "ranked \<equiv> RankWithPreferences srt w peers req pref"
  shows "mset ranked =
      mset (map (\<lambda>p. \<lparr>ps_Capability = p, ps_Score = preferred_score w pref p\<rparr>) (filter (eligible req pref peers) peers))
    \<and> sorted_wrt (\<lambda>a b. \<not> ps_Score b < ps_Score a) ranked
    \<and> (SelectBestWithPreferences srt w peers req pref = Inl ErrNoPeers \<longleftrightarrow> filter (eligible req pref peers) peers = [])
    \<and> (\<forall>best c. SelectBestWithPreferences srt w peers req pref = Inr best \<and> c \<in> set ranked \<longrightarrow> \<not> ps_Score c < ps_Score best)"
proof -
  have nn: "\<not> f64_is_nan (preferred_score w pref p)" if "p \<in> set peers" for p
    using docs that by (intro preferred_score_not_nan w) (auto simp: list_all_iff)
  have sorted: "sorted_wrt (\<lambda>a b. \<not> ps_Score b < ps_Score a) ranked"
    unfolding ranked_def using srt nn by (rule RankWithPreferences_sorted)
  have "\<not> ps_Score c < ps_Score best"
    if "SelectBestWithPreferences srt w peers req pref = Inr best" "c \<in> set ranked" for best c
    using that sorted by (auto simp: SelectBestWithPreferences_def ranked_def split: list.splits)
  moreover have "SelectBestWithPreferences srt w peers req pref = Inl ErrNoPeers \<longleftrightarrow> filter (eligible req pref peers) peers = []"
    using RankWithPreferences_nil_iff[OF srt, of w peers req pref]
    by (auto simp: SelectBestWithPreferences_def filter_empty_conv split: list.splits)
  ultimately show ?thesis
    using sorted RankWithPreferences_mset[OF srt] by (auto simp: ranked_def)
qed

definition plain_weights :: RoutingWeights where
  "plain_weights = \<lparr>w_Latency = Fin 1, w_QueueDepth = Fin 2, w_VRAMPressure = Fin 500, w_Reliability = Fin 100,
     w_FavoriteBonus = Fin 10, w_KnownBonus = Fin 3\<rparr>"

lemma ranking_is_sorted_eligible_witness:
  "mset (RankWithPreferences insertion_sort plain_weights
      [zero_doc\<lparr>PeerID := ''a'', Models := [zero_spec], AvgLatencyMS := 90\<rparr>, zero_doc\<lparr>PeerID := ''b'', Models := [zero_spec]\<rparr>]
      zero_request no_preferences) =
   mset (map (\<lambda>p. \<lparr>ps_Capability = p, ps_Score = preferred_score plain_weights no_preferences p\<rparr>)
      [zero_doc\<lparr>PeerID := ''a'', Models := [zero_spec], AvgLatencyMS := 90\<rparr>, zero_doc\<lparr>PeerID := ''b'', Models := [zero_spec]\<rparr>])"
proof -
  define ps where "ps = [zero_doc\<lparr>PeerID := ''a'', Models := [zero_spec], AvgLatencyMS := 90\<rparr>, zero_doc\<lparr>PeerID := ''b'', Models := [zero_spec]\<rparr>]"
  have "sane_weights plain_weights" by (simp add: sane_weights_def plain_weights_def)
  moreover have "list_all (\<lambda>p. sane_doc p \<and> AvgLatencyMS p < 2 ^ 63 \<and> QueueDepth p < 2 ^ 63) ps"
    by (simp add: ps_def sane_doc_def zero_doc_def zero_f64_def)
  moreover have "filter (eligible zero_request no_preferences ps) ps = ps"
    by (simp add: ps_def eligible_def no_preferences_def zero_request_def no_requirements_def zero_doc_def zero_spec_def SupportsRequirements_def)
  ultimately show ?thesis
    using ranking_is_sorted_eligible[OF isort.slice_sort_axioms, of plain_weights ps zero_request no_preferences]
    by (simp add: ps_def)
qed

text \<open>C18: A favourite that is on the block list still counts as one that can serve: under
  \<open>prefer_favorites\<close>, when the only favourites able to serve are blocked, nobody is eligible,
  although other peers could serve.\<close>

theorem blocked_favorites_starve:
  assumes srt: "slice_sort srt" and "pref_Policy pref = ''prefer_favorites''"
    and "\<exists>f\<in>set peers. PeerID f \<in> pref_Favorites pref \<and> SupportsRequirements f (req_Model req) (req_Requirements req)"
    and "list_all (\<lambda>p. PeerID p \<in> pref_Favorites pref \<and> SupportsRequirements p (req_Model req) (req_Requirements req)
           \<longrightarrow> PeerID p \<in> pref_Blocked pref) peers"
  shows "SelectBestWithPreferences srt w peers req pref = Inl ErrNoPeers"
proof -
  have "\<forall>p\<in>set peers. \<not> eligible req pref peers p" using assms(2-4) by (auto simp: eligible_def list_all_iff)
  then have "RankWithPreferences srt w peers req pref = []" using RankWithPreferences_nil_iff[OF srt] by blast
  then show ?thesis by (simp add: SelectBestWithPreferences_def)
qed

lemma blocked_favorites_starve_witness:
  "SelectBestWithPreferences insertion_sort plain_weights
     [zero_doc\<lparr>PeerID := ''a'', Models := [zero_spec]\<rparr>, zero_doc\<lparr>PeerID := ''b'', Models := [zero_spec]\<rparr>] zero_request
     (no_preferences\<lparr>pref_Policy := ''prefer_favorites'', pref_Favorites := {''a''}, pref_Blocked := {''a''}\<rparr>) = Inl ErrNoPeers"
  by (rule blocked_favorites_starve[OF isort.slice_sort_axioms])
    (simp_all add: no_preferences_def zero_request_def no_requirements_def zero_doc_def zero_spec_def SupportsRequirements_def)

end
