(* ===== verification/Capability.thy ===== *)
theory Capability
  imports Types Reputation
begin

text \<open>
  The provider's own capability document and its running statistics
  (\<^verbatim>\<open>internal/app/capability.go\<close>). Every method runs under the state's lock and stamps
  \<open>UpdatedAt\<close>; the clock reading is an argument. The outcome counters are wrapping \<open>int64\<close>.
  The latency average is \<open>0.3 * ms + 0.7 * old\<close> in \<open>float64\<close> (both factors are constants,
  rounded from the exact decimals).
\<close>

record CapabilityState =
  doc :: CapabilityDocument
  latencyEMA :: f64
  successes :: i64
  failures :: i64

definition f64_alpha :: f64 where "f64_alpha = round64 (3/10)"
definition f64_one_minus_alpha :: f64 where "f64_one_minus_alpha = round64 (7/10)"

text \<open>\<open>int(x)\<close> of a float; a value out of range gives what amd64 gives, the least \<open>int64\<close>.\<close>

definition f64_to_go_int :: "f64 \<Rightarrow> int" where
  "f64_to_go_int x = (case f64_to_int x of Some k \<Rightarrow> k | None \<Rightarrow> - (2 ^ 63))"

definition NewCapabilityState :: "CapabilityDocument \<Rightarrow> gtime \<Rightarrow> CapabilityState" where
  "NewCapabilityState initial now =
     (let d = (if f64_eq (Reliability initial) (Fin 0) then initial\<lparr>Reliability := Fin 1\<rparr> else initial);
          d = (if time_is_zero (UpdatedAt d) then d\<lparr>UpdatedAt := now\<rparr> else d);
          d = (if AvgLatencyMS d = 0 then d\<lparr>AvgLatencyMS := 50\<rparr> else d)
      in \<lparr>doc = d, latencyEMA = f64_of_int (AvgLatencyMS d), successes = 0, failures = 0\<rparr>)"

definition Snapshot :: "gtime \<Rightarrow> CapabilityState \<Rightarrow> CapabilityDocument" where
  "Snapshot now s = (doc s)\<lparr>UpdatedAt := now\<rparr>"

definition SetQueueDepth :: "int \<Rightarrow> gtime \<Rightarrow> CapabilityState \<Rightarrow> CapabilityState" where
  "SetQueueDepth depth now s = s\<lparr>doc := (doc s)\<lparr>QueueDepth := depth, UpdatedAt := now\<rparr>\<rparr>"

definition UpdateLatency :: "duration \<Rightarrow> gtime \<Rightarrow> CapabilityState \<Rightarrow> CapabilityState" where
  "UpdateLatency d now s =
     (let ms = f64_of_int (dur_milliseconds d);
          ms = (if ms \<le> Fin 0 then Fin 1 else ms);
          ema = f64_alpha * ms + f64_one_minus_alpha * latencyEMA s
      in s\<lparr>latencyEMA := ema,
           doc := (doc s)\<lparr>AvgLatencyMS := f64_to_go_int ema, UpdatedAt := now\<rparr>\<rparr>)"

definition RecordOutcome :: "bool \<Rightarrow> gtime \<Rightarrow> CapabilityState \<Rightarrow> CapabilityState" where
  "RecordOutcome success now s =
     (let s = (if success then s\<lparr>successes := successes s + 1\<rparr> else s\<lparr>failures := failures s + 1\<rparr>);
          total = successes s + failures s;
          rel = (if total = 0 then Fin 1
                 else f64_div (f64_of_int (sint (successes s))) (f64_of_int (sint total)))
      in s\<lparr>doc := (doc s)\<lparr>Reliability := rel, UpdatedAt := now\<rparr>\<rparr>)"

definition SetAnnounceAddrs :: "string list \<Rightarrow> gtime \<Rightarrow> CapabilityState \<Rightarrow> CapabilityState" where
  "SetAnnounceAddrs addrs now s = s\<lparr>doc := (doc s)\<lparr>AnnounceAddrs := addrs, UpdatedAt := now\<rparr>\<rparr>"

lemmas cap_ops = SetQueueDepth_def UpdateLatency_def RecordOutcome_def SetAnnounceAddrs_def

section \<open>Frames\<close>

text \<open>No operation touches what the document says about identity and models.\<close>

lemma cap_frame [keeps]:
  "PeerID (doc (SetQueueDepth n t s)) = PeerID (doc s)" "PeerID (doc (UpdateLatency d t s)) = PeerID (doc s)"
  "PeerID (doc (RecordOutcome b t s)) = PeerID (doc s)" "PeerID (doc (SetAnnounceAddrs as t s)) = PeerID (doc s)"
  "Models (doc (SetQueueDepth n t s)) = Models (doc s)" "Models (doc (UpdateLatency d t s)) = Models (doc s)"
  "Models (doc (RecordOutcome b t s)) = Models (doc s)" "Models (doc (SetAnnounceAddrs as t s)) = Models (doc s)"
  by (simp_all add: cap_ops Let_def)

lemma queue_frame [keeps]:
  "QueueDepth (doc (SetQueueDepth n t s)) = n" "QueueDepth (doc (UpdateLatency d t s)) = QueueDepth (doc s)"
  "QueueDepth (doc (RecordOutcome b t s)) = QueueDepth (doc s)"
  by (simp_all add: cap_ops Let_def)

section \<open>Reliability is the share of successes\<close>

text \<open>The counters as numbers, within the bound where \<open>int64\<close> does not wrap.\<close>

definition counts_ok :: "CapabilityState \<Rightarrow> int \<Rightarrow> bool" where
  "counts_ok s bound = (0 \<le> sint (successes s) \<and> 0 \<le> sint (failures s)
     \<and> sint (successes s) + sint (failures s) \<le> bound)"

lemma sint_succ: fixes a :: i64 assumes "0 \<le> sint a" "sint a < 2 ^ 63 - 1" shows "sint (a + 1) = sint a + 1"
  using assms by (simp add: sint_word_add signed_take_bit_int_eq_self)

lemma sint_sum: fixes a b :: i64
  assumes "0 \<le> sint a" "0 \<le> sint b" "sint a + sint b < 2 ^ 63" shows "sint (a + b) = sint a + sint b"
  using assms by (simp add: sint_word_add signed_take_bit_int_eq_self)

lemma share_unit:
  assumes "0 \<le> k" "k \<le> n" "0 < n" "n < 2 ^ 63"
  shows "unit_score (f64_div (f64_of_int k) (f64_of_int n))"
    "k = n \<Longrightarrow> f64_div (f64_of_int k) (f64_of_int n) = Fin 1"
proof -
  obtain a where a: "f64_of_int k = Fin a" "0 \<le> a" by (rule f64_of_int_finite[of k]) (use assms in auto)
  obtain b where b: "f64_of_int n = Fin b" "0 \<le> b" by (rule f64_of_int_finite[of n]) (use assms in auto)
  have "\<not> f64_of_int n < f64_of_int k"
    unfolding f64_of_int_def using assms(2) by (intro round64_mono) simp
  then have ab: "a \<le> b" by (simp add: a b)
  have "\<not> f64_of_int n < Fin 1"
    unfolding f64_of_int_def using assms(3) by (intro round64_ge_Fin) auto
  then have b1: "1 \<le> b" by (simp add: b)
  have "0 \<le> a / b" "a / b \<le> 1" using a b ab b1 by (auto simp: divide_le_eq)
  then obtain q where "round64 (a / b) = Fin q" "0 \<le> q" "q \<le> 1" "wf64 (Fin q)" by (rule round64_unit)
  then show "unit_score (f64_div (f64_of_int k) (f64_of_int n))"
    using a b b1 by (simp add: unit_score_I)
  show "k = n \<Longrightarrow> f64_div (f64_of_int k) (f64_of_int n) = Fin 1"
    using b b1 by simp
qed

lemma RecordOutcome_counts:
  assumes "counts_ok s bound" "bound < 2 ^ 63 - 1"
  shows "sint (successes (RecordOutcome ok now s)) = sint (successes s) + (if ok then 1 else 0)"
    "sint (failures (RecordOutcome ok now s)) = sint (failures s) + (if ok then 0 else 1)"
  using assms by (auto simp: RecordOutcome_def Let_def counts_ok_def sint_succ)

lemma RecordOutcome_reliability:
  assumes c: "counts_ok s bound" "bound < 2 ^ 63 - 1"
  shows "Reliability (doc (RecordOutcome ok now s)) =
     f64_div (f64_of_int (sint (successes (RecordOutcome ok now s))))
             (f64_of_int (sint (successes s) + sint (failures s) + 1))"
proof -
  define s1 where "s1 = (if ok then s\<lparr>successes := successes s + 1\<rparr> else s\<lparr>failures := failures s + 1\<rparr>)"
  have n: "sint (successes s1) = sint (successes s) + (if ok then 1 else 0)"
    "sint (failures s1) = sint (failures s) + (if ok then 0 else 1)"
    using c by (auto simp: s1_def counts_ok_def sint_succ)
  have tot: "sint (successes s1 + failures s1) = sint (successes s) + sint (failures s) + 1"
    using c n by (subst sint_sum) (auto simp: counts_ok_def)
  have "successes s1 + failures s1 \<noteq> 0"
  proof
    assume "successes s1 + failures s1 = 0"
    then show False using tot c by (simp add: counts_ok_def)
  qed
  then show ?thesis
    unfolding RecordOutcome_def Let_def s1_def [symmetric] by (simp add: tot)
qed

lemma RecordOutcome_unit:
  assumes c: "counts_ok s bound" "bound < 2 ^ 63 - 1"
  shows "unit_score (Reliability (doc (RecordOutcome ok now s)))"
  unfolding RecordOutcome_reliability[OF c] RecordOutcome_counts[OF c]
  using c by (intro share_unit(1)) (auto simp: counts_ok_def)

section \<open>The latency average stays in range\<close>

definition ema_ok :: "CapabilityState \<Rightarrow> bool" where
  "ema_ok s = (\<exists>e. latencyEMA s = Fin e \<and> 0 \<le> e \<and> e \<le> 2 ^ 53)"

lemma wf64_pow2: "e \<le> 900 \<Longrightarrow> wf64 (Fin (2 ^ e))"
  using round64_scaled[of 1 e] by (simp add: wf64.simps)

lemma alpha_bounds:
  obtains a b where "f64_alpha = Fin a" "0 \<le> a" "a \<le> 1/2" "f64_one_minus_alpha = Fin b" "0 \<le> b" "b \<le> 3/4"
proof -
  have w: "wf64 (Fin (1/2))" "wf64 (Fin (3/4))"
    using wf64_dyadic[of 1 1] wf64_dyadic[of 3 2] by simp_all
  obtain a where "f64_alpha = Fin a" "0 \<le> a" "a \<le> 1/2"
    unfolding f64_alpha_def by (rule round64_between[of 0 "1/2" "3/10"]) (use w in auto)
  moreover obtain b where "f64_one_minus_alpha = Fin b" "0 \<le> b" "b \<le> 3/4"
    unfolding f64_one_minus_alpha_def by (rule round64_between[of 0 "3/4" "7/10"]) (use w in auto)
  ultimately show thesis using that by blast
qed

lemma millis_bounds:
  assumes "- (2 ^ 63) \<le> d" "d < 2 ^ 63"
  obtains m where "(let ms = f64_of_int (dur_milliseconds d) in if ms \<le> Fin 0 then Fin 1 else ms) = Fin m"
    "0 < m" "m \<le> 2 ^ 44"
proof -
  have k: "\<bar>dur_milliseconds d\<bar> \<le> 2 ^ 44"
  proof -
    have "\<bar>go_quot d millisecond\<bar> \<le> \<bar>d\<bar> div 1000000"
      by (auto simp: go_quot_def millisecond_def abs_mult sgn_if)
    also have "\<dots> \<le> 2 ^ 63 div 1000000" using assms by (intro zdiv_mono1) auto
    finally show ?thesis by (simp add: dur_milliseconds_def)
  qed
  have e: "f64_of_int (dur_milliseconds d) = Fin (of_int (dur_milliseconds d))"
    using k by (intro f64_of_int_exact) simp
  have "(of_int (dur_milliseconds d) :: rat) \<le> of_int (2 ^ 44)" using k by (simp only: of_int_le_iff)
  then show thesis by (intro that[of "if dur_milliseconds d \<le> 0 then 1 else of_int (dur_milliseconds d)"])
      (auto simp: e Let_def)
qed

lemma UpdateLatency_ema:
  assumes "ema_ok s" "- (2 ^ 63) \<le> d" "d < 2 ^ 63"
  shows "ema_ok (UpdateLatency d now s) \<and> 0 \<le> AvgLatencyMS (doc (UpdateLatency d now s))
     \<and> latencyEMA (UpdateLatency d now s) < Fin (of_int (AvgLatencyMS (doc (UpdateLatency d now s))) + 1)"
proof -
  obtain a b where ab: "f64_alpha = Fin a" "0 \<le> a" "a \<le> 1/2" "f64_one_minus_alpha = Fin b" "0 \<le> b" "b \<le> 3/4"
    by (rule alpha_bounds)
  obtain m where m: "(let ms = f64_of_int (dur_milliseconds d) in if ms \<le> Fin 0 then Fin 1 else ms) = Fin m"
    "0 < m" "m \<le> 2 ^ 44" using assms(2,3) by (rule millis_bounds)
  obtain e where e: "latencyEMA s = Fin e" "0 \<le> e" "e \<le> 2 ^ 53" using assms(1) by (auto simp: ema_ok_def)
  have "a * m \<le> 1/2 * 2 ^ 44" using m(2) by (intro mult_mono ab m) simp_all
  then have am: "0 \<le> a * m" "a * m \<le> 2 ^ 44" using ab m by simp_all
  have "b * e \<le> 3/4 * 2 ^ 53" using e(2) by (intro mult_mono ab e) simp_all
  then have be: "0 \<le> b * e" "b * e \<le> of_int 3 * 2 ^ 51" using ab e by simp_all
  have w: "wf64 (Fin (2 ^ 44))" "wf64 (Fin (2 ^ 53))" by (rule wf64_pow2, simp)+
  have w3: "wf64 (Fin (of_int 3 * 2 ^ 51))" using round64_scaled[of 3 51] by (simp add: wf64.simps)
  obtain x where x: "round64 (a * m) = Fin x" "0 \<le> x" "x \<le> 2 ^ 44"
    by (rule round64_between[of 0 "2 ^ 44" "a * m"]) (use am w wf64_01 in auto)
  obtain y where y: "round64 (b * e) = Fin y" "0 \<le> y" "y \<le> of_int 3 * 2 ^ 51"
    by (rule round64_between[of 0 "of_int 3 * 2 ^ 51" "b * e"]) (use be w3 wf64_01 in auto)
  obtain z where z: "round64 (x + y) = Fin z" "0 \<le> z" "z \<le> 2 ^ 53"
    by (rule round64_between[of 0 "2 ^ 53" "x + y"]) (use x y w wf64_01 in auto)
  have ema: "latencyEMA (UpdateLatency d now s) = Fin z"
    by (simp add: UpdateLatency_def Let_def ab(1,4) e(1) m(1)[unfolded Let_def] x(1) y(1) z(1))
  have fl: "\<lfloor>z\<rfloor> \<le> 2 ^ 53" "0 \<le> \<lfloor>z\<rfloor>" using z floor_mono[of z "2 ^ 53"] by simp_all
  then have avg: "AvgLatencyMS (doc (UpdateLatency d now s)) = \<lfloor>z\<rfloor>"
    using ema z by (simp add: UpdateLatency_def Let_def f64_to_go_int_def)
  have "z < of_int \<lfloor>z\<rfloor> + 1" by linarith
  then show ?thesis using ema z fl avg by (simp add: ema_ok_def)
qed

lemma NewCapabilityState_ok:
  assumes "0 \<le> AvgLatencyMS c" "AvgLatencyMS c < 2 ^ 53"
  shows "ema_ok (NewCapabilityState c now)" "counts_ok (NewCapabilityState c now) 0"
proof -
  have "(of_int (AvgLatencyMS c) :: rat) \<le> of_int (2 ^ 53)" using assms(2) by (simp only: of_int_le_iff)
  then show "ema_ok (NewCapabilityState c now)"
    using assms by (auto simp: ema_ok_def NewCapabilityState_def Let_def f64_of_int_exact)
qed (simp add: counts_ok_def NewCapabilityState_def Let_def)

section \<open>Reliability over a history\<close>

text \<open>The outcomes of a history with the clock readings at which they were recorded.\<close>

definition record_all :: "(bool \<times> gtime) list \<Rightarrow> CapabilityState \<Rightarrow> CapabilityState" where
  "record_all = fold (\<lambda>(ok, t). RecordOutcome ok t)"

definition served_ok :: "(bool \<times> gtime) list \<Rightarrow> int" where
  "served_ok h = int (length (filter fst h))"

lemma record_all_snoc: "record_all (h @ [(ok, t)]) s = RecordOutcome ok t (record_all h s)"
  by (simp add: record_all_def)

lemma record_all_counts:
  assumes "int (length h) < 2 ^ 63 - 1" "successes s = 0" "failures s = 0"
  shows "sint (successes (record_all h s)) = served_ok h
    \<and> sint (failures (record_all h s)) = int (length h) - served_ok h"
  using assms
proof (induction h rule: rev_induct)
  case Nil
  then show ?case by (simp add: record_all_def served_ok_def)
next
  case (snoc x h)
  obtain ok t where x: "x = (ok, t)" by force
  have le: "served_ok h \<le> int (length h)" "0 \<le> served_ok h" by (simp_all add: served_ok_def)
  have c: "counts_ok (record_all h s) (int (length h))" using snoc le by (simp add: counts_ok_def)
  show ?case
    using RecordOutcome_counts[OF c, of ok t] snoc le by (auto simp: x record_all_snoc served_ok_def)
qed

text \<open>C39: After any non-empty history of outcomes on a new state, the advertised reliability is the
  number of successes divided by the number of outcomes, rounded once, and lies between 0 and 1,
  for histories shorter than the range of \<open>int64\<close>.\<close>

theorem reliability_is_success_share:
  assumes "h \<noteq> []" "int (length h) < 2 ^ 63 - 1"
  shows "Reliability (doc (record_all h (NewCapabilityState c now))) =
      f64_div (f64_of_int (served_ok h)) (f64_of_int (int (length h)))
    \<and> unit_score (Reliability (doc (record_all h (NewCapabilityState c now))))"
proof -
  obtain g ok t where h: "h = g @ [(ok, t)]" using assms(1) by (metis surj_pair rev_exhaust)
  define s where "s = NewCapabilityState c now"
  have s0: "successes s = 0" "failures s = 0" by (simp_all add: s_def NewCapabilityState_def Let_def)
  have n: "sint (successes (record_all g s)) = served_ok g" "sint (failures (record_all g s)) = int (length g) - served_ok g"
    using record_all_counts[of g s] assms(2) s0 by (simp_all add: h)
  have ck: "counts_ok (record_all g s) (int (length g))" "int (length g) < 2 ^ 63 - 1"
    using n assms(2) by (simp_all add: counts_ok_def served_ok_def h)
  show ?thesis
    using RecordOutcome_reliability[OF ck, of ok t] RecordOutcome_counts[OF ck, of ok t] RecordOutcome_unit[OF ck, of ok t] n
    by (simp add: h record_all_snoc s_def served_ok_def algebra_simps)
qed

lemma reliability_is_success_share_witness:
  "Reliability (doc (record_all [(True, 1), (False, 2)] (NewCapabilityState zero_doc 0))) = f64_div (Fin 1) (Fin 2)"
  using reliability_is_success_share[of "[(True, 1), (False, 2)]" zero_doc 0] by (simp add: served_ok_def f64_of_int_exact)

section \<open>The latency average over a history\<close>

text \<open>Whatever durations are measured, the moving average of a new state stays a finite \<open>float64\<close>
  between 0 and \<open>2 ^ 53\<close>, and the advertised latency is its integer part: the conversion to
  \<open>int\<close> never goes out of range.\<close>

theorem latency_average_in_range:
  assumes "0 \<le> AvgLatencyMS c" "AvgLatencyMS c < 2 ^ 53" "list_all (\<lambda>(d, t). - (2 ^ 63) \<le> d \<and> d < 2 ^ 63) ms" "ms \<noteq> []"
  shows "\<exists>e. latencyEMA (fold (\<lambda>(d, t). UpdateLatency d t) ms (NewCapabilityState c now)) = Fin e \<and> 0 \<le> e \<and> e \<le> 2 ^ 53
    \<and> AvgLatencyMS (doc (fold (\<lambda>(d, t). UpdateLatency d t) ms (NewCapabilityState c now))) = \<lfloor>e\<rfloor>"
proof -
  have run: "ema_ok (fold (\<lambda>(d, t). UpdateLatency d t) xs s)"
    if "ema_ok s" "list_all (\<lambda>(d, t). - (2 ^ 63) \<le> d \<and> d < 2 ^ 63) xs" for s xs
    using that by (induction xs arbitrary: s) (auto simp: UpdateLatency_ema)
  obtain xs d t where ms: "ms = xs @ [(d, t)]" using assms(4) by (metis surj_pair rev_exhaust)
  define s where "s = fold (\<lambda>(d, t). UpdateLatency d t) xs (NewCapabilityState c now)"
  have "ema_ok s" unfolding s_def using assms by (intro run NewCapabilityState_ok) (simp_all add: ms)
  moreover have "- (2 ^ 63) \<le> d" "d < 2 ^ 63" using assms(3) by (simp_all add: ms)
  ultimately have "ema_ok (UpdateLatency d t s)" using UpdateLatency_ema by blast
  then obtain e where e: "latencyEMA (UpdateLatency d t s) = Fin e" "0 \<le> e" "e \<le> 2 ^ 53" by (auto simp: ema_ok_def)
  have "AvgLatencyMS (doc (UpdateLatency d t s)) = f64_to_go_int (latencyEMA (UpdateLatency d t s))"
    by (simp add: UpdateLatency_def Let_def)
  moreover have "\<lfloor>e\<rfloor> \<le> 2 ^ 53" "0 \<le> \<lfloor>e\<rfloor>" using e floor_mono[of e "2 ^ 53"] by simp_all
  ultimately show ?thesis using e by (simp add: ms s_def f64_to_go_int_def)
qed

lemma latency_average_in_range_witness:
  "\<exists>e. latencyEMA (fold (\<lambda>(d, t). UpdateLatency d t) [(80000000, 1), (- 5, 2)] (NewCapabilityState zero_doc 0)) = Fin e
     \<and> 0 \<le> e \<and> e \<le> 2 ^ 53
     \<and> AvgLatencyMS (doc (fold (\<lambda>(d, t). UpdateLatency d t) [(80000000, 1), (- 5, 2)] (NewCapabilityState zero_doc 0))) = \<lfloor>e\<rfloor>"
  by (rule latency_average_in_range) (simp_all add: zero_doc_def)

end
