(* ===== verification/Backend.thy ===== *)
theory Backend
  imports Types GoText
begin

text \<open>
  The backend adapters (\<^verbatim>\<open>internal/backend\<close>) and what the program uses of \<open>net/http\<close> as a
  client. The network is an argument: \<open>url_error\<close> is the verdict of \<open>http.NewRequest\<close> on a URL,
  \<open>round_trip\<close> the answer of \<open>Client.Do\<close>. The encoders and decoders of \<open>encoding/json\<close> are
  arguments as well. A body is the bytes a reader gets when it reads to the end.
\<close>

section \<open>HTTP as the client sees it\<close>

record HttpRequest =
  hq_Method :: string
  hq_URL :: string
  hq_Header :: "(string, string) gomap"
  hq_Body :: string

record HttpResponse =
  hr_StatusCode :: int
  hr_ContentType :: string
  hr_Body :: string

record HttpEnv =
  url_error :: "string \<Rightarrow> go_error option"
  round_trip :: "HttpRequest \<Rightarrow> go_error + HttpResponse"

text \<open>\<open>Header.Get\<close> on keys in canonical form: the empty string when absent.\<close>

definition header_get :: "(string, string) gomap \<Rightarrow> string \<Rightarrow> string" where
  "header_get h k = (case map_get h k of Some v \<Rightarrow> v | None \<Rightarrow> [])"

definition status_error :: "string \<Rightarrow> HttpResponse \<Rightarrow> go_error" where
  "status_error what resp =
     ErrText (what @ '' status '' @ int_dec (hr_StatusCode resp) @ '': '' @ take (64 * 1024) (hr_Body resp))"

section \<open>The HTTP adapter\<close>

record InferenceStream =
  st_StatusCode :: int
  st_ContentType :: string
  st_Body :: string

record HTTPAdapter =
  ha_BaseURL :: string

definition NewHTTPAdapter :: "string \<Rightarrow> HTTPAdapter" where
  "NewHTTPAdapter baseURL = \<lparr>ha_BaseURL = trim_right_char (CHR 0x2F) baseURL\<rparr>"

definition json_headers :: "(string, string) gomap" where
  "json_headers = [(''Content-Type'', ''application/json'')]"

definition HTTPAdapter_Infer ::
  "HttpEnv \<Rightarrow> (ChatCompletionRequest \<Rightarrow> go_error + string) \<Rightarrow> HTTPAdapter \<Rightarrow> ChatCompletionRequest
    \<Rightarrow> go_error + InferenceStream" where
  "HTTPAdapter_Infer env marshal a req =
     (case marshal req of
        Inl e \<Rightarrow> Inl (ErrWrap ''marshal request: '' e)
      | Inr b \<Rightarrow>
          let url = ha_BaseURL a @ ''/v1/chat/completions'' in
          case url_error env url of
            Some e \<Rightarrow> Inl (ErrWrap ''build backend request: '' e)
          | None \<Rightarrow>
              case round_trip env \<lparr>hq_Method = ''POST'', hq_URL = url, hq_Header = json_headers, hq_Body = b\<rparr> of
                Inl e \<Rightarrow> Inl (ErrWrap ''backend request failed: '' e)
              | Inr resp \<Rightarrow>
                  if hr_StatusCode resp \<ge> 400 then Inl (status_error ''backend'' resp)
                  else Inr \<lparr>st_StatusCode = hr_StatusCode resp, st_ContentType = hr_ContentType resp,
                            st_Body = hr_Body resp\<rparr>)"

section \<open>The Ollama adapter\<close>

record OllamaAdapter =
  oa_BaseURL :: string

definition NewOllamaAdapter :: "string \<Rightarrow> OllamaAdapter" where
  "NewOllamaAdapter baseURL = \<lparr>oa_BaseURL = trim_right_char (CHR 0x2F) baseURL\<rparr>"

record ollamaRequest =
  or_Model :: string
  or_Messages :: "Message list"
  or_Stream :: bool

record ollamaLine =
  ol_Content :: string
  ol_Done :: bool

definition ollama_chunk :: "(string \<Rightarrow> string) \<Rightarrow> string \<Rightarrow> string" where
  \<open>ollama_chunk quote content =
     ''data: {"id":"chatcmpl-ollama","object":"chat.completion.chunk","choices":[{"index":0,"delta":{"content":''
     @ quote content @ ''},"finish_reason":null}]}'' @ [CHR 0x0A, CHR 0x0A]\<close>

text \<open>The end marker as the source writes it: an interpreted literal with escaped backslashes.\<close>

definition ollama_done :: string where
  "ollama_done = ''data: [DONE]'' @ [CHR 0x5C, CHR ''n'', CHR 0x5C, CHR ''n'']"

text \<open>The translating goroutine: what it writes into the pipe.\<close>

fun ollama_pump :: "(string \<Rightarrow> ollamaLine option) \<Rightarrow> (string \<Rightarrow> string) \<Rightarrow> string list \<Rightarrow> string" where
  "ollama_pump unmarshal quote [] = []"
| "ollama_pump unmarshal quote (l # ls) =
     (case unmarshal l of
        None \<Rightarrow> ollama_pump unmarshal quote ls
      | Some line \<Rightarrow>
          (if ol_Content line \<noteq> [] then ollama_chunk quote (ol_Content line) else [])
          @ (if ol_Done line then ollama_done else ollama_pump unmarshal quote ls))"

definition OllamaAdapter_Infer ::
  "HttpEnv \<Rightarrow> (ollamaRequest \<Rightarrow> go_error + string) \<Rightarrow> (string \<Rightarrow> ollamaLine option) \<Rightarrow> (string \<Rightarrow> string)
    \<Rightarrow> OllamaAdapter \<Rightarrow> ChatCompletionRequest \<Rightarrow> go_error + InferenceStream" where
  "OllamaAdapter_Infer env marshal unmarshal quote a req =
     (case marshal \<lparr>or_Model = req_Model req, or_Messages = req_Messages req, or_Stream = req_Stream req\<rparr> of
        Inl e \<Rightarrow> Inl (ErrWrap ''marshal request: '' e)
      | Inr b \<Rightarrow>
          let url = oa_BaseURL a @ ''/api/chat'' in
          case url_error env url of
            Some e \<Rightarrow> Inl (ErrWrap ''build backend request: '' e)
          | None \<Rightarrow>
              case round_trip env \<lparr>hq_Method = ''POST'', hq_URL = url, hq_Header = json_headers, hq_Body = b\<rparr> of
                Inl e \<Rightarrow> Inl (ErrWrap ''backend request failed: '' e)
              | Inr resp \<Rightarrow>
                  if hr_StatusCode resp \<ge> 400 then Inl (status_error ''backend'' resp)
                  else if \<not> req_Stream req then
                    Inr \<lparr>st_StatusCode = 200, st_ContentType = ''application/json'', st_Body = hr_Body resp\<rparr>
                  else Inr \<lparr>st_StatusCode = 200, st_ContentType = ''text/event-stream'',
                            st_Body = ollama_pump unmarshal quote (scan_lines (hr_Body resp))\<rparr>)"

section \<open>What every adapter promises\<close>

text \<open>The provider and the relays rely on it: a stream is only returned below status 400.\<close>

locale inference_backend =
  fixes infer :: "ChatCompletionRequest \<Rightarrow> go_error + InferenceStream"
  assumes stream_below_400: "infer req = Inr st \<Longrightarrow> st_StatusCode st < 400"
begin

lemma error_status_is_error: "\<lbrakk>infer req = r; \<And>st. r = Inr st \<Longrightarrow> 400 \<le> st_StatusCode st\<rbrakk> \<Longrightarrow> \<exists>e. r = Inl e"
  using stream_below_400 by (cases r) fastforce+

end

interpretation http_adapter: inference_backend "HTTPAdapter_Infer env marshal a"
  by unfold_locales (auto simp: HTTPAdapter_Infer_def Let_def split: sum.splits option.splits if_splits)

interpretation ollama_adapter: inference_backend "OllamaAdapter_Infer env marshal unmarshal quote a"
  by unfold_locales (auto simp: OllamaAdapter_Infer_def Let_def split: sum.splits option.splits if_splits)

section \<open>The translated stream\<close>

text \<open>The lines the pump reads: up to and including the first that says it is done.\<close>

definition decoded :: "(string \<Rightarrow> ollamaLine option) \<Rightarrow> string list \<Rightarrow> ollamaLine list" where
  "decoded unmarshal ls = List.map_filter unmarshal ls"

fun upto_done :: "ollamaLine list \<Rightarrow> ollamaLine list" where
  "upto_done [] = []"
| "upto_done (l # ls) = (if ol_Done l then [l] else l # upto_done ls)"

definition contents :: "ollamaLine list \<Rightarrow> string list" where
  "contents ls = filter (\<lambda>c. c \<noteq> []) (map ol_Content (upto_done ls))"

text \<open>The translated stream carries, in order, the non-empty contents of the lines that decode, up to and
  including the first that says it is done; the end marker is written if and only if one came.\<close>

lemma ollama_pump_eq:
  "ollama_pump unmarshal quote ls =
     concat (map (ollama_chunk quote) (contents (decoded unmarshal ls)))
     @ (if \<exists>l\<in>set (decoded unmarshal ls). ol_Done l then ollama_done else [])"
  by (induction ls) (auto simp: decoded_def contents_def List.map_filter_simps split: option.splits)

lemma upto_done_prefix: "\<exists>rest. ls = upto_done ls @ rest"
  by (induction ls) auto

lemma butlast_upto_done: "l \<in> set (butlast (upto_done ls)) \<Longrightarrow> \<not> ol_Done l"
  by (induction ls) (auto split: if_splits)

text \<open>The end marker carries no line feed, so the event it should end is not terminated.\<close>

lemma ollama_done_unterminated: "CHR 0x0A \<notin> set ollama_done"
  by (simp add: ollama_done_def)

end
