(* ===== verification/Provider.thy ===== *)
theory Provider
  imports Credits Limiter Policy Pow Capability Backend
begin

text \<open>
  The provider side (\<^verbatim>\<open>internal/app/services.go\<close>, \<open>ProviderService\<close>): the checks a request
  passes, the admission by the limiter, the call of the backend and the bookkeeping of
  \<open>cleanup\<close>, which the handlers run once the body is relayed. The readings a call takes from
  its surroundings (successive clock readings, hour of the day, load probe, state of the
  context, answer of the backend) are its \<open>CallEnv\<close>.
\<close>

section \<open>State and environment\<close>

record InferenceResult =
  ir_StatusCode :: int
  ir_ContentType :: string
  ir_Body :: string

record ProviderService =
  pv_limiter :: Limiter
  pv_capability :: CapabilityState
  pv_policy :: ProviderPolicy
  pv_creditLedger :: "CreditLedger option"
  pv_peerReputation :: "ReputationTracker option"
  pv_inFlightCount :: i64

record CallEnv =
  ce_now :: "nat \<Rightarrow> gtime"
  ce_hour :: int
  ce_probe :: "go_error + f64"
  ce_ctxErr :: "go_error option"
  ce_adapter :: "ChatCompletionRequest \<Rightarrow> go_error + InferenceStream"

definition NewProviderService ::
  "Limiter \<Rightarrow> CapabilityState \<Rightarrow> ProviderPolicy \<Rightarrow> CreditLedger option \<Rightarrow> ReputationTracker option
    \<Rightarrow> ProviderService" where
  "NewProviderService limiter capability policy creditLedger peerReputation =
     \<lparr>pv_limiter = limiter, pv_capability = capability, pv_policy = policy,
      pv_creditLedger = creditLedger, pv_peerReputation = peerReputation, pv_inFlightCount = 0\<rparr>"

text \<open>\<open>if s.peerReputation != nil && peerCtx.ClientPeerID != ""\<close>, then adjust.\<close>

definition rep_adjust ::
  "(string \<Rightarrow> f64 \<Rightarrow> ReputationTracker \<Rightarrow> ReputationTracker) \<Rightarrow> PeerContext \<Rightarrow> f64 \<Rightarrow> ProviderService \<Rightarrow> ProviderService" where
  "rep_adjust how peerCtx delta s =
     (case pv_peerReputation s of
        None \<Rightarrow> s
      | Some r \<Rightarrow> if pc_ClientPeerID peerCtx = [] then s
                  else s\<lparr>pv_peerReputation := Some (how (pc_ClientPeerID peerCtx) delta r)\<rparr>)"

text \<open>The constants of the source, rounded to \<open>float64\<close>.\<close>

definition delta_policy :: f64 where "delta_policy = round64 (2/100)"
definition delta_pow :: f64 where "delta_pow = round64 (2/10)"
definition delta_backend :: f64 where "delta_backend = round64 (5/100)"
definition delta_served :: f64 where "delta_served = round64 (1/100)"

definition set_limiter :: "Limiter \<Rightarrow> ProviderService \<Rightarrow> ProviderService" where
  "set_limiter l s = s\<lparr>pv_limiter := l\<rparr>"

definition on_capability :: "(CapabilityState \<Rightarrow> CapabilityState) \<Rightarrow> ProviderService \<Rightarrow> ProviderService" where
  "on_capability f s = s\<lparr>pv_capability := f (pv_capability s)\<rparr>"

definition count_add :: "i64 \<Rightarrow> ProviderService \<Rightarrow> ProviderService" where
  "count_add d s = s\<lparr>pv_inFlightCount := pv_inFlightCount s + d\<rparr>"

text \<open>\<open>int(atomic.LoadInt64(&s.inFlightCount))\<close>.\<close>

definition queue_depth :: "ProviderService \<Rightarrow> int" where
  "queue_depth s = sint (pv_inFlightCount s)"

section \<open>The request path\<close>

text \<open>The checks before admission.\<close>

definition admit_checks ::
  "CallEnv \<Rightarrow> ChatCompletionRequest \<Rightarrow> PeerContext \<Rightarrow> ProviderService \<Rightarrow> go_error option \<times> ProviderService" where
  "admit_checks env req peerCtx s =
     (case Validate (pv_policy s) req (ce_hour env) (Some (ce_probe env)) of
        Some e \<Rightarrow> (Some e, rep_adjust Penalize peerCtx delta_policy s)
      | None \<Rightarrow>
          if PoWDifficulty (pv_policy s) > 0
             \<and> \<not> ValidatePoW (pc_ClientPeerID peerCtx) (pc_PoWNonce peerCtx) (req_Model req) (PoWDifficulty (pv_policy s))
          then (Some ErrInvalidPoW, rep_adjust Penalize peerCtx delta_pow s)
          else case pv_peerReputation s of
              None \<Rightarrow> (None, s)
            | Some r \<Rightarrow>
                if MinPeerReputation (pv_policy s) > Fin 0 \<and> pc_ClientPeerID peerCtx \<noteq> []
                   \<and> Score r (pc_ClientPeerID peerCtx) < MinPeerReputation (pv_policy s)
                then (Some ErrPeerReputationLow, s) else (None, s))"

text \<open>The branch for an error of the backend.\<close>

definition fail_backend :: "CallEnv \<Rightarrow> PeerContext \<Rightarrow> gtime \<Rightarrow> ProviderService \<Rightarrow> ProviderService" where
  "fail_backend env peerCtx start s =
     (let s = set_limiter (Release (pv_limiter s)) s;
          s = count_add (- 1) s;
          s = on_capability (UpdateLatency (time_sub (ce_now env 2) start) (ce_now env 3)) s;
          s = on_capability (RecordOutcome False (ce_now env 4)) s
      in rep_adjust Penalize peerCtx delta_backend s)"

text \<open>\<open>Infer\<close> up to its return: the result carries the start time the cleanup closure captures.\<close>

definition ProviderInfer ::
  "CallEnv \<Rightarrow> ChatCompletionRequest \<Rightarrow> PeerContext \<Rightarrow> ProviderService
    \<Rightarrow> (go_error + InferenceResult \<times> gtime) \<times> ProviderService" where
  "ProviderInfer env req peerCtx s =
     (case admit_checks env req peerCtx s of
        (Some e, s) \<Rightarrow> (Inl e, s)
      | (None, s) \<Rightarrow>
          (case Acquire (ce_ctxErr env) (ce_now env 0) (pv_limiter s) of
             (Some e, l) \<Rightarrow> (Inl e, set_limiter l s)
           | (None, l) \<Rightarrow>
               let s = count_add 1 (set_limiter l s);
                   start = ce_now env 1
               in case ce_adapter env req of
                    Inl e \<Rightarrow> (Inl e, fail_backend env peerCtx start s)
                  | Inr st \<Rightarrow>
                      let s = on_capability (SetQueueDepth (queue_depth s) (ce_now env 2)) s
                      in (Inr (\<lparr>ir_StatusCode = st_StatusCode st, ir_ContentType = st_ContentType st,
                                ir_Body = st_Body st\<rparr>, start), s)))"

definition earn_one :: "ProviderService \<Rightarrow> ProviderService" where
  "earn_one s = (case pv_creditLedger s of None \<Rightarrow> s | Some c \<Rightarrow> s\<lparr>pv_creditLedger := Some (Earn 1 c)\<rparr>)"

text \<open>The closure \<open>cleanup\<close>.\<close>

definition cleanup :: "CallEnv \<Rightarrow> PeerContext \<Rightarrow> gtime \<Rightarrow> ProviderService \<Rightarrow> ProviderService" where
  "cleanup env peerCtx start s =
     (let s = set_limiter (Release (pv_limiter s)) s;
          s = count_add (- 1) s;
          s = on_capability (SetQueueDepth (queue_depth s) (ce_now env 0)) s;
          s = on_capability (UpdateLatency (time_sub (ce_now env 1) start) (ce_now env 2)) s;
          s = on_capability (RecordOutcome True (ce_now env 3)) s;
          s = earn_one s
      in rep_adjust Reward peerCtx delta_served s)"

text \<open>A request as a handler serves it: \<open>Infer\<close>, relay the body, \<open>cleanup\<close>.\<close>

definition serve ::
  "CallEnv \<Rightarrow> CallEnv \<Rightarrow> ChatCompletionRequest \<Rightarrow> PeerContext \<Rightarrow> ProviderService
    \<Rightarrow> (go_error + InferenceResult) \<times> ProviderService" where
  "serve env env2 req peerCtx s =
     (case ProviderInfer env req peerCtx s of
        (Inl e, s) \<Rightarrow> (Inl e, s)
      | (Inr (res, start), s) \<Rightarrow> (Inr res, cleanup env2 peerCtx start s))"

lemmas provider_upd = set_limiter_def on_capability_def count_add_def rep_adjust_def earn_one_def

section \<open>Frames\<close>

lemma rep_adjust_frame [keeps]:
  "pv_limiter (rep_adjust h p d s) = pv_limiter s" "pv_capability (rep_adjust h p d s) = pv_capability s"
  "pv_policy (rep_adjust h p d s) = pv_policy s" "pv_creditLedger (rep_adjust h p d s) = pv_creditLedger s"
  "pv_inFlightCount (rep_adjust h p d s) = pv_inFlightCount s"
  by (auto simp: rep_adjust_def split: option.splits)

lemma earn_one_frame [keeps]:
  "pv_limiter (earn_one s) = pv_limiter s" "pv_capability (earn_one s) = pv_capability s"
  "pv_policy (earn_one s) = pv_policy s" "pv_peerReputation (earn_one s) = pv_peerReputation s"
  "pv_inFlightCount (earn_one s) = pv_inFlightCount s"
  by (auto simp: earn_one_def split: option.splits)

lemma set_limiter_frame [keeps]:
  "pv_limiter (set_limiter l s) = l" "pv_capability (set_limiter l s) = pv_capability s"
  "pv_policy (set_limiter l s) = pv_policy s" "pv_creditLedger (set_limiter l s) = pv_creditLedger s"
  "pv_peerReputation (set_limiter l s) = pv_peerReputation s"
  "pv_inFlightCount (set_limiter l s) = pv_inFlightCount s"
  by (simp_all add: set_limiter_def)

lemma on_capability_frame [keeps]:
  "pv_limiter (on_capability f s) = pv_limiter s" "pv_capability (on_capability f s) = f (pv_capability s)"
  "pv_policy (on_capability f s) = pv_policy s" "pv_creditLedger (on_capability f s) = pv_creditLedger s"
  "pv_peerReputation (on_capability f s) = pv_peerReputation s"
  "pv_inFlightCount (on_capability f s) = pv_inFlightCount s"
  by (simp_all add: on_capability_def)

lemma count_add_frame [keeps]:
  "pv_limiter (count_add d s) = pv_limiter s" "pv_capability (count_add d s) = pv_capability s"
  "pv_policy (count_add d s) = pv_policy s" "pv_creditLedger (count_add d s) = pv_creditLedger s"
  "pv_peerReputation (count_add d s) = pv_peerReputation s"
  "pv_inFlightCount (count_add d s) = pv_inFlightCount s + d"
  by (simp_all add: count_add_def)

lemma admit_checks_frame:
  assumes "admit_checks env req p s = (r, s')"
  shows "pv_limiter s' = pv_limiter s" "pv_capability s' = pv_capability s" "pv_policy s' = pv_policy s"
    "pv_creditLedger s' = pv_creditLedger s" "pv_inFlightCount s' = pv_inFlightCount s"
  using assms by (auto simp: admit_checks_def keeps split: option.splits if_splits)

section \<open>The outcome of the checks\<close>

definition pow_ok :: "ProviderPolicy \<Rightarrow> ChatCompletionRequest \<Rightarrow> PeerContext \<Rightarrow> bool" where
  "pow_ok p req peerCtx = ValidatePoW (pc_ClientPeerID peerCtx) (pc_PoWNonce peerCtx) (req_Model req) (PoWDifficulty p)"

definition trusted :: "ProviderService \<Rightarrow> PeerContext \<Rightarrow> bool" where
  "trusted s peerCtx = (case pv_peerReputation s of
     None \<Rightarrow> True
   | Some r \<Rightarrow> MinPeerReputation (pv_policy s) > Fin 0 \<and> pc_ClientPeerID peerCtx \<noteq> []
        \<longrightarrow> \<not> Score r (pc_ClientPeerID peerCtx) < MinPeerReputation (pv_policy s))"

lemma admit_checks_outcome:
  "fst (admit_checks env req peerCtx s) =
     (if \<not> tokens_ok (pv_policy s) req then Some ErrTokensExceeded
      else if \<not> hour_ok (pv_policy s) (ce_hour env) then Some ErrOutsideServingWindow
      else if \<not> load_ok (pv_policy s) (Some (ce_probe env)) then Some ErrHostBusy
      else if \<not> pow_ok (pv_policy s) req peerCtx then Some ErrInvalidPoW
      else if \<not> trusted s peerCtx then Some ErrPeerReputationLow
      else None)"
  by (auto simp: admit_checks_def Validate_outcome pow_ok_def trusted_def split: option.splits)

lemma admit_checks_passed: "admit_checks env req peerCtx s = (None, s') \<Longrightarrow> s' = s"
  by (auto simp: admit_checks_def split: option.splits if_splits)

section \<open>The four ways a request goes\<close>

definition admitted :: "Limiter \<Rightarrow> ProviderService \<Rightarrow> ProviderService" where
  "admitted l s = count_add 1 (set_limiter l s)"

lemma admitted_frame [keeps]:
  "pv_limiter (admitted l s) = l" "pv_capability (admitted l s) = pv_capability s"
  "pv_policy (admitted l s) = pv_policy s" "pv_creditLedger (admitted l s) = pv_creditLedger s"
  "pv_peerReputation (admitted l s) = pv_peerReputation s"
  "pv_inFlightCount (admitted l s) = pv_inFlightCount s + 1"
  by (simp_all add: admitted_def keeps)

lemma fail_backend_frame [keeps]:
  "pv_limiter (fail_backend env p t s) = Release (pv_limiter s)" "pv_policy (fail_backend env p t s) = pv_policy s"
  "pv_creditLedger (fail_backend env p t s) = pv_creditLedger s"
  "pv_inFlightCount (fail_backend env p t s) = pv_inFlightCount s - 1"
  "QueueDepth (doc (pv_capability (fail_backend env p t s))) = QueueDepth (doc (pv_capability s))"
  by (simp_all add: fail_backend_def Let_def keeps)

lemma cleanup_frame [keeps]:
  "pv_limiter (cleanup env p t s) = Release (pv_limiter s)" "pv_policy (cleanup env p t s) = pv_policy s"
  "pv_creditLedger (cleanup env p t s) = map_option (Earn 1) (pv_creditLedger s)"
  "pv_inFlightCount (cleanup env p t s) = pv_inFlightCount s - 1"
  "QueueDepth (doc (pv_capability (cleanup env p t s))) = sint (pv_inFlightCount s - 1)"
  by (simp_all add: cleanup_def Let_def keeps queue_depth_def earn_one_def split: option.splits)

lemma ProviderInfer_cases:
  assumes "ProviderInfer env req p s = (r, s')"
  obtains (rejected) e where "admit_checks env req p s = (Some e, s')" "r = Inl e"
  | (refused) e l where "admit_checks env req p s = (None, s)"
      "Acquire (ce_ctxErr env) (ce_now env 0) (pv_limiter s) = (Some e, l)" "r = Inl e" "s' = set_limiter l s"
  | (failed) e l where "admit_checks env req p s = (None, s)"
      "Acquire (ce_ctxErr env) (ce_now env 0) (pv_limiter s) = (None, l)" "ce_adapter env req = Inl e" "r = Inl e"
      "s' = fail_backend env p (ce_now env 1) (admitted l s)"
  | (granted) st l where "admit_checks env req p s = (None, s)"
      "Acquire (ce_ctxErr env) (ce_now env 0) (pv_limiter s) = (None, l)" "ce_adapter env req = Inr st"
      "r = Inr (\<lparr>ir_StatusCode = st_StatusCode st, ir_ContentType = st_ContentType st, ir_Body = st_Body st\<rparr>, ce_now env 1)"
      "s' = on_capability (SetQueueDepth (queue_depth (admitted l s)) (ce_now env 2)) (admitted l s)"
proof -
  obtain c s1 where chk: "admit_checks env req p s = (c, s1)" by force
  obtain q l where acq: "Acquire (ce_ctxErr env) (ce_now env 0) (pv_limiter s) = (q, l)" by force
  show thesis
  proof (cases c)
    case (Some e)
    then show thesis using assms chk rejected by (simp add: ProviderInfer_def)
  next
    case None
    then have s1: "s1 = s" using chk admit_checks_passed by simp
    show thesis
    proof (cases q)
      case (Some e)
      then show thesis using assms chk acq None s1 refused by (simp add: ProviderInfer_def)
    next
      case q: None
      show thesis
        by (cases "ce_adapter env req")
          (use assms chk acq None q s1 failed granted in \<open>simp_all add: ProviderInfer_def Let_def admitted_def\<close>)
    qed
  qed
qed

section \<open>Reputation along a provider's calls\<close>

definition provider_rep_ok :: "ProviderService \<Rightarrow> bool" where
  "provider_rep_ok s = (\<forall>r. pv_peerReputation s = Some r \<longrightarrow> rep_inv r)"

lemma deltas_unit: "unit_score delta_policy" "unit_score delta_pow" "unit_score delta_backend" "unit_score delta_served"
proof -
  have "unit_score (round64 q)" if q: "0 \<le> q" "q \<le> 1" for q
  proof -
    obtain v where "round64 q = Fin v" "0 \<le> v" "v \<le> 1" "wf64 (Fin v)" by (rule round64_unit[OF q])
    then show ?thesis by auto
  qed
  then show "unit_score delta_policy" "unit_score delta_pow" "unit_score delta_backend" "unit_score delta_served"
    by (simp_all add: delta_policy_def delta_pow_def delta_backend_def delta_served_def)
qed

text \<open>The score the provider holds of a peer; without a tracker there is none to hold.\<close>

definition peer_score :: "ProviderService \<Rightarrow> string \<Rightarrow> f64 option" where
  "peer_score s q = map_option (\<lambda>r. Score r q) (pv_peerReputation s)"

lemma rep_ok_adjust:
  assumes "provider_rep_ok s" "unit_score d"
  shows "provider_rep_ok (rep_adjust Penalize p d s)" "provider_rep_ok (rep_adjust Reward p d s)"
  using assms rep.inv_penalize rep.inv_reward by (auto simp: provider_rep_ok_def rep_adjust_def split: option.splits)

lemma rep_ok_frame [simp]:
  "provider_rep_ok (set_limiter l s) = provider_rep_ok s" "provider_rep_ok (on_capability f s) = provider_rep_ok s"
  "provider_rep_ok (count_add d s) = provider_rep_ok s" "provider_rep_ok (earn_one s) = provider_rep_ok s"
  by (simp_all add: provider_rep_ok_def keeps)

lemma peer_score_frame [simp]:
  "peer_score (set_limiter l s) q = peer_score s q" "peer_score (on_capability f s) q = peer_score s q"
  "peer_score (count_add d s) q = peer_score s q" "peer_score (earn_one s) q = peer_score s q"
  by (simp_all add: peer_score_def keeps)

lemma peer_score_other:
  assumes "provider_rep_ok s" "q \<noteq> pc_ClientPeerID p"
  shows "peer_score (rep_adjust Penalize p d s) q = peer_score s q"
    "peer_score (rep_adjust Reward p d s) q = peer_score s q"
  using assms rep.penalize_other rep.reward_other
  by (auto simp: peer_score_def rep_adjust_def provider_rep_ok_def split: option.splits)

lemma peer_score_penalized:
  fixes p :: PeerContext
  assumes "provider_rep_ok s" "unit_score d" "peer_score s q = Some x"
  shows "\<exists>y. peer_score (rep_adjust Penalize p d s) q = Some y \<and> y \<le> x"
proof -
  obtain r where r: "pv_peerReputation s = Some r" "rep_inv r" "x = Score r q"
    using assms by (auto simp: peer_score_def provider_rep_ok_def)
  then have "x \<le> x" using rep.score_unit[OF r(2), of q] by (auto elim: unit_score_E)
  then show ?thesis
    using r rep.penalize_le[OF r(2) assms(2)] by (auto simp: peer_score_def rep_adjust_def)
qed

lemma admit_checks_state:
  assumes "admit_checks env req p s = (r, s')"
  shows "s' = s \<or> (\<exists>d. unit_score d \<and> s' = rep_adjust Penalize p d s)"
  using assms deltas_unit by (auto simp: admit_checks_def split: option.splits if_splits)

lemma rep_fail_backend:
  "pv_peerReputation (fail_backend env p t s) = pv_peerReputation (rep_adjust Penalize p delta_backend s)"
  by (simp add: fail_backend_def Let_def rep_adjust_def keeps split: option.splits)

lemma rep_cleanup:
  "pv_peerReputation (cleanup env p t s) = pv_peerReputation (rep_adjust Reward p delta_served s)"
  by (simp add: cleanup_def Let_def rep_adjust_def keeps split: option.splits)

lemma rep_ok_cong: "pv_peerReputation s = pv_peerReputation t \<Longrightarrow> provider_rep_ok s = provider_rep_ok t"
  by (simp add: provider_rep_ok_def)

lemma peer_score_cong: "pv_peerReputation s = pv_peerReputation t \<Longrightarrow> peer_score s = peer_score t"
  by (simp add: peer_score_def fun_eq_iff)

lemma serve_eq:
  "serve env env2 req p s = (r, s') \<Longrightarrow>
   \<exists>r1 s1. ProviderInfer env req p s = (r1, s1)
     \<and> (case r1 of Inl e \<Rightarrow> r = Inl e \<and> s' = s1 | Inr (res, t) \<Rightarrow> r = Inr res \<and> s' = cleanup env2 p t s1)"
  by (auto simp: serve_def split: prod.splits sum.splits)

text \<open>One served request: what happens to the tracker.\<close>

lemma Infer_rep_cases:
  assumes "ProviderInfer env req p s = (r, s')" "provider_rep_ok s"
  shows "provider_rep_ok s' \<and> (\<forall>q. q \<noteq> pc_ClientPeerID p \<longrightarrow> peer_score s' q = peer_score s q)"
  using assms(1)
proof (cases rule: ProviderInfer_cases)
  case (rejected e)
  then show ?thesis
    using admit_checks_state[OF rejected(1)] assms(2) by (auto simp: rep_ok_adjust peer_score_other)
next
  case (failed e l)
  have ok: "provider_rep_ok (admitted l s)" using assms(2) by (simp add: admitted_def)
  have sc: "peer_score (admitted l s) = peer_score s" by (rule peer_score_cong) (simp add: keeps)
  show ?thesis
    unfolding failed(5) rep_ok_cong[OF rep_fail_backend] peer_score_cong[OF rep_fail_backend]
    using ok by (simp add: rep_ok_adjust deltas_unit peer_score_other sc)
qed (use assms(2) in \<open>simp_all add: admitted_def\<close>)

lemma serve_rep_cases:
  assumes "serve env env2 req p s = (r, s')" "provider_rep_ok s"
  shows "provider_rep_ok s' \<and> (\<forall>q. q \<noteq> pc_ClientPeerID p \<longrightarrow> peer_score s' q = peer_score s q)"
proof -
  obtain r1 s1 where inf: "ProviderInfer env req p s = (r1, s1)"
    and s': "case r1 of Inl e \<Rightarrow> r = Inl e \<and> s' = s1 | Inr (res, t) \<Rightarrow> r = Inr res \<and> s' = cleanup env2 p t s1"
    using serve_eq[OF assms(1)] by blast
  note s1 = Infer_rep_cases[OF inf assms(2)]
  show ?thesis
  proof (cases r1)
    case (Inl e)
    then show ?thesis using s' s1 by simp
  next
    case (Inr x)
    obtain t where "s' = cleanup env2 p t s1" using s' Inr by (cases x) auto
    then show ?thesis
      using s1 rep_ok_cong[OF rep_cleanup] peer_score_cong[OF rep_cleanup]
      by (simp add: rep_ok_adjust deltas_unit peer_score_other)
  qed
qed

text \<open>A peer below the threshold is turned away, whatever the backend, and its score does not rise.\<close>

definition below_threshold :: "string \<Rightarrow> ProviderService \<Rightarrow> bool" where
  "below_threshold q s = (q \<noteq> [] \<and> MinPeerReputation (pv_policy s) > Fin 0
     \<and> (\<exists>x. peer_score s q = Some x \<and> x < MinPeerReputation (pv_policy s)))"

lemma below_admit:
  assumes "below_threshold (pc_ClientPeerID p) s"
  shows "\<exists>e. fst (admit_checks env req p s) = Some e"
  using assms by (auto simp: admit_checks_outcome below_threshold_def trusted_def peer_score_def)

lemma below_adjust:
  assumes b: "below_threshold q s" and ok: "provider_rep_ok s" and d: "unit_score d"
  shows "below_threshold q (rep_adjust Penalize p d s)" "pc_ClientPeerID p \<noteq> q \<Longrightarrow> below_threshold q (rep_adjust Reward p d s)"
proof -
  obtain x where x: "peer_score s q = Some x" "x < MinPeerReputation (pv_policy s)"
    using b by (auto simp: below_threshold_def)
  obtain y where "peer_score (rep_adjust Penalize p d s) q = Some y" "y \<le> x"
    using peer_score_penalized[OF ok d x(1)] by blast
  then show "below_threshold q (rep_adjust Penalize p d s)"
    using b x f64_le_less_trans[of y x] by (auto simp: below_threshold_def keeps)
  show "pc_ClientPeerID p \<noteq> q \<Longrightarrow> below_threshold q (rep_adjust Reward p d s)"
    using b peer_score_other(2)[OF ok] by (auto simp: below_threshold_def keeps)
qed

lemma below_cong: "pv_policy t = pv_policy s \<Longrightarrow> peer_score t q = peer_score s q \<Longrightarrow> below_threshold q t = below_threshold q s"
  by (simp add: below_threshold_def)

lemma below_frame [simp]:
  "below_threshold q (set_limiter l s) = below_threshold q s" "below_threshold q (on_capability f s) = below_threshold q s"
  "below_threshold q (count_add d s) = below_threshold q s" "below_threshold q (earn_one s) = below_threshold q s"
  by (rule below_cong; simp add: keeps)+

section \<open>What a served request leaves behind\<close>

text \<open>After a call and its cleanup the slot is free again and the counter is back.\<close>

lemma serve_restores:
  assumes sv: "serve env env2 req p s = (r, s')" and inv: "limiter_inv (pv_limiter s)"
  shows "inFlight (pv_limiter s') = inFlight (pv_limiter s) \<and> pv_inFlightCount s' = pv_inFlightCount s
     \<and> limiter_inv (pv_limiter s')"
proof -
  obtain r1 s1 where inf: "ProviderInfer env req p s = (r1, s1)"
    and s': "case r1 of Inl e \<Rightarrow> r = Inl e \<and> s' = s1 | Inr (res, t) \<Rightarrow> r = Inr res \<and> s' = cleanup env2 p t s1"
    using serve_eq[OF sv] by blast
  have n0: "0 \<le> inFlight (pv_limiter s)" using inv by (simp add: limiter_inv_def)
  note acq = lim.inv_acquire[OF inv]
  from inf show ?thesis
  proof (cases rule: ProviderInfer_cases)
    case (rejected e)
    then show ?thesis using s' inv admit_checks_frame[OF rejected(1)] by simp
  next
    case (refused e l)
    then show ?thesis using s' acq[OF refused(2)] lim.acquire_refused[OF inv refused(2)] by (simp add: keeps)
  next
    case (failed e l)
    then show ?thesis
      using s' lim.inv_release[OF acq[OF failed(2)]] lim.acquire_release[OF inv n0 failed(2)] by (simp add: keeps)
  next
    case (granted st l)
    then show ?thesis
      using s' lim.inv_release[OF acq[OF granted(2)]] lim.acquire_release[OF inv n0 granted(2)] by (simp add: keeps)
  qed
qed

text \<open>A credit is earned exactly for a request that was served.\<close>

lemma serve_earns:
  assumes "serve env env2 req p s = (r, s')"
  shows "pv_creditLedger s' = (case r of Inl e \<Rightarrow> pv_creditLedger s | Inr res \<Rightarrow> map_option (Earn 1) (pv_creditLedger s))"
proof -
  obtain r1 s1 where inf: "ProviderInfer env req p s = (r1, s1)"
    and s': "case r1 of Inl e \<Rightarrow> r = Inl e \<and> s' = s1 | Inr (res, t) \<Rightarrow> r = Inr res \<and> s' = cleanup env2 p t s1"
    using serve_eq[OF assms] by blast
  from inf show ?thesis
    using s' by (cases rule: ProviderInfer_cases) (auto simp: keeps dest: admit_checks_frame)
qed

text \<open>Only a granted request writes the queue depth; the error path of the backend leaves it.\<close>

lemma Infer_queue_depth:
  assumes "ProviderInfer env req p s = (r, s')"
  shows "QueueDepth (doc (pv_capability s')) =
    (case r of Inl e \<Rightarrow> QueueDepth (doc (pv_capability s)) | Inr x \<Rightarrow> sint (pv_inFlightCount s'))"
  using assms by (cases rule: ProviderInfer_cases) (auto simp: keeps queue_depth_def dest: admit_checks_frame)

section \<open>A provider over many requests\<close>

text \<open>Requests served one after the other, each with the readings of its two phases.\<close>

type_synonym call = "CallEnv \<times> CallEnv \<times> ChatCompletionRequest \<times> PeerContext"

fun serve_all :: "call list \<Rightarrow> ProviderService \<Rightarrow> (go_error + InferenceResult) list \<times> ProviderService" where
  "serve_all [] s = ([], s)"
| "serve_all ((env, env2, req, p) # calls) s =
     (let (r, s1) = serve env env2 req p s; (rs, s2) = serve_all calls s1 in (r # rs, s2))"

definition served :: "(go_error + InferenceResult) list \<Rightarrow> nat" where
  "served rs = length (filter (\<lambda>r. \<not> isl r) rs)"

lemma serve_all_account:
  "limiter_inv (pv_limiter s) \<Longrightarrow> serve_all calls s = (rs, s') \<Longrightarrow>
   limiter_inv (pv_limiter s') \<and> inFlight (pv_limiter s') = inFlight (pv_limiter s)
   \<and> pv_inFlightCount s' = pv_inFlightCount s
   \<and> pv_creditLedger s' = map_option ((Earn 1) ^^ served rs) (pv_creditLedger s)"
proof (induction calls s arbitrary: rs s' rule: serve_all.induct)
  case (1 s)
  then show ?case by (simp add: served_def option.map_id0[unfolded id_def])
next
  case (2 env env2 req p calls s)
  obtain r s1 where sv: "serve env env2 req p s = (r, s1)" by force
  obtain rs2 where rest: "serve_all calls s1 = (rs2, s')" and rs: "rs = r # rs2"
    using 2(3) by (auto simp: sv split: prod.splits)
  note one = serve_restores[OF sv 2(2)] serve_earns[OF sv]
  show ?case
    using 2(1)[OF sv[symmetric] refl _ rest] one
    by (cases r) (auto simp: rs served_def option.map_comp comp_def funpow_swap1)
qed

text \<open>However many requests a provider serves one after the other, and however each of them ends,
  the limiter's slots and the request counter are back where they were, the limiter is still
  well-formed, and the ledger has earned one credit for each request answered and none for the
  others.\<close>

theorem serving_balances:
  assumes "limiter_inv (pv_limiter s)" "serve_all calls s = (rs, s')"
  shows "limiter_inv (pv_limiter s') \<and> inFlight (pv_limiter s') = inFlight (pv_limiter s)
    \<and> pv_inFlightCount s' = pv_inFlightCount s
    \<and> pv_creditLedger s' = map_option ((Earn 1) ^^ served rs) (pv_creditLedger s)"
  by (rule serve_all_account[OF assms])

text \<open>A provider for the witnesses: two slots, no policy but a reputation threshold of one half.\<close>

definition demo_policy :: ProviderPolicy where
  "demo_policy = \<lparr>MaxTokensPerRequest = 0, NightOnly = False, NightStartHour = 22, NightEndHour = 6, IdleOnly = False,
     MaxLoad1m = Fin 1, PoWDifficulty = 0, MinPeerReputation = Fin (1/2)\<rparr>"

definition demo_provider :: "(string \<times> f64) list \<Rightarrow> ProviderService" where
  "demo_provider scs = NewProviderService (NewLimiter 2 (Fin 20) 5 0) (NewCapabilityState zero_doc 0) demo_policy
     (Some (NewCreditLedger 7)) (Some (NewReputationTracker\<lparr>scores := scs\<rparr>))"

definition demo_env :: CallEnv where
  "demo_env = \<lparr>ce_now = (\<lambda>n. int n), ce_hour = 12, ce_probe = Inr (Fin 0), ce_ctxErr = None,
     ce_adapter = (\<lambda>req. Inr \<lparr>st_StatusCode = 200, st_ContentType = [], st_Body = ''hi''\<rparr>)\<rparr>"

definition demo_peer :: PeerContext where
  "demo_peer = \<lparr>pc_ClientPeerID = ''c'', pc_ClientName = [], pc_PoWNonce = 0\<rparr>"

lemma demo_limiter [simp]: "limiter_inv (pv_limiter (demo_provider scs))"
  by (simp add: demo_provider_def NewProviderService_def limiter_inv_new)

lemma serving_balances_witness:
  "\<exists>rs s'. serve_all [(demo_env, demo_env, zero_request, demo_peer)] (demo_provider []) = (rs, s')
     \<and> limiter_inv (pv_limiter s') \<and> inFlight (pv_limiter s') = 0"
proof -
  obtain rs s' where run: "serve_all [(demo_env, demo_env, zero_request, demo_peer)] (demo_provider []) = (rs, s')" by force
  have "inFlight (pv_limiter (demo_provider [])) = 0" by (simp add: demo_provider_def NewProviderService_def NewLimiter_def)
  then show ?thesis using serving_balances[OF demo_limiter run] run by auto
qed

end
