(* ===== verification/Client.thy ===== *)
theory Client
  imports Credits Routing Pow Provider
begin

text \<open>
  The client side (\<^verbatim>\<open>internal/app/services.go\<close>, \<open>ClientService\<close>): a request is paid for, peers are
  discovered and ranked, the sticky choice goes first, a proof of work is made, and the peers
  are tried in order until one answers. Also the peer listing and the routing settings an
  operator changes at run time. What discovery and the gateway answer, and the clock, are
  arguments (\<open>ClientEnv\<close>); the gateway may answer differently at each attempt.
\<close>

section \<open>State\<close>

record GatewayResponse =
  gr_StatusCode :: int
  gr_ContentType :: string
  gr_Body :: string

record ClientOptions =
  co_PeerID :: string
  co_PeerName :: string
  co_RoutingPolicy :: string
  co_FavoritePeers :: "string list"
  co_BlockedPeers :: "string list"
  co_AllowedPeers :: "string list"
  co_StickyPeerTTL :: duration
  co_PoWDifficulty :: int
  co_PoWMaxIters :: u64
  co_CreditCost :: i64

record stickyChoice =
  sk_peerID :: string
  sk_expires :: gtime

text \<open>The two pointers of the options to shared objects (credits, reputation) are fields of their own.\<close>

record ClientService =
  cs_opts :: ClientOptions
  cs_weights :: RoutingWeights
  cs_known :: "string set"
  cs_sticky :: "(string, stickyChoice) gomap"
  cs_ledger :: "CreditLedger option"
  cs_reputation :: "ReputationTracker option"

record RoutingSettings =
  rs_RoutingPolicy :: string
  rs_FavoritePeers :: "string list option"
  rs_BlockedPeers :: "string list option"
  rs_AllowedPeers :: "string list option"
  rs_StickyPeerTTL :: duration

type_synonym gateway = "string \<Rightarrow> ChatCompletionRequest \<Rightarrow> PeerContext \<Rightarrow> go_error + GatewayResponse"

record ClientEnv =
  cl_now :: "nat \<Rightarrow> gtime"
  cl_discovery :: "go_error + CapabilityDocument list"
  cl_gateway :: "nat \<Rightarrow> gateway"

definition NewClientService ::
  "RoutingWeights \<Rightarrow> ClientOptions \<Rightarrow> CreditLedger option \<Rightarrow> ReputationTracker option \<Rightarrow> ClientService" where
  "NewClientService weights opts ledger reputation =
     (let opts = (if co_PoWMaxIters opts = 0 then opts\<lparr>co_PoWMaxIters := 2000000\<rparr> else opts);
          opts = (if co_CreditCost opts = 0 then opts\<lparr>co_CreditCost := 1\<rparr> else opts)
      in \<lparr>cs_opts = opts, cs_weights = weights, cs_known = {}, cs_sticky = [], cs_ledger = ledger,
          cs_reputation = reputation\<rparr>)"

definition toSet :: "string list \<Rightarrow> string set" where
  "toSet items = set (filter (\<lambda>i. i \<noteq> []) items)"

section \<open>Sticky peers\<close>

definition markKnown :: "string \<Rightarrow> ClientService \<Rightarrow> ClientService" where
  "markKnown peerID s = s\<lparr>cs_known := insert peerID (cs_known s)\<rparr>"

definition updateSticky :: "gtime \<Rightarrow> string \<Rightarrow> string \<Rightarrow> ClientService \<Rightarrow> ClientService" where
  "updateSticky now modelName peerID s =
     (if co_StickyPeerTTL (cs_opts s) \<le> 0 then s
      else s\<lparr>cs_sticky := map_put modelName
          \<lparr>sk_peerID = peerID, sk_expires = time_add now (co_StickyPeerTTL (cs_opts s))\<rparr> (cs_sticky s)\<rparr>)"

text \<open>The loop that looks for the sticky peer at index \<open>i\<close> and moves it to the front.\<close>

fun bring_forward :: "string \<Rightarrow> PeerScore list \<Rightarrow> PeerScore list \<Rightarrow> PeerScore list" where
  "bring_forward peerID before [] = before"
| "bring_forward peerID before (c # rest) =
     (if PeerID (ps_Capability c) = peerID then c # before @ rest
      else bring_forward peerID (before @ [c]) rest)"

definition applyStickyPriority ::
  "gtime \<Rightarrow> string \<Rightarrow> PeerScore list \<Rightarrow> ClientService \<Rightarrow> PeerScore list \<times> ClientService" where
  "applyStickyPriority now modelName ranked s =
     (if co_StickyPeerTTL (cs_opts s) \<le> 0 \<or> length ranked < 2 then (ranked, s)
      else case map_get (cs_sticky s) modelName of
          None \<Rightarrow> (ranked, s)
        | Some ch \<Rightarrow>
            if time_after now (sk_expires ch) then (ranked, s\<lparr>cs_sticky := map_del modelName (cs_sticky s)\<rparr>)
            else (bring_forward (sk_peerID ch) [] ranked, s))"

section \<open>Inference\<close>

definition delta_failed :: f64 where "delta_failed = round64 (1/10)"
definition delta_answered :: f64 where "delta_answered = round64 (2/100)"

definition client_rep ::
  "(string \<Rightarrow> f64 \<Rightarrow> ReputationTracker \<Rightarrow> ReputationTracker) \<Rightarrow> string \<Rightarrow> f64 \<Rightarrow> ClientService \<Rightarrow> ClientService" where
  "client_rep how peerID delta s = s\<lparr>cs_reputation := map_option (how peerID delta) (cs_reputation s)\<rparr>"

text \<open>The local reputation caps the reliability a peer claims.\<close>

definition cap_reliability :: "ReputationTracker option \<Rightarrow> CapabilityDocument \<Rightarrow> CapabilityDocument" where
  "cap_reliability rep c =
     (case rep of
        None \<Rightarrow> c
      | Some r \<Rightarrow> if Score r (PeerID c) < Reliability c then c\<lparr>Reliability := Score r (PeerID c)\<rparr> else c)"

text \<open>What the requests of the gateway change (\<open>'w\<close>: the network and the nodes behind it).\<close>

type_synonym 'w gateway_on = "string \<Rightarrow> ChatCompletionRequest \<Rightarrow> PeerContext \<Rightarrow> 'w \<Rightarrow> (go_error + GatewayResponse) \<times> 'w"

text \<open>The loop over the candidates, with the index of the attempt and \<open>lastErr\<close>.\<close>

fun try_peers_on ::
  "(nat \<Rightarrow> 'w gateway_on) \<Rightarrow> gtime \<Rightarrow> ChatCompletionRequest \<Rightarrow> PeerContext \<Rightarrow> nat \<Rightarrow> go_error option
    \<Rightarrow> PeerScore list \<Rightarrow> ClientService \<Rightarrow> 'w \<Rightarrow> ((go_error + InferenceResult) \<times> ClientService) \<times> 'w" where
  "try_peers_on gw now req pc k lastErr [] s w =
     ((Inl (ErrWrap ''all peers failed: '' (case lastErr of None \<Rightarrow> ErrNoPeers | Some e \<Rightarrow> e)), s), w)"
| "try_peers_on gw now req pc k lastErr (c # cs) s w =
     (let p = PeerID (ps_Capability c) in
      case gw k (GatewayURL (ps_Capability c)) req pc w of
        (Inl e, w) \<Rightarrow> try_peers_on gw now req pc (Suc k) (Some e) cs (client_rep Penalize p delta_failed s) w
      | (Inr res, w) \<Rightarrow>
          let s = client_rep Reward p delta_answered s;
              s = markKnown p s;
              s = updateSticky now (req_Model req) p s
          in ((Inr \<lparr>ir_StatusCode = gr_StatusCode res, ir_ContentType = gr_ContentType res, ir_Body = gr_Body res\<rparr>, s), w))"

text \<open>Over a network without a state: \<open>gw k\<close> is what the \<open>k\<close>-th attempt is answered.\<close>

definition asked_of :: "(nat \<Rightarrow> gateway) \<Rightarrow> nat \<Rightarrow> unit gateway_on" where
  "asked_of gw k url req pc w = (gw k url req pc, w)"

definition try_peers ::
  "(nat \<Rightarrow> gateway) \<Rightarrow> gtime \<Rightarrow> ChatCompletionRequest \<Rightarrow> PeerContext \<Rightarrow> nat \<Rightarrow> go_error option
    \<Rightarrow> PeerScore list \<Rightarrow> ClientService \<Rightarrow> (go_error + InferenceResult) \<times> ClientService" where
  "try_peers gw now req pc k lastErr cs s = fst (try_peers_on (asked_of gw) now req pc k lastErr cs s ())"

lemma try_peers_simps [simp]:
  "try_peers gw now req pc k lastErr [] s =
     (Inl (ErrWrap ''all peers failed: '' (case lastErr of None \<Rightarrow> ErrNoPeers | Some e \<Rightarrow> e)), s)"
  "try_peers gw now req pc k lastErr (c # cs) s =
     (let p = PeerID (ps_Capability c) in
      case gw k (GatewayURL (ps_Capability c)) req pc of
        Inl e \<Rightarrow> try_peers gw now req pc (Suc k) (Some e) cs (client_rep Penalize p delta_failed s)
      | Inr res \<Rightarrow>
          let s = client_rep Reward p delta_answered s;
              s = markKnown p s;
              s = updateSticky now (req_Model req) p s
          in (Inr \<lparr>ir_StatusCode = gr_StatusCode res, ir_ContentType = gr_ContentType res, ir_Body = gr_Body res\<rparr>, s))"
  by (simp_all add: try_peers_def asked_of_def Let_def split: sum.split)

definition charge :: "ClientService \<Rightarrow> bool \<times> ClientService" where
  "charge s = (case cs_ledger s of
     None \<Rightarrow> (True, s)
   | Some l \<Rightarrow> (let (ok, l) = Spend (co_CreditCost (cs_opts s)) l in (ok, s\<lparr>cs_ledger := Some l\<rparr>)))"

definition preferences :: "ClientService \<Rightarrow> Preferences" where
  "preferences s =
     \<lparr>pref_Policy = co_RoutingPolicy (cs_opts s), pref_Favorites = toSet (co_FavoritePeers (cs_opts s)),
      pref_Known = cs_known s, pref_Allowed = toSet (co_AllowedPeers (cs_opts s)),
      pref_Blocked = toSet (co_BlockedPeers (cs_opts s))\<rparr>"

definition candidates ::
  "sorter \<Rightarrow> CapabilityDocument list \<Rightarrow> ChatCompletionRequest \<Rightarrow> ClientService \<Rightarrow> PeerScore list" where
  "candidates srt caps req s =
     RankWithPreferences srt (cs_weights s) (map (cap_reliability (cs_reputation s)) caps) req (preferences s)"

definition ClientInfer_on ::
  "sorter \<Rightarrow> ClientEnv \<Rightarrow> (nat \<Rightarrow> 'w gateway_on) \<Rightarrow> ChatCompletionRequest \<Rightarrow> ClientService \<Rightarrow> 'w
    \<Rightarrow> ((go_error + InferenceResult) \<times> ClientService) \<times> 'w" where
  "ClientInfer_on srt env gw req s w =
     (let opts = cs_opts s; (paid, s) = charge s in
      if \<not> paid then ((Inl (ErrText ''insufficient credits''), s), w)
      else case cl_discovery env of
          Inl e \<Rightarrow> ((Inl (ErrWrap ''discover peers: '' e), s), w)
        | Inr caps \<Rightarrow>
            let ranked = candidates srt caps req s in
            if ranked = [] then ((Inl ErrNoPeers, s), w)
            else let (ranked, s) = applyStickyPriority (cl_now env 0) (req_Model req) ranked s in
              if co_PoWDifficulty opts > 0 \<and> co_PeerID opts = []
              then ((Inl (ErrText ''pow enabled but client peer id is empty''), s), w)
              else let nonce = (if co_PoWDifficulty opts > 0
                                then fst (SolvePoW (co_PeerID opts) (req_Model req) (co_PoWDifficulty opts) (co_PoWMaxIters opts))
                                else 0);
                       pc = \<lparr>pc_ClientPeerID = co_PeerID opts, pc_ClientName = co_PeerName opts, pc_PoWNonce = nonce\<rparr>
                   in try_peers_on gw (cl_now env 1) req pc 0 None ranked s w)"

definition ClientInfer ::
  "sorter \<Rightarrow> ClientEnv \<Rightarrow> ChatCompletionRequest \<Rightarrow> ClientService \<Rightarrow> (go_error + InferenceResult) \<times> ClientService" where
  "ClientInfer srt env req s = fst (ClientInfer_on srt env (asked_of (cl_gateway env)) req s ())"

lemma ClientInfer_eq:
  "ClientInfer srt env req s =
     (let opts = cs_opts s; (paid, s) = charge s in
      if \<not> paid then (Inl (ErrText ''insufficient credits''), s)
      else case cl_discovery env of
          Inl e \<Rightarrow> (Inl (ErrWrap ''discover peers: '' e), s)
        | Inr caps \<Rightarrow>
            let ranked = candidates srt caps req s in
            if ranked = [] then (Inl ErrNoPeers, s)
            else let (ranked, s) = applyStickyPriority (cl_now env 0) (req_Model req) ranked s in
              if co_PoWDifficulty opts > 0 \<and> co_PeerID opts = []
              then (Inl (ErrText ''pow enabled but client peer id is empty''), s)
              else let nonce = (if co_PoWDifficulty opts > 0
                                then fst (SolvePoW (co_PeerID opts) (req_Model req) (co_PoWDifficulty opts) (co_PoWMaxIters opts))
                                else 0);
                       pc = \<lparr>pc_ClientPeerID = co_PeerID opts, pc_ClientName = co_PeerName opts, pc_PoWNonce = nonce\<rparr>
                   in try_peers (cl_gateway env) (cl_now env 1) req pc 0 None ranked s)"
  by (simp add: ClientInfer_def ClientInfer_on_def try_peers_def Let_def split: prod.split sum.split)

section \<open>Peer listing\<close>

definition self_doc :: "ClientOptions \<Rightarrow> gtime \<Rightarrow> CapabilityDocument" where
  "self_doc o' now = zero_doc\<lparr>PeerID := co_PeerID o', Self := True, NodeName := co_PeerName o',
     GatewayURL := ''libp2p://'' @ co_PeerID o', UpdatedAt := now\<rparr>"

definition keep_newest :: "string \<Rightarrow> CapabilityDocument \<Rightarrow> (string, CapabilityDocument) gomap \<Rightarrow> (string, CapabilityDocument) gomap" where
  "keep_newest self c m =
     (let c = (if PeerID c = self then c\<lparr>Self := True\<rparr> else c) in
      case map_get m (PeerID c) of
        None \<Rightarrow> map_put (PeerID c) c m
      | Some prev \<Rightarrow> if time_after (UpdatedAt c) (UpdatedAt prev) then map_put (PeerID c) c m else m)"

definition ListPeers ::
  "((CapabilityDocument \<Rightarrow> CapabilityDocument \<Rightarrow> bool) \<Rightarrow> CapabilityDocument list \<Rightarrow> CapabilityDocument list)
    \<Rightarrow> ((string \<times> CapabilityDocument) list \<Rightarrow> (string \<times> CapabilityDocument) list)
    \<Rightarrow> gtime \<Rightarrow> go_error + CapabilityDocument list \<Rightarrow> ClientService \<Rightarrow> go_error + CapabilityDocument list" where
  "ListPeers srt rng now disc s =
     (let self = co_PeerID (cs_opts s) in
      case disc of
        Inl e \<Rightarrow> if self \<noteq> [] then Inr [self_doc (cs_opts s) now] else Inl e
      | Inr caps \<Rightarrow>
          let byPeer = fold (keep_newest self) caps [];
              byPeer = (if self \<noteq> [] \<and> map_get byPeer self = None
                        then map_put self (self_doc (cs_opts s) now) byPeer else byPeer);
              out = map snd (rng byPeer)
          in Inr (srt (\<lambda>a b. time_after (UpdatedAt a) (UpdatedAt b)) out))"

section \<open>Routing settings\<close>

definition copy_list :: "string list \<Rightarrow> string list option" where
  "copy_list xs = (if xs = [] then None else Some xs)"

definition GetRoutingSettings :: "ClientService \<Rightarrow> RoutingSettings" where
  "GetRoutingSettings s =
     \<lparr>rs_RoutingPolicy = co_RoutingPolicy (cs_opts s), rs_FavoritePeers = copy_list (co_FavoritePeers (cs_opts s)),
      rs_BlockedPeers = copy_list (co_BlockedPeers (cs_opts s)), rs_AllowedPeers = copy_list (co_AllowedPeers (cs_opts s)),
      rs_StickyPeerTTL = co_StickyPeerTTL (cs_opts s)\<rparr>"

definition UpdateRoutingSettings :: "RoutingSettings \<Rightarrow> ClientService \<Rightarrow> ClientService" where
  "UpdateRoutingSettings in' s =
     (let opts = cs_opts s;
          opts = (if rs_RoutingPolicy in' \<noteq> [] then opts\<lparr>co_RoutingPolicy := rs_RoutingPolicy in'\<rparr> else opts);
          opts = (case rs_FavoritePeers in' of None \<Rightarrow> opts | Some l \<Rightarrow> opts\<lparr>co_FavoritePeers := l\<rparr>);
          opts = (case rs_BlockedPeers in' of None \<Rightarrow> opts | Some l \<Rightarrow> opts\<lparr>co_BlockedPeers := l\<rparr>);
          opts = (case rs_AllowedPeers in' of None \<Rightarrow> opts | Some l \<Rightarrow> opts\<lparr>co_AllowedPeers := l\<rparr>);
          opts = (if rs_StickyPeerTTL in' \<ge> 0 then opts\<lparr>co_StickyPeerTTL := rs_StickyPeerTTL in'\<rparr> else opts)
      in s\<lparr>cs_opts := opts\<rparr>)"

definition SelectPeerManual :: "string \<Rightarrow> ClientService \<Rightarrow> ClientService" where
  "SelectPeerManual peerID s = s\<lparr>cs_opts := (cs_opts s)\<lparr>co_RoutingPolicy := ''manual'', co_AllowedPeers := [peerID]\<rparr>\<rparr>"

section \<open>The sticky choice goes first\<close>

text \<open>What the search computes: the first entry of the peer, then the others in their order.\<close>

definition peer_first :: "string \<Rightarrow> PeerScore list \<Rightarrow> PeerScore list" where
  "peer_first q xs = (case dropWhile (\<lambda>c. PeerID (ps_Capability c) \<noteq> q) xs of
     [] \<Rightarrow> xs | c # rest \<Rightarrow> c # takeWhile (\<lambda>c. PeerID (ps_Capability c) \<noteq> q) xs @ rest)"

lemma bring_forward_append:
  "bring_forward q b xs = (case dropWhile (\<lambda>c. PeerID (ps_Capability c) \<noteq> q) xs of
     [] \<Rightarrow> b @ xs | c # rest \<Rightarrow> c # b @ takeWhile (\<lambda>c. PeerID (ps_Capability c) \<noteq> q) xs @ rest)"
proof (induction xs arbitrary: b)
  case (Cons c xs)
  show ?case
    by (cases "PeerID (ps_Capability c) = q"; cases "dropWhile (\<lambda>c. PeerID (ps_Capability c) \<noteq> q) xs")
      (use Cons.IH[of "b @ [c]"] in \<open>simp_all del: dropWhile_eq_Nil_conv\<close>)
qed simp

lemma bring_forward_eq: "bring_forward q [] xs = peer_first q xs"
  by (simp only: bring_forward_append peer_first_def append_Nil)

lemma peer_first_mset: "mset (peer_first q xs) = mset xs"
proof (cases "dropWhile (\<lambda>c. PeerID (ps_Capability c) \<noteq> q) xs")
  case (Cons c rest)
  have "mset xs = mset (takeWhile (\<lambda>c. PeerID (ps_Capability c) \<noteq> q) xs @ dropWhile (\<lambda>c. PeerID (ps_Capability c) \<noteq> q) xs)"
    by simp
  then show ?thesis unfolding peer_first_def Cons by simp
qed (simp add: peer_first_def del: dropWhile_eq_Nil_conv)

lemma peer_first_hd:
  assumes "\<exists>c\<in>set xs. PeerID (ps_Capability c) = q"
  shows "peer_first q xs \<noteq> [] \<and> PeerID (ps_Capability (hd (peer_first q xs))) = q"
proof (cases "dropWhile (\<lambda>c. PeerID (ps_Capability c) \<noteq> q) xs")
  case Nil
  then show ?thesis using assms by (auto simp: dropWhile_eq_Nil_conv)
next
  case (Cons c rest)
  then have "PeerID (ps_Capability c) = q" using hd_dropWhile[of "\<lambda>c. PeerID (ps_Capability c) \<noteq> q" xs] by simp
  then show ?thesis by (simp add: peer_first_def Cons)
qed

lemma peer_first_others:
  "filter (\<lambda>c. PeerID (ps_Capability c) \<noteq> q) (peer_first q xs) = filter (\<lambda>c. PeerID (ps_Capability c) \<noteq> q) xs"
proof (cases "dropWhile (\<lambda>c. PeerID (ps_Capability c) \<noteq> q) xs")
  case (Cons c rest)
  have q: "PeerID (ps_Capability c) = q" using hd_dropWhile[of "\<lambda>c. PeerID (ps_Capability c) \<noteq> q" xs] Cons by simp
  have "filter (\<lambda>c. PeerID (ps_Capability c) \<noteq> q) xs =
    filter (\<lambda>c. PeerID (ps_Capability c) \<noteq> q) (takeWhile (\<lambda>c. PeerID (ps_Capability c) \<noteq> q) xs @ c # rest)"
    using Cons by (metis takeWhile_dropWhile_id)
  then show ?thesis using q by (simp add: peer_first_def Cons)
qed (simp add: peer_first_def del: dropWhile_eq_Nil_conv)

lemma applySticky_ranked:
  "fst (applyStickyPriority now m ranked s) = ranked
   \<or> (\<exists>ch. map_get (cs_sticky s) m = Some ch \<and> fst (applyStickyPriority now m ranked s) = peer_first (sk_peerID ch) ranked)"
  by (auto simp: applyStickyPriority_def bring_forward_eq split: option.splits)

lemma applySticky_mset: "mset (fst (applyStickyPriority now m ranked s)) = mset ranked"
  using applySticky_ranked[of now m ranked s] by (auto simp: peer_first_mset)

lemma applySticky_frame [keeps]:
  "cs_opts (snd (applyStickyPriority now m ranked s)) = cs_opts s"
  "cs_ledger (snd (applyStickyPriority now m ranked s)) = cs_ledger s"
  "cs_reputation (snd (applyStickyPriority now m ranked s)) = cs_reputation s"
  "cs_known (snd (applyStickyPriority now m ranked s)) = cs_known s"
  "cs_weights (snd (applyStickyPriority now m ranked s)) = cs_weights s"
  by (auto simp: applyStickyPriority_def split: option.splits)

lemma sticky_frame [keeps]:
  "cs_opts (updateSticky now m p s) = cs_opts s" "cs_ledger (updateSticky now m p s) = cs_ledger s"
  "cs_reputation (updateSticky now m p s) = cs_reputation s" "cs_known (updateSticky now m p s) = cs_known s"
  "cs_weights (updateSticky now m p s) = cs_weights s"
  "cs_opts (markKnown p s) = cs_opts s" "cs_ledger (markKnown p s) = cs_ledger s"
  "cs_reputation (markKnown p s) = cs_reputation s" "cs_known (markKnown p s) = insert p (cs_known s)"
  "cs_weights (markKnown p s) = cs_weights s" "cs_sticky (markKnown p s) = cs_sticky s"
  "cs_opts (client_rep h p d s) = cs_opts s" "cs_ledger (client_rep h p d s) = cs_ledger s"
  "cs_known (client_rep h p d s) = cs_known s" "cs_sticky (client_rep h p d s) = cs_sticky s"
  "cs_weights (client_rep h p d s) = cs_weights s"
  "cs_reputation (client_rep h p d s) = map_option (h p d) (cs_reputation s)"
  by (simp_all add: updateSticky_def markKnown_def client_rep_def)

section \<open>The candidate loop\<close>

definition answer_of :: "GatewayResponse \<Rightarrow> InferenceResult" where
  "answer_of r = \<lparr>ir_StatusCode = gr_StatusCode r, ir_ContentType = gr_ContentType r, ir_Body = gr_Body r\<rparr>"

text \<open>Attempt \<open>k + i\<close> is made on the \<open>i\<close>-th candidate; these are the ones that failed.\<close>

definition all_failed :: "(nat \<Rightarrow> gateway) \<Rightarrow> ChatCompletionRequest \<Rightarrow> PeerContext \<Rightarrow> nat \<Rightarrow> PeerScore list \<Rightarrow> bool" where
  "all_failed gw req pc k cs = (\<forall>i < length cs. \<exists>e. gw (k + i) (GatewayURL (ps_Capability (cs ! i))) req pc = Inl e)"

definition failure_of :: "(nat \<Rightarrow> gateway) \<Rightarrow> ChatCompletionRequest \<Rightarrow> PeerContext \<Rightarrow> nat \<Rightarrow> PeerScore list \<Rightarrow> go_error \<Rightarrow> bool" where
  "failure_of gw req pc k cs e =
     (cs \<noteq> [] \<and> gw (k + length cs - 1) (GatewayURL (ps_Capability (last cs))) req pc = Inl e)"

lemma all_failed_Cons:
  "all_failed gw req pc k (c # cs) \<longleftrightarrow>
     (\<exists>e. gw k (GatewayURL (ps_Capability c)) req pc = Inl e) \<and> all_failed gw req pc (Suc k) cs"
  by (auto simp: all_failed_def nth_Cons less_Suc_eq_0_disj split: nat.splits)

lemma try_peers_success:
  assumes "try_peers gw now req pc k le cs s = (Inr res, s')"
  shows "\<exists>failed c rest answer. cs = failed @ c # rest \<and> all_failed gw req pc k failed
     \<and> gw (k + length failed) (GatewayURL (ps_Capability c)) req pc = Inr answer \<and> res = answer_of answer
     \<and> PeerID (ps_Capability c) \<in> cs_known s'"
  using assms
proof (induction cs arbitrary: k le s)
  case (Cons c cs)
  show ?case
  proof (cases "gw k (GatewayURL (ps_Capability c)) req pc")
    case (Inl e)
    then obtain failed c' rest answer where
      "cs = failed @ c' # rest" "all_failed gw req pc (Suc k) failed"
      "gw (Suc k + length failed) (GatewayURL (ps_Capability c')) req pc = Inr answer" "res = answer_of answer"
      "PeerID (ps_Capability c') \<in> cs_known s'"
      using Cons.IH[of "Suc k" "Some e" "client_rep Penalize (PeerID (ps_Capability c)) delta_failed s"] Cons.prems
      by (auto simp: Let_def)
    then show ?thesis
      using Inl by (intro exI[of _ "c # failed"]) (auto simp: all_failed_Cons)
  next
    case (Inr answer)
    then show ?thesis
      using Cons.prems by (intro exI[of _ "[]"]) (auto simp: all_failed_def answer_of_def Let_def keeps)
  qed
qed simp

lemma try_peers_failure:
  assumes "try_peers gw now req pc k le cs s = (Inl e, s')"
  shows "all_failed gw req pc k cs \<and> e = ErrWrap ''all peers failed: ''
      (if cs = [] then case le of None \<Rightarrow> ErrNoPeers | Some x \<Rightarrow> x
       else projl (gw (k + length cs - 1) (GatewayURL (ps_Capability (last cs))) req pc))"
  using assms
proof (induction cs arbitrary: k le s)
  case (Cons c cs)
  show ?case
  proof (cases "gw k (GatewayURL (ps_Capability c)) req pc")
    case (Inl x)
    then show ?thesis
      using Cons.IH[of "Suc k" "Some x" "client_rep Penalize (PeerID (ps_Capability c)) delta_failed s"] Cons.prems
      by (auto simp: Let_def all_failed_Cons)
  next
    case (Inr answer)
    then show ?thesis using Cons.prems by (simp add: Let_def)
  qed
qed (simp add: all_failed_def)

lemma try_peers_frame:
  "cs_ledger (snd (try_peers gw now req pc k le cs s)) = cs_ledger s
   \<and> cs_opts (snd (try_peers gw now req pc k le cs s)) = cs_opts s
   \<and> cs_known s \<subseteq> cs_known (snd (try_peers gw now req pc k le cs s))"
proof (induction cs arbitrary: k le s)
  case (Cons c cs)
  show ?case
    using Cons.IH[where s = "client_rep Penalize (PeerID (ps_Capability c)) delta_failed s"]
    by (cases "gw k (GatewayURL (ps_Capability c)) req pc") (auto simp: Let_def keeps)
qed simp

text \<open>The reputation after the loop, for the invariant of the tracker.\<close>

definition client_rep_ok :: "ClientService \<Rightarrow> bool" where
  "client_rep_ok s = (\<forall>r. cs_reputation s = Some r \<longrightarrow> rep_inv r)"

lemma client_deltas: "unit_score delta_failed" "unit_score delta_answered"
proof -
  have "unit_score (round64 q)" if q: "0 \<le> q" "q \<le> 1" for q
  proof -
    obtain v where "round64 q = Fin v" "0 \<le> v" "v \<le> 1" "wf64 (Fin v)" by (rule round64_unit[OF q])
    then show ?thesis by auto
  qed
  then show "unit_score delta_failed" "unit_score delta_answered"
    by (simp_all add: delta_failed_def delta_answered_def)
qed

lemma client_rep_keeps:
  assumes "client_rep_ok s"
  shows "client_rep_ok (client_rep Penalize p delta_failed s)" "client_rep_ok (client_rep Reward p delta_answered s)"
  using assms client_deltas rep.inv_penalize rep.inv_reward by (auto simp: client_rep_ok_def client_rep_def)

lemma try_peers_rep_ok: "client_rep_ok s \<Longrightarrow> client_rep_ok (snd (try_peers gw now req pc k le cs s))"
proof (induction cs arbitrary: k le s)
  case (Cons c cs)
  have fr: "client_rep_ok (updateSticky now m q (markKnown q t)) = client_rep_ok t" for m q t
    by (simp add: client_rep_ok_def keeps)
  show ?case
    using Cons.IH[OF client_rep_keeps(1)[OF Cons.prems]] client_rep_keeps(2)[OF Cons.prems]
    by (auto simp: Let_def fr split: sum.splits)
qed simp

section \<open>The whole request\<close>

lemma charge_frame:
  assumes "charge s = (ok, s')"
  shows "cs_opts s' = cs_opts s" "cs_weights s' = cs_weights s" "cs_known s' = cs_known s"
    "cs_sticky s' = cs_sticky s" "cs_reputation s' = cs_reputation s"
  using assms by (auto simp: charge_def split: option.splits prod.splits)

definition context_of :: "ChatCompletionRequest \<Rightarrow> ClientOptions \<Rightarrow> PeerContext" where
  "context_of req opts =
     \<lparr>pc_ClientPeerID = co_PeerID opts, pc_ClientName = co_PeerName opts,
      pc_PoWNonce = (if co_PoWDifficulty opts > 0
        then fst (SolvePoW (co_PeerID opts) (req_Model req) (co_PoWDifficulty opts) (co_PoWMaxIters opts)) else 0)\<rparr>"

text \<open>The ways a request ends before any peer is tried, and the loop.\<close>

lemma ClientInfer_cases:
  assumes "ClientInfer srt env req s = (r, s')" "charge s = (paid, s1)"
  obtains (broke) "\<not> paid" "r = Inl (ErrText ''insufficient credits'')" "s' = s1"
  | (undiscovered) e where "paid" "cl_discovery env = Inl e" "r = Inl (ErrWrap ''discover peers: '' e)" "s' = s1"
  | (unranked) caps where "paid" "cl_discovery env = Inr caps" "candidates srt caps req s1 = []" "r = Inl ErrNoPeers" "s' = s1"
  | (nameless) caps where "paid" "cl_discovery env = Inr caps" "candidates srt caps req s1 \<noteq> []"
      "co_PoWDifficulty (cs_opts s) > 0" "co_PeerID (cs_opts s) = []"
      "r = Inl (ErrText ''pow enabled but client peer id is empty'')"
      "s' = snd (applyStickyPriority (cl_now env 0) (req_Model req) (candidates srt caps req s1) s1)"
  | (tried) caps ranked s2 where "paid" "cl_discovery env = Inr caps" "candidates srt caps req s1 \<noteq> []"
      "co_PoWDifficulty (cs_opts s) > 0 \<longrightarrow> co_PeerID (cs_opts s) \<noteq> []"
      "applyStickyPriority (cl_now env 0) (req_Model req) (candidates srt caps req s1) s1 = (ranked, s2)"
      "try_peers (cl_gateway env) (cl_now env 1) req (context_of req (cs_opts s)) 0 None ranked s2 = (r, s')"
proof (cases paid)
  case False
  then show thesis using assms broke by (simp add: ClientInfer_eq)
next
  case True
  show thesis
  proof (cases "cl_discovery env")
    case (Inl e)
    then show thesis using assms True undiscovered by (simp add: ClientInfer_eq)
  next
    case (Inr caps)
    obtain ranked s2 where st: "applyStickyPriority (cl_now env 0) (req_Model req) (candidates srt caps req s1) s1 = (ranked, s2)"
      by force
    note simps = ClientInfer_eq context_of_def assms(2) True Inr st Let_def
    consider (none) "candidates srt caps req s1 = []"
      | (noname) "candidates srt caps req s1 \<noteq> []" "co_PoWDifficulty (cs_opts s) > 0" "co_PeerID (cs_opts s) = []"
      | (go) "candidates srt caps req s1 \<noteq> []" "co_PoWDifficulty (cs_opts s) > 0 \<longrightarrow> co_PeerID (cs_opts s) \<noteq> []"
      by blast
    then show thesis
    proof cases
      case none
      then show thesis using assms(1) by (intro unranked[OF True Inr]) (simp_all add: simps)
    next
      case noname
      then show thesis using assms(1) by (intro nameless[OF True Inr]) (simp_all add: simps)
    next
      case go
      have "\<not> (co_PoWDifficulty (cs_opts s) > 0 \<and> co_PeerID (cs_opts s) = [])" using go(2) by blast
      then have "try_peers (cl_gateway env) (cl_now env 1) req (context_of req (cs_opts s)) 0 None ranked s2 = (r, s')"
        using assms(1) go(1) by (simp only: simps if_False split sum.case simp_thms)
      then show thesis by (rule tried[OF True Inr go st])
    qed
  qed
qed

text \<open>Only the payment touches the ledger: nothing is given back when no peer answers.\<close>

lemma ClientInfer_ledger: "cs_ledger (snd (ClientInfer srt env req s)) = cs_ledger (snd (charge s))"
proof -
  obtain paid s1 where ch: "charge s = (paid, s1)" by force
  obtain r s' where inf: "ClientInfer srt env req s = (r, s')" by force
  from inf ch have "cs_ledger s' = cs_ledger s1"
  proof (cases rule: ClientInfer_cases)
    case (tried caps ranked s2)
    have "cs_ledger s2 = cs_ledger s1"
      using tried(5) applySticky_frame(2)[of "cl_now env 0" "req_Model req" "candidates srt caps req s1" s1] by simp
    then show ?thesis
      using tried(6) try_peers_frame[of "cl_gateway env" "cl_now env 1" req "context_of req (cs_opts s)" 0 None ranked s2] by simp
  qed (simp_all add: keeps)
  then show ?thesis by (simp add: ch inf)
qed

lemma candidates_eligible:
  assumes "slice_sort srt" "c \<in> set (candidates srt caps req s)"
  shows "eligible req (preferences s) (map (cap_reliability (cs_reputation s)) caps) (ps_Capability c)
     \<and> (\<exists>d\<in>set caps. ps_Capability c = cap_reliability (cs_reputation s) d)"
  using assms by (auto simp: candidates_def RankWithPreferences_set)

lemma cap_reliability_id [simp]: "PeerID (cap_reliability r c) = PeerID c" "GatewayURL (cap_reliability r c) = GatewayURL c"
  "Models (cap_reliability r c) = Models c"
  by (auto simp: cap_reliability_def split: option.splits)

section \<open>The peer listing\<close>

definition mark_self :: "string \<Rightarrow> CapabilityDocument \<Rightarrow> CapabilityDocument" where
  "mark_self self c = (if PeerID c = self then c\<lparr>Self := True\<rparr> else c)"

lemma mark_self_id [simp]: "PeerID (mark_self self c) = PeerID c" "UpdatedAt (mark_self self c) = UpdatedAt c"
  by (simp_all add: mark_self_def)

text \<open>What the map holds after the loop: for each identity the newest document seen.\<close>

definition newest_map :: "string \<Rightarrow> CapabilityDocument list \<Rightarrow> (string, CapabilityDocument) gomap \<Rightarrow> bool" where
  "newest_map self caps m \<longleftrightarrow> map_wf m
     \<and> (\<forall>k. map_get m k = None \<longleftrightarrow> k \<notin> PeerID ` set caps)
     \<and> (\<forall>k c. map_get m k = Some c \<longrightarrow> PeerID c = k \<and> (\<exists>d\<in>set caps. c = mark_self self d)
          \<and> (\<forall>d\<in>set caps. PeerID d = k \<longrightarrow> UpdatedAt d \<le> UpdatedAt c))"

lemma newest_mapD:
  "newest_map self caps m \<Longrightarrow> map_get m k = Some c \<Longrightarrow> PeerID c = k \<and> (\<exists>d\<in>set caps. c = mark_self self d)
     \<and> (\<forall>d\<in>set caps. PeerID d = k \<longrightarrow> UpdatedAt d \<le> UpdatedAt c)"
  unfolding newest_map_def by blast

lemma keep_newest_eq:
  "keep_newest self c m = (case map_get m (PeerID c) of
     None \<Rightarrow> map_put (PeerID c) (mark_self self c) m
   | Some prev \<Rightarrow> if UpdatedAt prev < UpdatedAt c then map_put (PeerID c) (mark_self self c) m else m)"
  by (auto simp: keep_newest_def mark_self_def Let_def time_after_def split: option.splits)

lemma newest_map_step:
  assumes "newest_map self caps m" shows "newest_map self (caps @ [c]) (keep_newest self c m)"
proof -
  have wf: "map_wf m" and none: "\<And>k. map_get m k = None \<longleftrightarrow> k \<notin> PeerID ` set caps"
    and some: "\<And>k d. map_get m k = Some d \<Longrightarrow> PeerID d = k \<and> (\<exists>d'\<in>set caps. d = mark_self self d')
        \<and> (\<forall>d'\<in>set caps. PeerID d' = k \<longrightarrow> UpdatedAt d' \<le> UpdatedAt d)"
    using assms by (simp_all add: newest_map_def)
  show ?thesis
  proof (cases "map_get m (PeerID c)")
    case None
    then have k: "keep_newest self c m = map_put (PeerID c) (mark_self self c) m" by (simp add: keep_newest_eq)
    have new: "PeerID c \<notin> PeerID ` set caps" using None none by blast
    then have new': "d \<in> set caps \<Longrightarrow> PeerID d \<noteq> PeerID c" for d by (metis imageI)
    show ?thesis
      unfolding newest_map_def k
      using wf none some new new' by (auto simp: gm.get_put gm.wf_put)
  next
    case (Some prev)
    then have mem: "PeerID c \<in> PeerID ` set caps" using none by (metis option.distinct(1))
    show ?thesis
    proof (cases "UpdatedAt prev < UpdatedAt c")
      case True
      have old: "UpdatedAt d \<le> UpdatedAt c" if "d \<in> set caps" "PeerID d = PeerID c" for d
        using some[OF Some] that True by fastforce
      have k: "keep_newest self c m = map_put (PeerID c) (mark_self self c) m"
        using True by (simp add: keep_newest_eq Some)
      show ?thesis
        unfolding newest_map_def k
        using wf none some old mem by (auto simp: gm.get_put gm.wf_put)
    next
      case False
      then have k: "keep_newest self c m = m" by (simp add: keep_newest_eq Some)
      show ?thesis
        unfolding newest_map_def k
        using wf none some some[OF Some] mem Some False by auto
    qed
  qed
qed

lemma newest_map_fold: "newest_map self caps (fold (keep_newest self) caps [])"
proof (induction caps rule: rev_induct)
  case Nil
  then show ?case by (simp add: newest_map_def gm.wf_empty)
qed (simp add: newest_map_step)

lemma newest_first_order: "strict_weak (\<lambda>a b. time_after (UpdatedAt a) (UpdatedAt b)) A"
  by (auto simp: strict_weak_def time_after_def)

text \<open>The values of a map in any order of enumeration, keyed by the identity they carry.\<close>

lemma values_distinct:
  assumes "map_wf m" "permuting rng" "\<And>k c. map_get m k = Some c \<Longrightarrow> PeerID c = k"
  shows "distinct (map PeerID (map snd (rng m)))" "set (map snd (rng m)) = {c. map_get m (PeerID c) = Some c}"
proof -
  have e: "(k, c) \<in> set (rng m) \<longleftrightarrow> map_get m k = Some c" for k c
    using gm.entries_iff[OF assms(1)] permuting_set[OF assms(2)] by auto
  have "map PeerID (map snd (rng m)) = map fst (rng m)"
    using e assms(3) by auto
  moreover have "mset (map fst (rng m)) = mset (map fst m)"
    using permuting_mset[OF assms(2), of m] by simp
  then have "distinct (map fst (rng m))"
    using assms(1) unfolding map_wf_def by (metis mset_eq_imp_distinct_iff)
  ultimately show "distinct (map PeerID (map snd (rng m)))" by (simp only:)
  show "set (map snd (rng m)) = {c. map_get m (PeerID c) = Some c}"
  proof (intro equalityI subsetI)
    fix c assume "c \<in> set (map snd (rng m))"
    then obtain k where "map_get m k = Some c" using e by auto
    then show "c \<in> {c. map_get m (PeerID c) = Some c}" using assms(3) by fastforce
  next
    fix c assume "c \<in> {c. map_get m (PeerID c) = Some c}"
    then have "(PeerID c, c) \<in> set (rng m)" using e by simp
    then show "c \<in> set (map snd (rng m))" by force
  qed
qed

text \<open>The map behind the listing: the newest documents, and the node itself when it has an id.\<close>

definition listing_map :: "ClientOptions \<Rightarrow> gtime \<Rightarrow> CapabilityDocument list \<Rightarrow> (string, CapabilityDocument) gomap" where
  "listing_map o' now caps =
     (let m = fold (keep_newest (co_PeerID o')) caps [] in
      if co_PeerID o' \<noteq> [] \<and> map_get m (co_PeerID o') = None then map_put (co_PeerID o') (self_doc o' now) m else m)"

lemma ListPeers_map:
  "ListPeers srt rng now (Inr caps) s =
     Inr (srt (\<lambda>a b. time_after (UpdatedAt a) (UpdatedAt b)) (map snd (rng (listing_map (cs_opts s) now caps))))"
  by (simp add: ListPeers_def listing_map_def Let_def)

lemma listing_map:
  fixes caps :: "CapabilityDocument list" and o' :: ClientOptions and now :: gtime
  defines "m \<equiv> listing_map o' now caps"
  shows "map_wf m" "\<And>k c. map_get m k = Some c \<Longrightarrow> PeerID c = k"
    "dom (map_get m) = PeerID ` set caps \<union> (if co_PeerID o' = [] then {} else {co_PeerID o'})"
    "map_get m (PeerID c) = Some c \<Longrightarrow>
       (PeerID c \<in> PeerID ` set caps \<longrightarrow> (\<exists>d\<in>set caps. c = mark_self (co_PeerID o') d)
          \<and> (\<forall>d\<in>set caps. PeerID d = PeerID c \<longrightarrow> UpdatedAt d \<le> UpdatedAt c))
     \<and> (PeerID c \<notin> PeerID ` set caps \<longrightarrow> c = self_doc o' now)"
proof -
  let ?self = "co_PeerID o'"
  define m0 where "m0 = fold (keep_newest ?self) caps []"
  have m: "m = (if ?self \<noteq> [] \<and> map_get m0 ?self = None then map_put ?self (self_doc o' now) m0 else m0)"
    by (simp add: m_def listing_map_def m0_def Let_def)
  have n: "newest_map ?self caps m0" unfolding m0_def by (rule newest_map_fold)
  have "k \<in> dom (map_get m0) \<longleftrightarrow> k \<in> PeerID ` set caps" for k using n unfolding newest_map_def by (metis domIff)
  then have dm: "dom (map_get m0) = PeerID ` set caps" by blast
  have sd: "PeerID (self_doc o' now) = ?self" by (simp add: self_doc_def)
  show "map_wf m" using n by (simp add: m newest_map_def gm.wf_put)
  show "PeerID c = k" if "map_get m k = Some c" for k c
    using that n sd by (auto simp: m newest_map_def gm.get_put split: if_splits)
  show "dom (map_get m) = PeerID ` set caps \<union> (if ?self = [] then {} else {?self})"
    unfolding dm [symmetric] by (auto simp: m gm.get_put split: if_splits)
  assume g: "map_get m (PeerID c) = Some c"
  show "(PeerID c \<in> PeerID ` set caps \<longrightarrow> (\<exists>d\<in>set caps. c = mark_self ?self d)
          \<and> (\<forall>d\<in>set caps. PeerID d = PeerID c \<longrightarrow> UpdatedAt d \<le> UpdatedAt c))
     \<and> (PeerID c \<notin> PeerID ` set caps \<longrightarrow> c = self_doc o' now)"
  proof (cases "map_get m0 (PeerID c)")
    case None
    then have "PeerID c \<notin> PeerID ` set caps" using n by (simp add: newest_map_def)
    then show ?thesis using g None by (auto simp: m gm.get_put split: if_splits)
  next
    case (Some d)
    then have g0: "map_get m0 (PeerID c) = Some c" using g by (auto simp: m gm.get_put split: if_splits)
    then have "PeerID c \<in> PeerID ` set caps" using dm by auto
    then show ?thesis using newest_mapD[OF n g0] by blast
  qed
qed

lemma ListPeers_spec:
  assumes srt: "slice_sort srt" and rng: "permuting rng" and "disc = Inr caps"
    and out: "ListPeers srt rng now disc s = Inr out"
  defines "self \<equiv> co_PeerID (cs_opts s)"
  shows "distinct (map PeerID out)"
    "set (map PeerID out) = PeerID ` set caps \<union> (if self = [] then {} else {self})"
    "sorted_wrt (\<lambda>a b. UpdatedAt b \<le> UpdatedAt a) out"
    "\<And>c. c \<in> set out \<Longrightarrow> (PeerID c \<in> PeerID ` set caps \<longrightarrow> (\<exists>d\<in>set caps. c = mark_self self d)
        \<and> (\<forall>d\<in>set caps. PeerID d = PeerID c \<longrightarrow> UpdatedAt d \<le> UpdatedAt c))
      \<and> (PeerID c \<notin> PeerID ` set caps \<longrightarrow> c = self_doc (cs_opts s) now)"
proof -
  define m where "m = listing_map (cs_opts s) now caps"
  note lm = listing_map[of "cs_opts s" now caps, folded m_def]
  have o': "out = srt (\<lambda>a b. time_after (UpdatedAt a) (UpdatedAt b)) (map snd (rng m))"
    using out by (simp add: assms(3) ListPeers_map m_def)
  note vals = values_distinct[OF lm(1) rng lm(2)]
  have so: "set out = {c. map_get m (PeerID c) = Some c}"
    unfolding o' slice_sort.srt_set[OF srt] by (rule vals(2))
  have "mset (map PeerID out) = mset (map PeerID (map snd (rng m)))"
    unfolding o' mset_map slice_sort.srt_mset[OF srt] ..
  then show "distinct (map PeerID out)" using vals(1) by (metis mset_eq_imp_distinct_iff)
  show "sorted_wrt (\<lambda>a b. UpdatedAt b \<le> UpdatedAt a) out"
    using slice_sort.srt_sorted[OF srt newest_first_order, of "map snd (rng m)"]
    by (simp add: o' time_after_def not_less)
  have "k \<in> set (map PeerID out) \<longleftrightarrow> k \<in> dom (map_get m)" for k
  proof -
    have "k \<in> dom (map_get m) \<longleftrightarrow> (\<exists>c. map_get m (PeerID c) = Some c \<and> PeerID c = k)" using lm(2) by blast
    then show ?thesis by (auto simp: so)
  qed
  then have "set (map PeerID out) = dom (map_get m)" by blast
  then show "set (map PeerID out) = PeerID ` set caps \<union> (if self = [] then {} else {self})"
    by (simp add: lm(3) self_def)
  fix c assume "c \<in> set out"
  then show "(PeerID c \<in> PeerID ` set caps \<longrightarrow> (\<exists>d\<in>set caps. c = mark_self self d)
        \<and> (\<forall>d\<in>set caps. PeerID d = PeerID c \<longrightarrow> UpdatedAt d \<le> UpdatedAt c))
      \<and> (PeerID c \<notin> PeerID ` set caps \<longrightarrow> c = self_doc (cs_opts s) now)"
    unfolding self_def by (intro lm(4)) (simp add: so)
qed

section \<open>What a client request does\<close>

text \<open>The attempt that reaches the \<open>i\<close>-th candidate of a ranking.\<close>

abbreviation attempt :: "ClientEnv \<Rightarrow> ChatCompletionRequest \<Rightarrow> ClientOptions \<Rightarrow> nat \<Rightarrow> PeerScore \<Rightarrow> go_error + GatewayResponse" where
  "attempt env req opts i c \<equiv> cl_gateway env i (GatewayURL (ps_Capability c)) req (context_of req opts)"

text \<open>C13: When a request succeeds, it was answered by a peer the policy admits, out of a reordering of the
  ranked candidates, after every candidate before it had been tried and had failed; the answer
  is relayed unchanged and the peer is known from then on.\<close>

theorem failover_finds_an_answer:
  assumes srt: "slice_sort srt" and inf: "ClientInfer srt env req s = (Inr res, s')"
  shows "\<exists>caps ranked failed c rest answer.
      cl_discovery env = Inr caps
    \<and> mset ranked = mset (candidates srt caps req s) \<and> ranked = failed @ c # rest
    \<and> all_failed (cl_gateway env) req (context_of req (cs_opts s)) 0 failed
    \<and> attempt env req (cs_opts s) (length failed) c = Inr answer \<and> res = answer_of answer
    \<and> eligible req (preferences s) (map (cap_reliability (cs_reputation s)) caps) (ps_Capability c)
    \<and> PeerID (ps_Capability c) \<in> cs_known s'"
proof -
  obtain paid s1 where ch: "charge s = (paid, s1)" by force
  have same: "candidates srt caps req s1 = candidates srt caps req s" for caps
    using charge_frame[OF ch] by (simp add: candidates_def preferences_def)
  from inf ch show ?thesis
  proof (cases rule: ClientInfer_cases)
    case (tried caps ranked s2)
    have perm: "mset ranked = mset (candidates srt caps req s)"
      using applySticky_mset[of "cl_now env 0" "req_Model req" "candidates srt caps req s1" s1] tried(5) by (simp add: same)
    obtain failed c rest answer where f: "ranked = failed @ c # rest"
      "all_failed (cl_gateway env) req (context_of req (cs_opts s)) 0 failed"
      "attempt env req (cs_opts s) (length failed) c = Inr answer" "res = answer_of answer"
      "PeerID (ps_Capability c) \<in> cs_known s'"
      using try_peers_success[OF tried(6)] by auto
    have "c \<in> set (candidates srt caps req s)" using f(1) mset_eq_set[OF perm] by auto
    then have "eligible req (preferences s) (map (cap_reliability (cs_reputation s)) caps) (ps_Capability c)"
      using candidates_eligible[OF srt] by blast
    then show ?thesis using tried(2) perm f by blast
  qed auto
qed

text \<open>C14: A request fails in exactly one of five ways: the ledger cannot pay, discovery fails, no peer is
  eligible, proof of work is asked of a client without an id, or every single candidate was tried
  and failed, and then the error is that of the last one tried.\<close>

theorem failures_are_exhaustive:
  assumes "ClientInfer srt env req s = (Inl e, s')"
  shows "(\<exists>l. cs_ledger s = Some l \<and> \<not> fst (Spend (co_CreditCost (cs_opts s)) l) \<and> e = ErrText ''insufficient credits'')
    \<or> (\<exists>x. cl_discovery env = Inl x \<and> e = ErrWrap ''discover peers: '' x)
    \<or> (\<exists>caps. cl_discovery env = Inr caps \<and> candidates srt caps req s = [] \<and> e = ErrNoPeers)
    \<or> (co_PoWDifficulty (cs_opts s) > 0 \<and> co_PeerID (cs_opts s) = [] \<and> e = ErrText ''pow enabled but client peer id is empty'')
    \<or> (\<exists>caps ranked. cl_discovery env = Inr caps \<and> ranked \<noteq> [] \<and> mset ranked = mset (candidates srt caps req s)
        \<and> all_failed (cl_gateway env) req (context_of req (cs_opts s)) 0 ranked
        \<and> e = ErrWrap ''all peers failed: '' (projl (attempt env req (cs_opts s) (length ranked - 1) (last ranked))))"
proof -
  obtain paid s1 where ch: "charge s = (paid, s1)" by force
  have same: "candidates srt caps req s1 = candidates srt caps req s" for caps
    using charge_frame[OF ch] by (simp add: candidates_def preferences_def)
  from assms ch show ?thesis
  proof (cases rule: ClientInfer_cases)
    case broke
    then show ?thesis using ch by (auto simp: charge_def split: option.splits prod.splits)
  next
    case (tried caps ranked s2)
    have perm: "mset ranked = mset (candidates srt caps req s)"
      using applySticky_mset[of "cl_now env 0" "req_Model req" "candidates srt caps req s1" s1] tried(5) by (simp add: same)
    then have "ranked \<noteq> []" using tried(3) mset_eq_nil_iff[OF perm] by (simp add: same)
    then show ?thesis using try_peers_failure[OF tried(6)] tried(2) perm by auto
  qed (auto simp: same)
qed

text \<open>A request charges the ledger once, before anything else, and whatever happens afterwards the
  charge stands: there is no refund when discovery fails or no peer answers.\<close>

theorem charged_once_no_refund:
  "cs_ledger (snd (ClientInfer srt env req s)) = map_option (\<lambda>l. snd (Spend (co_CreditCost (cs_opts s)) l)) (cs_ledger s)"
  by (simp add: ClientInfer_ledger charge_def split: option.split prod.split)

text \<open>C15: After a peer has answered, and until the sticky time runs out, a ranking that contains the peer
  is tried with it at the head; nobody is added or dropped and the others keep their order.\<close>

theorem sticky_peer_goes_first:
  fixes m :: string
  assumes "0 < co_StickyPeerTTL (cs_opts s)" "t' \<le> time_add t (co_StickyPeerTTL (cs_opts s))"
    and "c \<in> set ranked" "PeerID (ps_Capability c) = p"
  defines "out \<equiv> fst (applyStickyPriority t' m ranked (updateSticky t m p s))"
  shows "out \<noteq> [] \<and> PeerID (ps_Capability (hd out)) = p \<and> mset out = mset ranked
    \<and> filter (\<lambda>x. PeerID (ps_Capability x) \<noteq> p) out = filter (\<lambda>x. PeerID (ps_Capability x) \<noteq> p) ranked"
proof (cases "length ranked < 2")
  case True
  then have "ranked = [c]" using assms(3) by (cases ranked) auto
  then show ?thesis using assms(4) by (simp add: out_def applyStickyPriority_def)
next
  case False
  have "out = peer_first p ranked"
    using assms(1,2) False by (simp add: out_def applyStickyPriority_def updateSticky_def gm.get_put time_after_def bring_forward_eq)
  then show ?thesis using peer_first_hd[of ranked p] assms(3,4) peer_first_mset peer_first_others by auto
qed

text \<open>After a peer has been selected by hand, every candidate is that peer; when the peer is blocked
  there is none.\<close>

theorem manual_selection_is_exclusive:
  assumes "slice_sort srt" "p \<noteq> []" "c \<in> set (candidates srt caps req (SelectPeerManual p s))"
  shows "PeerID (ps_Capability c) = p \<and> p \<notin> set (co_BlockedPeers (cs_opts s))"
  using candidates_eligible[OF assms(1,3)] assms(2)
  by (auto simp: eligible_def preferences_def SelectPeerManual_def toSet_def)

text \<open>C16: The peer list has one entry per peer, the newest document of each (the node's own marked as such,
  and made up when discovery did not return it), newest first; discovery failing, a node with an
  id still lists itself.\<close>

theorem peer_list_is_newest_per_peer:
  assumes srt: "slice_sort srt" and rng: "permuting rng" and out: "ListPeers srt rng now disc s = Inr out"
  shows "case disc of
      Inl e \<Rightarrow> co_PeerID (cs_opts s) \<noteq> [] \<and> out = [self_doc (cs_opts s) now]
    | Inr caps \<Rightarrow> distinct (map PeerID out) \<and> sorted_wrt (\<lambda>a b. UpdatedAt b \<le> UpdatedAt a) out
        \<and> set (map PeerID out) = PeerID ` set caps \<union> (if co_PeerID (cs_opts s) = [] then {} else {co_PeerID (cs_opts s)})
        \<and> (\<forall>c\<in>set out. if PeerID c \<in> PeerID ` set caps
             then c \<in> mark_self (co_PeerID (cs_opts s)) ` set caps \<and> (\<forall>d\<in>set caps. PeerID d = PeerID c \<longrightarrow> UpdatedAt d \<le> UpdatedAt c)
             else c = self_doc (cs_opts s) now)"
proof (cases disc)
  case (Inl e)
  then show ?thesis using out by (simp add: ListPeers_def Let_def split: if_splits)
next
  case (Inr caps)
  note L = ListPeers_spec[OF srt rng Inr out]
  have "\<forall>c\<in>set out. if PeerID c \<in> PeerID ` set caps
       then c \<in> mark_self (co_PeerID (cs_opts s)) ` set caps \<and> (\<forall>d\<in>set caps. PeerID d = PeerID c \<longrightarrow> UpdatedAt d \<le> UpdatedAt c)
       else c = self_doc (cs_opts s) now"
    using L(4) by (auto simp: image_iff)
  then show ?thesis using L(1-3) by (simp add: Inr)
qed

section \<open>Witnesses\<close>

text \<open>A client with one credit and two peers to choose from; the first one fails.\<close>

definition demo_options :: ClientOptions where
  "demo_options = \<lparr>co_PeerID = ''me'', co_PeerName = [], co_RoutingPolicy = ''auto'', co_FavoritePeers = [], co_BlockedPeers = [],
     co_AllowedPeers = [], co_StickyPeerTTL = 60, co_PoWDifficulty = 0, co_PoWMaxIters = 0, co_CreditCost = 0\<rparr>"

definition demo_client :: ClientService where
  "demo_client = NewClientService plain_weights demo_options None None"

definition demo_docs :: "CapabilityDocument list" where
  "demo_docs = [zero_doc\<lparr>PeerID := ''a'', Models := [zero_spec], GatewayURL := ''A'', UpdatedAt := 1\<rparr>,
     zero_doc\<lparr>PeerID := ''b'', Models := [zero_spec], GatewayURL := ''B'', UpdatedAt := 2\<rparr>]"

definition demo_client_env :: "string set \<Rightarrow> ClientEnv" where
  "demo_client_env up = \<lparr>cl_now = (\<lambda>n. 0), cl_discovery = Inr demo_docs,
     cl_gateway = (\<lambda>k url req pc. if url \<in> up then Inr \<lparr>gr_StatusCode = 200, gr_ContentType = [], gr_Body = url\<rparr> else Inl (ErrText url))\<rparr>"

lemma keep_order: "slice_sort insertion_sort" by (rule isort.slice_sort_axioms)

text \<open>With infinite pressure on both peers the scores are equal, and the sort keeps the order of discovery.\<close>

lemma demo_candidates:
  "candidates insertion_sort demo_docs zero_request demo_client =
     map (\<lambda>d. \<lparr>ps_Capability = d, ps_Score = PInf\<rparr>) demo_docs"
proof -
  have "preferred_score plain_weights (preferences demo_client) d = PInf" if "d \<in> set demo_docs" for d
    using that by (auto simp: demo_docs_def preferred_score_def RouterScore_def plain_weights_def zero_doc_def zero_f64_def
        preferences_def demo_client_def NewClientService_def demo_options_def toSet_def Let_def f64_of_int_exact f64_simps)
  moreover have "filter (eligible zero_request (preferences demo_client) demo_docs) demo_docs = demo_docs"
    by (simp add: demo_docs_def eligible_def preferences_def demo_client_def NewClientService_def demo_options_def toSet_def
        zero_request_def no_requirements_def zero_doc_def zero_spec_def SupportsRequirements_def Let_def)
  moreover have "map (cap_reliability (cs_reputation demo_client)) demo_docs = demo_docs"
    by (simp add: demo_docs_def cap_reliability_def demo_client_def NewClientService_def Let_def)
  moreover have "cs_weights demo_client = plain_weights" by (simp add: demo_client_def NewClientService_def Let_def)
  ultimately show ?thesis
    by (simp add: candidates_def RankWithPreferences_def scored_eq)
      (simp add: demo_docs_def insertion_sort_def)
qed

lemma demo_try:
  "ClientInfer insertion_sort (demo_client_env up) zero_request demo_client =
     try_peers (cl_gateway (demo_client_env up)) 0 zero_request (context_of zero_request demo_options) 0 None
       (map (\<lambda>d. \<lparr>ps_Capability = d, ps_Score = PInf\<rparr>) demo_docs) demo_client"
proof -
  have "charge demo_client = (True, demo_client)" "cs_opts demo_client = demo_options\<lparr>co_PoWMaxIters := 2000000, co_CreditCost := 1\<rparr>"
    "cs_sticky demo_client = []"
    by (simp_all add: charge_def demo_client_def NewClientService_def demo_options_def Let_def)
  moreover have "demo_docs \<noteq> []" by (simp add: demo_docs_def)
  ultimately show ?thesis
    by (simp add: ClientInfer_eq demo_candidates demo_client_env_def applyStickyPriority_def context_of_def demo_options_def Let_def)
qed

lemma failover_finds_an_answer_witness:
  "\<exists>res s'. ClientInfer insertion_sort (demo_client_env {''B''}) zero_request demo_client = (Inr res, s')
     \<and> ir_Body res = ''B'' \<and> cs_known s' \<noteq> {}"
proof -
  obtain res s' where r: "ClientInfer insertion_sort (demo_client_env {''B''}) zero_request demo_client = (Inr res, s')"
    "ir_Body res = ''B''"
    unfolding demo_try by (simp add: demo_docs_def demo_client_env_def Let_def)
  then show ?thesis using failover_finds_an_answer[OF keep_order r(1)] by blast
qed

lemma failures_are_exhaustive_witness:
  "\<exists>e s'. ClientInfer insertion_sort (demo_client_env {}) zero_request demo_client = (Inl e, s')
     \<and> e = ErrWrap ''all peers failed: '' (ErrText ''B'')"
proof -
  obtain e s' where r: "ClientInfer insertion_sort (demo_client_env {}) zero_request demo_client = (Inl e, s')"
    "e = ErrWrap ''all peers failed: '' (ErrText ''B'')"
    unfolding demo_try by (simp add: demo_docs_def demo_client_env_def Let_def)
  then show ?thesis using failures_are_exhaustive[OF r(1)] by blast
qed

lemma sticky_peer_goes_first_witness:
  "fst (applyStickyPriority 60 ''m'' (map (\<lambda>d. \<lparr>ps_Capability = d, ps_Score = PInf\<rparr>) demo_docs) (updateSticky 0 ''m'' ''b'' demo_client)) \<noteq> []"
proof -
  have "co_StickyPeerTTL (cs_opts demo_client) = 60" by (simp add: demo_client_def NewClientService_def demo_options_def Let_def)
  then show ?thesis
    using sticky_peer_goes_first[of demo_client 60 0 "\<lparr>ps_Capability = demo_docs ! 1, ps_Score = PInf\<rparr>"
        "map (\<lambda>d. \<lparr>ps_Capability = d, ps_Score = PInf\<rparr>) demo_docs" "''b''" "''m''"]
    by (simp add: demo_docs_def time_add_def)
qed

lemma manual_selection_is_exclusive_witness:
  "\<exists>c. c \<in> set (candidates insertion_sort demo_docs zero_request (SelectPeerManual ''b'' demo_client)) \<and> PeerID (ps_Capability c) = ''b''"
proof -
  have "eligible zero_request (preferences (SelectPeerManual ''b'' demo_client))
      (map (cap_reliability (cs_reputation (SelectPeerManual ''b'' demo_client))) demo_docs) (demo_docs ! 1)"
    by (simp add: demo_docs_def eligible_def preferences_def SelectPeerManual_def demo_client_def NewClientService_def demo_options_def toSet_def
        zero_request_def no_requirements_def zero_doc_def zero_spec_def SupportsRequirements_def Let_def)
  moreover have "demo_docs ! 1 \<in> set (map (cap_reliability (cs_reputation (SelectPeerManual ''b'' demo_client))) demo_docs)"
    by (simp add: demo_docs_def SelectPeerManual_def demo_client_def NewClientService_def cap_reliability_def Let_def)
  ultimately obtain c where "c \<in> set (candidates insertion_sort demo_docs zero_request (SelectPeerManual ''b'' demo_client))"
    by (auto simp: candidates_def RankWithPreferences_set[OF keep_order])
  then show ?thesis using manual_selection_is_exclusive[OF keep_order, of "''b''"] by blast
qed

lemma peer_list_is_newest_per_peer_witness:
  "\<exists>out. ListPeers insertion_sort (\<lambda>xs. xs) 5 (Inr demo_docs) demo_client = Inr out
     \<and> distinct (map PeerID out) \<and> set (map PeerID out) = {''a'', ''b'', ''me''}"
proof -
  obtain out where l: "ListPeers insertion_sort (\<lambda>xs. xs) 5 (Inr demo_docs) demo_client = Inr out"
    by (simp add: ListPeers_def Let_def)
  have "co_PeerID (cs_opts demo_client) = ''me''" by (simp add: demo_client_def NewClientService_def demo_options_def Let_def)
  then have "distinct (map PeerID out) \<and> set (map PeerID out) = {''a'', ''b'', ''me''}"
    using peer_list_is_newest_per_peer[OF keep_order permuting_id l] by (auto simp: demo_docs_def)
  then show ?thesis using l by blast
qed

end
