(* ===== verification/ProviderRuns.thy ===== *)
theory ProviderRuns
  imports Client
begin

text \<open>
  The provider under concurrency. Every request is a thread; its program counter runs through
  the accesses of \<open>ProviderService.Infer\<close> and of its \<open>cleanup\<close> to shared state, each atomic in
  the source (a mutex-protected method or an \<open>atomic\<close> operation): threads interleave between
  them. \<open>thread_step\<close> is one access, \<open>sys_step\<close> any thread moving, a request arriving, or, in mode
  \<open>both\<close>, the client of the same node at work on the ledger and the tracker that the two share.
\<close>

section \<open>Threads\<close>

datatype pc =
    AtChecks | AtAcquire | AtCount | AtStart | AtBackend gtime
  | ErrRelease gtime go_error | ErrCount gtime go_error | ErrSince gtime go_error
  | ErrLatency duration go_error | ErrOutcome go_error | ErrPenalize go_error
  | OkLoad gtime InferenceResult | OkSet gtime InferenceResult int | Relaying gtime InferenceResult
  | ClRelease gtime InferenceResult | ClCount gtime InferenceResult | ClLoad gtime InferenceResult
  | ClSet gtime InferenceResult int | ClSince gtime InferenceResult | ClLatency duration InferenceResult
  | ClOutcome InferenceResult | ClEarn InferenceResult | ClReward InferenceResult
  | Done "go_error + InferenceResult"

definition stream_result :: "InferenceStream \<Rightarrow> InferenceResult" where
  "stream_result st = \<lparr>ir_StatusCode = st_StatusCode st, ir_ContentType = st_ContentType st, ir_Body = st_Body st\<rparr>"

text \<open>One access; \<open>now\<close> is the clock reading it takes, if it takes one.\<close>

fun thread_step ::
  "CallEnv \<Rightarrow> gtime \<Rightarrow> ChatCompletionRequest \<Rightarrow> PeerContext \<Rightarrow> pc \<Rightarrow> ProviderService \<Rightarrow> pc \<times> ProviderService" where
  "thread_step env now req p AtChecks s =
     (case admit_checks env req p s of (Some e, s) \<Rightarrow> (Done (Inl e), s) | (None, s) \<Rightarrow> (AtAcquire, s))"
| "thread_step env now req p AtAcquire s =
     (case Acquire (ce_ctxErr env) now (pv_limiter s) of
        (Some e, l) \<Rightarrow> (Done (Inl e), set_limiter l s) | (None, l) \<Rightarrow> (AtCount, set_limiter l s))"
| "thread_step env now req p AtCount s = (AtStart, count_add 1 s)"
| "thread_step env now req p AtStart s = (AtBackend now, s)"
| "thread_step env now req p (AtBackend t) s =
     (case ce_adapter env req of Inl e \<Rightarrow> (ErrRelease t e, s) | Inr st \<Rightarrow> (OkLoad t (stream_result st), s))"
| "thread_step env now req p (ErrRelease t e) s = (ErrCount t e, set_limiter (Release (pv_limiter s)) s)"
| "thread_step env now req p (ErrCount t e) s = (ErrSince t e, count_add (- 1) s)"
| "thread_step env now req p (ErrSince t e) s = (ErrLatency (time_sub now t) e, s)"
| "thread_step env now req p (ErrLatency d e) s = (ErrOutcome e, on_capability (UpdateLatency d now) s)"
| "thread_step env now req p (ErrOutcome e) s = (ErrPenalize e, on_capability (RecordOutcome False now) s)"
| "thread_step env now req p (ErrPenalize e) s = (Done (Inl e), rep_adjust Penalize p delta_backend s)"
| "thread_step env now req p (OkLoad t r) s = (OkSet t r (queue_depth s), s)"
| "thread_step env now req p (OkSet t r d) s = (Relaying t r, on_capability (SetQueueDepth d now) s)"
| "thread_step env now req p (Relaying t r) s = (ClRelease t r, s)"
| "thread_step env now req p (ClRelease t r) s = (ClCount t r, set_limiter (Release (pv_limiter s)) s)"
| "thread_step env now req p (ClCount t r) s = (ClLoad t r, count_add (- 1) s)"
| "thread_step env now req p (ClLoad t r) s = (ClSet t r (queue_depth s), s)"
| "thread_step env now req p (ClSet t r d) s = (ClSince t r, on_capability (SetQueueDepth d now) s)"
| "thread_step env now req p (ClSince t r) s = (ClLatency (time_sub now t) r, s)"
| "thread_step env now req p (ClLatency d r) s = (ClOutcome r, on_capability (UpdateLatency d now) s)"
| "thread_step env now req p (ClOutcome r) s = (ClEarn r, on_capability (RecordOutcome True now) s)"
| "thread_step env now req p (ClEarn r) s = (ClReward r, earn_one s)"
| "thread_step env now req p (ClReward r) s = (Done (Inr r), rep_adjust Reward p delta_served s)"
| "thread_step env now req p (Done x) s = (Done x, s)"

section \<open>Alone, a thread computes what \<open>serve\<close> says\<close>

fun in_cleanup :: "pc \<Rightarrow> bool" where
  "in_cleanup (ClSet t r d) = True" | "in_cleanup (ClSince t r) = True"
| "in_cleanup (ClLatency d r) = True" | "in_cleanup (ClOutcome r) = True"
| "in_cleanup pc = False"

fun clock_index :: "pc \<Rightarrow> nat" where
  "clock_index AtStart = 1" | "clock_index (ErrSince t e) = 2" | "clock_index (ErrLatency d e) = 3"
| "clock_index (ErrOutcome e) = 4" | "clock_index (OkSet t r d) = 2" | "clock_index (ClSince t r) = 1"
| "clock_index (ClLatency d r) = 2" | "clock_index (ClOutcome r) = 3" | "clock_index pc = 0"

definition solo_step ::
  "CallEnv \<Rightarrow> CallEnv \<Rightarrow> ChatCompletionRequest \<Rightarrow> PeerContext \<Rightarrow> pc \<times> ProviderService \<Rightarrow> pc \<times> ProviderService" where
  "solo_step env env2 req p x =
     (let e = (if in_cleanup (fst x) then env2 else env)
      in thread_step e (ce_now e (clock_index (fst x))) req p (fst x) (snd x))"

fun solo ::
  "nat \<Rightarrow> CallEnv \<Rightarrow> CallEnv \<Rightarrow> ChatCompletionRequest \<Rightarrow> PeerContext \<Rightarrow> pc \<times> ProviderService \<Rightarrow> pc \<times> ProviderService" where
  "solo 0 env env2 req p x = x"
| "solo (Suc n) env env2 req p x = solo n env env2 req p (solo_step env env2 req p x)"

lemma solo_done: "solo n env env2 req p (Done x, s) = (Done x, s)"
  by (induction n) (simp_all add: solo_step_def)

text \<open>How far a thread is from its end: every step gets nearer.\<close>

fun pc_rank :: "pc \<Rightarrow> nat" where
  "pc_rank AtChecks = 17" | "pc_rank AtAcquire = 16" | "pc_rank AtCount = 15" | "pc_rank AtStart = 14"
| "pc_rank (AtBackend t) = 13" | "pc_rank (ErrRelease t e) = 6" | "pc_rank (ErrCount t e) = 5"
| "pc_rank (ErrSince t e) = 4" | "pc_rank (ErrLatency d e) = 3" | "pc_rank (ErrOutcome e) = 2"
| "pc_rank (ErrPenalize e) = 1" | "pc_rank (OkLoad t r) = 12" | "pc_rank (OkSet t r d) = 11"
| "pc_rank (Relaying t r) = 10" | "pc_rank (ClRelease t r) = 9" | "pc_rank (ClCount t r) = 8"
| "pc_rank (ClLoad t r) = 7" | "pc_rank (ClSet t r d) = 6" | "pc_rank (ClSince t r) = 5"
| "pc_rank (ClLatency d r) = 4" | "pc_rank (ClOutcome r) = 3" | "pc_rank (ClEarn r) = 2"
| "pc_rank (ClReward r) = 1" | "pc_rank (Done x) = 0"

lemma thread_step_rank:
  assumes "thread_step env now req p c s = (c', s')" "pc_rank c \<noteq> 0" shows "pc_rank c' < pc_rank c"
  using assms by (cases c) (auto split: prod.splits option.splits sum.splits)

lemma solo_serve:
  "solo 17 env env2 req p (AtChecks, s) =
     (Done (fst (serve env env2 req p s)), snd (serve env env2 req p s))"
proof -
  obtain r s1 where chk: "admit_checks env req p s = (r, s1)" by force
  show ?thesis
  proof (cases r)
    case (Some e)
    have "solo_step env env2 req p (AtChecks, s) = (Done (Inl e), s1)"
      by (simp add: solo_step_def chk Some)
    then show ?thesis
      by (simp add: eval_nat_numeral solo_done serve_def ProviderInfer_def chk Some)
  next
    case None
    obtain q l where acq: "Acquire (ce_ctxErr env) (ce_now env 0) (pv_limiter s1) = (q, l)" by force
    show ?thesis
    proof (cases q)
      case (Some e)
      show ?thesis
        by (simp add: eval_nat_numeral solo_done solo_step_def serve_def ProviderInfer_def chk None acq Some)
    next
      case q: None
      show ?thesis
        by (cases "ce_adapter env req")
          (simp_all add: eval_nat_numeral solo_done solo_step_def serve_def ProviderInfer_def cleanup_def fail_backend_def
            chk None acq q Let_def stream_result_def)
    qed
  qed
qed

section \<open>The system\<close>

record thread =
  th_req :: ChatCompletionRequest
  th_peer :: PeerContext
  th_pc :: pc

record system =
  svc :: ProviderService
  threads :: "nat \<Rightarrow> thread option"

text \<open>What the client of the same node does to the shared ledger and the shared tracker: it pays for a
  request, and rates the peers that failed or answered one.\<close>

datatype own_move = Pays i64 | FailedBy string | AnsweredBy string

fun own_client :: "own_move \<Rightarrow> ProviderService \<Rightarrow> ProviderService" where
  "own_client (Pays n) s = s\<lparr>pv_creditLedger := map_option (\<lambda>l. snd (Spend n l)) (pv_creditLedger s)\<rparr>"
| "own_client (FailedBy q) s = s\<lparr>pv_peerReputation := map_option (Penalize q delta_failed) (pv_peerReputation s)\<rparr>"
| "own_client (AnsweredBy q) s = s\<lparr>pv_peerReputation := map_option (Reward q delta_answered) (pv_peerReputation s)\<rparr>"

inductive sys_step :: "system \<Rightarrow> system \<Rightarrow> bool" where
  arrive: "threads S i = None \<Longrightarrow>
    sys_step S (S\<lparr>threads := (threads S)(i \<mapsto> \<lparr>th_req = req, th_peer = p, th_pc = AtChecks\<rparr>)\<rparr>)"
| run: "threads S i = Some t \<Longrightarrow> thread_step env now (th_req t) (th_peer t) (th_pc t) (svc S) = (c, s) \<Longrightarrow>
    sys_step S (S\<lparr>svc := s, threads := (threads S)(i \<mapsto> t\<lparr>th_pc := c\<rparr>)\<rparr>)"
| own: "sys_step S (S\<lparr>svc := own_client m (svc S)\<rparr>)"

definition start_system :: "ProviderService \<Rightarrow> system" where
  "start_system s = \<lparr>svc = s, threads = Map.empty\<rparr>"

inductive reachable :: "ProviderService \<Rightarrow> system \<Rightarrow> bool" for s0 where
  initial: "reachable s0 (start_system s0)"
| step: "reachable s0 S \<Longrightarrow> sys_step S S' \<Longrightarrow> reachable s0 S'"

inductive_cases sys_stepE: "sys_step S S'"

text \<open>The threads that hold a slot of the limiter, and those the atomic counter counts.\<close>

fun holds_slot :: "pc \<Rightarrow> bool" where
  "holds_slot AtCount = True" | "holds_slot AtStart = True" | "holds_slot (AtBackend t) = True"
| "holds_slot (ErrRelease t e) = True" | "holds_slot (OkLoad t r) = True" | "holds_slot (OkSet t r d) = True"
| "holds_slot (Relaying t r) = True" | "holds_slot (ClRelease t r) = True" | "holds_slot pc = False"

fun counted :: "pc \<Rightarrow> bool" where
  "counted AtStart = True" | "counted (AtBackend t) = True"
| "counted (ErrRelease t e) = True" | "counted (ErrCount t e) = True"
| "counted (OkLoad t r) = True" | "counted (OkSet t r d) = True" | "counted (Relaying t r) = True"
| "counted (ClRelease t r) = True" | "counted (ClCount t r) = True" | "counted pc = False"

definition threads_at :: "(pc \<Rightarrow> bool) \<Rightarrow> system \<Rightarrow> nat set" where
  "threads_at P S = {i. \<exists>t. threads S i = Some t \<and> P (th_pc t)}"

definition agrees :: "Limiter \<Rightarrow> system \<Rightarrow> bool" where
  "agrees l0 S \<longleftrightarrow> finite (dom (threads S)) \<and> limiter_inv (pv_limiter (svc S))
     \<and> maxInFlight (pv_limiter (svc S)) = maxInFlight l0
     \<and> inFlight (pv_limiter (svc S)) = int (card (threads_at holds_slot S))
     \<and> pv_inFlightCount (svc S) = of_nat (card (threads_at counted S))"

lemma threads_at_finite: "finite (dom (threads S)) \<Longrightarrow> finite (threads_at P S)"
  by (rule finite_subset[of _ "dom (threads S)"]) (auto simp: threads_at_def)

lemma threads_at_move:
  "threads S i = Some t \<Longrightarrow>
   threads_at P (S\<lparr>svc := s, threads := (threads S)(i \<mapsto> t\<lparr>th_pc := c\<rparr>)\<rparr>) = (if P c then insert i (threads_at P S) else threads_at P S - {i})"
  by (auto simp: threads_at_def)

lemma threads_at_arrive:
  "threads S i = None \<Longrightarrow> \<not> P (th_pc t) \<Longrightarrow> threads_at P (S\<lparr>threads := (threads S)(i \<mapsto> t)\<rparr>) = threads_at P S"
  by (auto simp: threads_at_def)

lemma threads_at_mem: "threads S i = Some t \<Longrightarrow> i \<in> threads_at P S \<longleftrightarrow> P (th_pc t)"
  by (auto simp: threads_at_def)

lemma own_client_frame [keeps]:
  "pv_limiter (own_client m s) = pv_limiter s" "pv_policy (own_client m s) = pv_policy s"
  "pv_inFlightCount (own_client m s) = pv_inFlightCount s" "pv_capability (own_client m s) = pv_capability s"
  by (cases m; simp)+

text \<open>What one access does to the limiter and the counter, by the two sets it moves between.\<close>

lemma thread_step_limiter:
  assumes "thread_step env now req p c s = (c', s')" "limiter_inv (pv_limiter s)" "holds_slot c \<longrightarrow> 0 < inFlight (pv_limiter s)"
  shows "limiter_inv (pv_limiter s')" "maxInFlight (pv_limiter s') = maxInFlight (pv_limiter s)"
    "inFlight (pv_limiter s') = inFlight (pv_limiter s) + of_bool (holds_slot c') - of_bool (holds_slot c)"
proof -
  have "limiter_inv (pv_limiter s') \<and> maxInFlight (pv_limiter s') = maxInFlight (pv_limiter s)
    \<and> inFlight (pv_limiter s') = inFlight (pv_limiter s) + of_bool (holds_slot c') - of_bool (holds_slot c)"
  proof (cases c)
    case AtChecks
    obtain r s1 where a: "admit_checks env req p s = (r, s1)" by force
    show ?thesis using assms admit_checks_frame[OF a] by (cases r) (auto simp: AtChecks a)
  next
    case AtAcquire
    obtain r l where a: "Acquire (ce_ctxErr env) now (pv_limiter s) = (r, l)" by force
    show ?thesis
    proof (cases r)
      case None
      then show ?thesis
        using assms(1) lim.inv_acquire[OF assms(2) a] lim.acquire_granted[OF assms(2) a[unfolded None]]
        by (auto simp: AtAcquire a keeps)
    next
      case (Some e)
      then show ?thesis
        using assms(1) lim.inv_acquire[OF assms(2) a] lim.acquire_refused[OF assms(2) a[unfolded Some]]
        by (auto simp: AtAcquire a keeps)
    qed
  qed (use assms lim.inv_release lim.release_held in \<open>auto simp: keeps split: sum.splits\<close>)
  then show "limiter_inv (pv_limiter s')" "maxInFlight (pv_limiter s') = maxInFlight (pv_limiter s)"
    "inFlight (pv_limiter s') = inFlight (pv_limiter s) + of_bool (holds_slot c') - of_bool (holds_slot c)" by auto
qed

lemma thread_step_count:
  assumes "thread_step env now req p c s = (c', s')"
  shows "pv_inFlightCount s' = pv_inFlightCount s + of_bool (counted c') - of_bool (counted c)"
proof (cases c)
  case AtChecks
  obtain r s1 where a: "admit_checks env req p s = (r, s1)" by force
  show ?thesis using assms admit_checks_frame[OF a] by (cases r) (auto simp: AtChecks a)
qed (use assms in \<open>auto simp: keeps split: prod.splits option.splits sum.splits\<close>)

lemma agrees_step:
  assumes "agrees l0 S" "sys_step S S'" shows "agrees l0 S'"
  using assms(2)
proof cases
  case (arrive i req p)
  then show ?thesis using assms(1) by (simp add: agrees_def threads_at_arrive)
next
  case (own m)
  have "threads_at P S' = threads_at P S" for P by (simp add: own threads_at_def)
  then show ?thesis using assms(1) by (simp add: agrees_def own keeps)
next
  case (run i t env now c s)
  have fin: "finite (threads_at P S)" for P using assms(1) by (intro threads_at_finite) (simp add: agrees_def)
  have inv: "limiter_inv (pv_limiter (svc S))" "inFlight (pv_limiter (svc S)) = int (card (threads_at holds_slot S))"
    using assms(1) by (auto simp: agrees_def)
  have pos: "holds_slot (th_pc t) \<longrightarrow> 0 < inFlight (pv_limiter (svc S))"
    using threads_at_mem[OF run(2), of holds_slot] fin[of holds_slot] by (auto simp: inv card_gt_0_iff)
  have cnt: "(of_nat (card (threads_at counted S')) :: i64) = of_int (int (card (threads_at counted S')))" by simp
  have "int (card (threads_at P S')) = int (card (threads_at P S)) + of_bool (P c) - of_bool (P (th_pc t))" for P
    using card_move[OF fin] run(2) by (simp add: run(1) threads_at_move threads_at_mem)
  then show ?thesis
    using thread_step_limiter[OF run(3) inv(1) pos] thread_step_count[OF run(3)] assms(1)
    unfolding agrees_def cnt by (simp add: run(1))
qed

lemma reachable_agrees:
  assumes "reachable s0 S" "limiter_inv (pv_limiter s0)" "inFlight (pv_limiter s0) = 0" "pv_inFlightCount s0 = 0"
  shows "agrees (pv_limiter s0) S"
  using assms(1)
proof induction
  case initial
  then show ?case using assms by (simp add: agrees_def start_system_def threads_at_def)
next
  case (step S S')
  then show ?case by (blast intro: agrees_step)
qed

section \<open>What holds under every interleaving\<close>

text \<open>C3: However requests arrive and however their accesses to the shared state interleave, the number of
  requests between admission and release is what the limiter counts, and it never exceeds the
  limiter's maximum; the service's own counter \<open>inFlightCount\<close> equals the number of requests between its
  increment and its decrement. (The queue depth the node publishes is a copy of that counter, taken
  when a request starts and when a served one is cleaned up; it can lag behind.)\<close>

theorem provider_slots_bounded:
  assumes "reachable s0 S" "limiter_inv (pv_limiter s0)" "inFlight (pv_limiter s0) = 0" "pv_inFlightCount s0 = 0"
  shows "int (card (threads_at holds_slot S)) = inFlight (pv_limiter (svc S))
    \<and> int (card (threads_at holds_slot S)) \<le> max 0 (maxInFlight (pv_limiter s0))
    \<and> pv_inFlightCount (svc S) = of_nat (card (threads_at counted S))"
  using reachable_agrees[OF assms] by (auto simp: agrees_def limiter_inv_def)

text \<open>When every request that arrived has ended, answered or refused, in whatever interleaving, no
  slot of the limiter is held and the counter is zero: no path leaks.\<close>

lemma leaks_nothing:
  assumes "reachable s0 S" "limiter_inv (pv_limiter s0)" "inFlight (pv_limiter s0) = 0" "pv_inFlightCount s0 = 0"
    and "\<And>i t. threads S i = Some t \<Longrightarrow> \<exists>x. th_pc t = Done x"
  shows "inFlight (pv_limiter (svc S)) = 0 \<and> pv_inFlightCount (svc S) = 0"
proof -
  have "threads_at P S = {}" if "\<And>x. \<not> P (Done x)" for P
    using assms(5) that by (auto simp: threads_at_def) metis
  then show ?thesis using reachable_agrees[OF assms(1-4)] by (simp_all add: agrees_def)
qed

text \<open>C4: A request alone, its accesses taken one after the other, ends with the result and the state that
  the sequential definition \<open>serve\<close> gives: the step relation refines it.\<close>

theorem threads_refine_serve:
  "solo 17 env env2 req p (AtChecks, s) =
     (Done (fst (serve env env2 req p s)), snd (serve env env2 req p s))"
  by (rule solo_serve)

section \<open>Schedules\<close>

text \<open>What happens next, as a value: a run of the system is the fold of its moves.\<close>

datatype move = Arrive nat ChatCompletionRequest PeerContext | Access nat CallEnv gtime | Own own_move

fun sys_move :: "move \<Rightarrow> system \<Rightarrow> system" where
  "sys_move (Arrive i req p) S =
     (if threads S i = None then S\<lparr>threads := (threads S)(i \<mapsto> \<lparr>th_req = req, th_peer = p, th_pc = AtChecks\<rparr>)\<rparr> else S)"
| "sys_move (Access i env now) S =
     (case threads S i of
        None \<Rightarrow> S
      | Some t \<Rightarrow> (let (c, s) = thread_step env now (th_req t) (th_peer t) (th_pc t) (svc S)
                  in S\<lparr>svc := s, threads := (threads S)(i \<mapsto> t\<lparr>th_pc := c\<rparr>)\<rparr>))"
| "sys_move (Own m) S = S\<lparr>svc := own_client m (svc S)\<rparr>"

lemma sys_move_step: "sys_move m S = S \<or> sys_step S (sys_move m S)"
  by (cases m) (auto intro: sys_step.intros split: option.splits prod.splits)

lemma moves_reachable: "reachable s0 S \<Longrightarrow> reachable s0 (fold sys_move ms S)"
proof (induction ms arbitrary: S)
  case (Cons m ms)
  have "reachable s0 (sys_move m S)" using sys_move_step[of m S] Cons.prems by (auto intro: reachable.step)
  then show ?case using Cons.IH by simp
qed simp

text \<open>The accesses a schedule gives to a thread.\<close>

fun access_of :: "nat \<Rightarrow> move \<Rightarrow> bool" where
  "access_of i (Access j env now) = (i = j)" | "access_of i m = False"

fun arrival :: "move \<Rightarrow> bool" where
  "arrival (Arrive i req p) = True" | "arrival m = False"

lemma rank_move:
  assumes "threads S i = Some t"
  shows "\<exists>t'. threads (sys_move m S) i = Some t' \<and> pc_rank (th_pc t') \<le> pc_rank (th_pc t) - of_bool (access_of i m)"
proof (cases "access_of i m")
  case True
  then obtain env now where m: "m = Access i env now" by (cases m) auto
  obtain c s where st: "thread_step env now (th_req t) (th_peer t) (th_pc t) (svc S) = (c, s)" by force
  have "pc_rank c \<le> pc_rank (th_pc t) - 1"
  proof (cases "pc_rank (th_pc t) = 0")
    case True
    then obtain y where "th_pc t = Done y" by (cases "th_pc t") auto
    then show ?thesis using st True by auto
  qed (use thread_step_rank[OF st] in simp)
  then show ?thesis using assms by (simp add: m st)
qed (use assms in \<open>cases m; auto split: option.split prod.split\<close>)

lemma rank_moves:
  assumes "threads S i = Some t"
  shows "\<exists>t'. threads (fold sys_move ms S) i = Some t' \<and> pc_rank (th_pc t') \<le> pc_rank (th_pc t) - length (filter (access_of i) ms)"
  using assms
proof (induction ms arbitrary: S t)
  case (Cons m ms)
  obtain t1 where t1: "threads (sys_move m S) i = Some t1" "pc_rank (th_pc t1) \<le> pc_rank (th_pc t) - of_bool (access_of i m)"
    using rank_move[OF Cons.prems] by blast
  obtain t' where "threads (fold sys_move ms (sys_move m S)) i = Some t'"
    "pc_rank (th_pc t') \<le> pc_rank (th_pc t1) - length (filter (access_of i) ms)"
    using Cons.IH[OF t1(1)] by blast
  then show ?case using t1(2) by (auto split: if_splits)
qed simp

lemma no_arrival_dom: "\<not> arrival m \<Longrightarrow> dom (threads (sys_move m S)) = dom (threads S)"
  by (cases m) (auto split: option.split prod.split)

lemma no_arrivals_dom: "list_all (\<lambda>m. \<not> arrival m) ms \<Longrightarrow> dom (threads (fold sys_move ms S)) = dom (threads S)"
  by (induction ms arbitrary: S) (simp_all add: no_arrival_dom)

lemma pc_rank_top: "pc_rank c \<le> 17"
  by (cases c) simp_all

text \<open>C5: The provider drains. Whatever has happened since it started, when no more requests arrive and each
  of those under way is given 17 of its accesses, in any order among them and whatever the
  node's own client does to the shared objects meanwhile, every one of them has ended and all they took is given
  back: the limiter counts no request, every slot is free again, and the counter is zero.\<close>

theorem provider_drains:
  assumes "reachable s0 S" "limiter_inv (pv_limiter s0)" "inFlight (pv_limiter s0) = 0" "pv_inFlightCount s0 = 0"
    and "list_all (\<lambda>m. \<not> arrival m) ms" "\<And>i. i \<in> dom (threads S) \<Longrightarrow> 17 \<le> length (filter (access_of i) ms)"
  defines "S' \<equiv> fold sys_move ms S"
  shows "(\<forall>i\<in>dom (threads S). \<exists>t r. threads S' i = Some t \<and> th_pc t = Done r)
    \<and> inFlight (pv_limiter (svc S')) = 0 \<and> maxInFlight (pv_limiter (svc S')) = maxInFlight (pv_limiter s0)
    \<and> pv_inFlightCount (svc S') = 0"
proof -
  have ended: "\<exists>t r. threads S' i = Some t \<and> th_pc t = Done r" if i: "i \<in> dom (threads S)" for i
  proof -
    obtain t where "threads S i = Some t" using i by blast
    then obtain t' where t': "threads S' i = Some t'" "pc_rank (th_pc t') \<le> pc_rank (th_pc t) - length (filter (access_of i) ms)"
      unfolding S'_def using rank_moves by blast
    then have "pc_rank (th_pc t') = 0" using assms(6)[OF i] pc_rank_top[of "th_pc t"] by linarith
    then show ?thesis using t'(1) by (cases "th_pc t'") auto
  qed
  have r: "reachable s0 S'" unfolding S'_def by (rule moves_reachable[OF assms(1)])
  have "\<exists>x. th_pc t = Done x" if t: "threads S' i = Some t" for i t
  proof -
    have "i \<in> dom (threads S')" using t by blast
    then show ?thesis using ended[of i] t no_arrivals_dom[OF assms(5), of S] by (auto simp: S'_def[symmetric])
  qed
  then show ?thesis
    using ended leaks_nothing[OF r assms(2-4)] reachable_agrees[OF r assms(2-4)] by (auto simp: agrees_def)
qed

section \<open>A peer below the threshold\<close>

text \<open>A request of a peer that has not been admitted.\<close>

fun unadmitted :: "pc \<Rightarrow> bool" where
  "unadmitted AtChecks = True" | "unadmitted (Done r) = True" | "unadmitted c = False"

lemma thread_step_below:
  assumes b: "below_threshold q s" and ok: "provider_rep_ok s" and st: "thread_step env now req p c s = (c', s')"
    and quiet: "pc_ClientPeerID p = q \<Longrightarrow> unadmitted c"
  shows "below_threshold q s' \<and> provider_rep_ok s' \<and> (pc_ClientPeerID p = q \<longrightarrow> c' = c \<or> (\<exists>e. c' = Done (Inl e)))"
proof (cases c)
  case AtChecks
  obtain r s1 where a: "admit_checks env req p s = (r, s1)" by force
  have "below_threshold q s1 \<and> provider_rep_ok s1"
    using admit_checks_state[OF a] b ok by (auto simp: below_adjust rep_ok_adjust)
  then show ?thesis using st b below_admit[of p s env req] by (cases r) (auto simp: AtChecks a)
next
  case AtAcquire
  then show ?thesis using st b ok quiet by (auto split: prod.splits option.splits)
next
  case (AtBackend t)
  then show ?thesis using st b ok quiet by (auto split: sum.splits)
next
  case (ClReward r)
  then have "pc_ClientPeerID p \<noteq> q" using quiet by auto
  then show ?thesis using st b ok below_adjust(2) deltas_unit by (auto simp: ClReward rep_ok_adjust)
qed (use st b ok quiet deltas_unit in \<open>auto simp: below_adjust(1) rep_ok_adjust\<close>)

lemma own_client_below:
  assumes "below_threshold q s" "provider_rep_ok s" "m \<noteq> AnsweredBy q"
  shows "below_threshold q (own_client m s) \<and> provider_rep_ok (own_client m s)"
proof -
  have same: "own_client (FailedBy x) s = rep_adjust Penalize \<lparr>pc_ClientPeerID = x, pc_ClientName = [], pc_PoWNonce = 0\<rparr> delta_failed s"
    "own_client (AnsweredBy x) s = rep_adjust Reward \<lparr>pc_ClientPeerID = x, pc_ClientName = [], pc_PoWNonce = 0\<rparr> delta_answered s"
    if "x \<noteq> []" for x using that by (auto simp: rep_adjust_def split: option.split)
  show ?thesis
  proof (cases m)
    case (Pays n)
    have "below_threshold q (own_client (Pays n) s) = below_threshold q s" by (rule below_cong) (simp_all add: peer_score_def)
    then show ?thesis using assms Pays by (simp add: provider_rep_ok_def)
  next
    case (FailedBy x)
    have "below_threshold q (own_client (FailedBy x) s)"
      using assms(1,2) rep.penalize_other[of _ q x] below_adjust(1)[OF assms(1,2) client_deltas(1)] same(1)[of x]
      by (cases "x = []") (auto simp: below_threshold_def peer_score_def provider_rep_ok_def)
    then show ?thesis using assms(2) client_deltas rep.inv_penalize by (auto simp: FailedBy provider_rep_ok_def)
  next
    case (AnsweredBy x)
    have "below_threshold q (own_client (AnsweredBy x) s)"
      using assms rep.reward_other[of _ q x] by (auto simp: AnsweredBy below_threshold_def peer_score_def provider_rep_ok_def)
    then show ?thesis using assms(2) client_deltas rep.inv_reward by (auto simp: AnsweredBy provider_rep_ok_def)
  qed
qed

definition shut_out :: "string \<Rightarrow> system \<Rightarrow> bool" where
  "shut_out q S \<longleftrightarrow> below_threshold q (svc S) \<and> provider_rep_ok (svc S)
     \<and> (\<forall>i t. threads S i = Some t \<and> pc_ClientPeerID (th_peer t) = q \<longrightarrow> unadmitted (th_pc t))"

lemma shut_out_move:
  assumes "shut_out q S" "m \<noteq> Own (AnsweredBy q)" shows "shut_out q (sys_move m S)"
proof (cases m)
  case (Arrive i req p)
  then show ?thesis using assms(1) by (auto simp: shut_out_def)
next
  case (Own x)
  then show ?thesis using assms own_client_below[of q "svc S" x] by (auto simp: shut_out_def)
next
  case (Access i env now)
  show ?thesis
  proof (cases "threads S i")
    case (Some t)
    obtain c s where st: "thread_step env now (th_req t) (th_peer t) (th_pc t) (svc S) = (c, s)" by force
    have "pc_ClientPeerID (th_peer t) = q \<Longrightarrow> unadmitted (th_pc t)" using assms(1) Some by (simp add: shut_out_def)
    with thread_step_below[OF _ _ st, of q] assms(1)
    have "below_threshold q s \<and> provider_rep_ok s \<and> (pc_ClientPeerID (th_peer t) = q \<longrightarrow> unadmitted c)"
      unfolding shut_out_def by (metis unadmitted.simps(2))
    then show ?thesis using assms(1) by (auto simp: shut_out_def Access Some st)
  qed (use assms(1) in \<open>simp add: Access\<close>)
qed

text \<open>How a request of that peer ends that was not yet admitted.\<close>

definition refused_only :: "string \<Rightarrow> nat set \<Rightarrow> system \<Rightarrow> bool" where
  "refused_only q old S \<longleftrightarrow> (\<forall>i t. threads S i = Some t \<and> pc_ClientPeerID (th_peer t) = q \<and> i \<notin> old
     \<longrightarrow> th_pc t = AtChecks \<or> (\<exists>e. th_pc t = Done (Inl e)))"

lemma refused_move:
  assumes "shut_out q S" "refused_only q old S" shows "refused_only q old (sys_move m S)"
proof (cases m)
  case (Arrive i req p)
  then show ?thesis using assms(2) by (auto simp: refused_only_def)
next
  case (Own x)
  then show ?thesis using assms(2) by (auto simp: refused_only_def)
next
  case (Access i env now)
  show ?thesis
  proof (cases "threads S i")
    case (Some t)
    obtain c s where st: "thread_step env now (th_req t) (th_peer t) (th_pc t) (svc S) = (c, s)" by force
    have "pc_ClientPeerID (th_peer t) = q \<Longrightarrow> unadmitted (th_pc t)" using assms(1) Some by (simp add: shut_out_def)
    with thread_step_below[OF _ _ st] have "pc_ClientPeerID (th_peer t) = q \<longrightarrow> c = th_pc t \<or> (\<exists>e. c = Done (Inl e))"
      using assms(1) by (auto simp: shut_out_def)
    moreover have "pc_ClientPeerID (th_peer t) = q \<and> i \<notin> old \<longrightarrow> th_pc t = AtChecks \<or> (\<exists>e. th_pc t = Done (Inl e))"
      using assms(2) Some unfolding refused_only_def by blast
    ultimately have new: "pc_ClientPeerID (th_peer t) = q \<and> i \<notin> old \<longrightarrow> c = AtChecks \<or> (\<exists>e. c = Done (Inl e))" by metis
    show ?thesis using assms(2) new unfolding refused_only_def by (auto simp: Access Some st)
  qed (use assms(2) in \<open>simp add: Access\<close>)
qed

text \<open>C11: A peer whose score is below the provider's threshold, and of which no request is past the checks,
  stays below it and is served nothing, in every interleaving of its own and all other requests, until this
  node's own client counts an answer of that very peer in its favour (in mode \<open>both\<close> the two services rate peers in one
  tracker): every request of the peer that was waiting or arrives later is refused, none holds a slot.\<close>

theorem ban_until_own_answer:
  assumes "below_threshold q (svc S)" "provider_rep_ok (svc S)"
    and "\<forall>i t. threads S i = Some t \<and> pc_ClientPeerID (th_peer t) = q \<longrightarrow> unadmitted (th_pc t)"
    and "Own (AnsweredBy q) \<notin> set ms"
  defines "S' \<equiv> fold sys_move ms S" and "old \<equiv> threads_at (\<lambda>c. \<exists>r. c = Done r) S"
  shows "below_threshold q (svc S')
    \<and> (\<forall>i t. threads S' i = Some t \<and> pc_ClientPeerID (th_peer t) = q \<longrightarrow>
         unadmitted (th_pc t) \<and> (i \<notin> old \<longrightarrow> th_pc t = AtChecks \<or> (\<exists>e. th_pc t = Done (Inl e))))"
proof -
  have "shut_out q S" using assms(1-3) by (simp add: shut_out_def)
  moreover have "refused_only q old S"
    using assms(3) unfolding refused_only_def old_def threads_at_def by (auto elim!: unadmitted.elims)
  ultimately have "shut_out q (fold sys_move ms S) \<and> refused_only q old (fold sys_move ms S)"
    using assms(4) by (induction ms arbitrary: S) (auto simp: shut_out_move refused_move)
  then show ?thesis by (auto simp: S'_def shut_out_def refused_only_def)
qed

section \<open>Examples\<close>

text \<open>One request arrived and at its second access.\<close>

lemma demo_reachable:
  "\<exists>S. reachable (demo_provider []) S \<and> dom (threads S) = {0}"
proof -
  define S0 where "S0 = start_system (demo_provider [])"
  define S1 where "S1 = S0\<lparr>threads := (threads S0)(0 \<mapsto> \<lparr>th_req = zero_request, th_peer = demo_peer, th_pc = AtChecks\<rparr>)\<rparr>"
  obtain c s where st: "thread_step demo_env 0 zero_request demo_peer AtChecks (svc S1) = (c, s)" by force
  define S2 where "S2 = S1\<lparr>svc := s, threads := (threads S1)(0 \<mapsto> \<lparr>th_req = zero_request, th_peer = demo_peer, th_pc = AtChecks\<rparr>\<lparr>th_pc := c\<rparr>)\<rparr>"
  have "sys_step S0 S1" unfolding S1_def by (rule sys_step.arrive) (simp add: S0_def start_system_def)
  moreover have "sys_step S1 S2" unfolding S2_def
    by (rule sys_step.run[where env = demo_env and now = 0]) (simp_all add: S1_def S0_def start_system_def st[unfolded S1_def S0_def start_system_def, simplified])
  ultimately have "reachable (demo_provider []) S2" unfolding S0_def by (blast intro: reachable.intros)
  moreover have "dom (threads S2) = {0}" by (auto simp: S2_def S1_def S0_def start_system_def)
  ultimately show ?thesis by blast
qed

lemma demo_idle: "inFlight (pv_limiter (demo_provider scs)) = 0" "pv_inFlightCount (demo_provider scs) = 0"
  "maxInFlight (pv_limiter (demo_provider scs)) = 2"
  by (simp_all add: demo_provider_def NewProviderService_def NewLimiter_def)

lemma provider_slots_bounded_witness:
  "\<exists>S. reachable (demo_provider []) S \<and> dom (threads S) = {0} \<and> int (card (threads_at holds_slot S)) \<le> 2"
proof -
  obtain S where S: "reachable (demo_provider []) S" "dom (threads S) = {0}" using demo_reachable by blast
  have "int (card (threads_at holds_slot S)) \<le> 2"
    using provider_slots_bounded[OF S(1) demo_limiter demo_idle(1,2)] by (simp add: demo_idle(3))
  then show ?thesis using S by blast
qed

lemma provider_drains_witness:
  "\<exists>S. reachable (demo_provider []) S \<and> dom (threads S) = {0}
     \<and> inFlight (pv_limiter (svc (fold sys_move (replicate 17 (Access 0 demo_env 0)) S))) = 0"
proof -
  obtain S where S: "reachable (demo_provider []) S" "dom (threads S) = {0}" using demo_reachable by blast
  have "inFlight (pv_limiter (svc (fold sys_move (replicate 17 (Access 0 demo_env 0)) S))) = 0"
    using provider_drains[OF S(1) demo_limiter demo_idle(1,2), of "replicate 17 (Access 0 demo_env 0)"] S(2)
    by (simp add: list_all_iff)
  then show ?thesis using S by blast
qed

lemma ban_until_own_answer_witness:
  "below_threshold ''c'' (svc (fold sys_move [Arrive 0 zero_request demo_peer, Own (FailedBy ''c''), Access 0 demo_env 0]
     (start_system (demo_provider [(''c'', Fin 0)]))))"
proof -
  let ?S = "start_system (demo_provider [(''c'', Fin 0)])"
  have b: "below_threshold ''c'' (svc ?S)"
    by (simp add: start_system_def below_threshold_def demo_provider_def NewProviderService_def demo_policy_def peer_score_def
        Score_def NewReputationTracker_def)
  have ok: "provider_rep_ok (svc ?S)"
    by (simp add: start_system_def provider_rep_ok_def demo_provider_def NewProviderService_def rep_inv_def NewReputationTracker_def map_wf_def)
  have "Own (AnsweredBy ''c'') \<notin> set [Arrive 0 zero_request demo_peer, Own (FailedBy ''c''), Access 0 demo_env 0]" by simp
  from ban_until_own_answer[OF b ok _ this] show ?thesis by (simp only: start_system_def) simp
qed

end
