(* ===== verification/ClientRuns.thy ===== *)
theory ClientRuns
  imports Client
begin

text \<open>
  The client under concurrency. Every request of \<open>ClientService.Infer\<close> is a thread; its program counter
  runs through its accesses to what it shares with other requests (the options, the ledger, the
  reputations, the known and the sticky peers), each under a mutex of its own in the source, so
  threads interleave between them. Meanwhile an operator changes the routing settings, and in
  mode \<open>both\<close> the provider service works on the same ledger and the same reputations. One snapshot of the
  options decides the candidates; the sticky time alone is read again, as in the source.
\<close>

section \<open>The reads under the lock\<close>

definition optionsSnapshot :: "ClientService \<Rightarrow> ClientOptions" where
  "optionsSnapshot s =
     (let cp = cs_opts s in
      cp\<lparr>co_FavoritePeers := [] @ co_FavoritePeers (cs_opts s), co_BlockedPeers := [] @ co_BlockedPeers (cs_opts s),
         co_AllowedPeers := [] @ co_AllowedPeers (cs_opts s)\<rparr>)"

definition knownPeers :: "ClientService \<Rightarrow> string set" where
  "knownPeers s = {k. k \<in> cs_known s}"

lemma reads [simp]: "optionsSnapshot s = cs_opts s" "knownPeers s = cs_known s"
  by (simp_all add: optionsSnapshot_def knownPeers_def)

section \<open>Threads\<close>

datatype client_pc =
    Snap
  | Paying ClientOptions
  | Discovering ClientOptions
  | Scoring ClientOptions "CapabilityDocument list" "CapabilityDocument list"
  | Ranking ClientOptions "CapabilityDocument list"
  | StickyTTL ClientOptions "PeerScore list"
  | StickyPeer ClientOptions "PeerScore list"
  | Trying ClientOptions PeerContext nat "go_error option" "PeerScore list"
  | Failing ClientOptions PeerContext nat go_error PeerScore "PeerScore list"
  | Rewarding PeerScore GatewayResponse
  | Marking PeerScore GatewayResponse
  | Remembering PeerScore GatewayResponse
  | Storing duration PeerScore GatewayResponse
  | Ended "go_error + InferenceResult"

text \<open>The preferences and the price of a request are those of its snapshot.\<close>

definition snapshot_preferences :: "ClientOptions \<Rightarrow> string set \<Rightarrow> Preferences" where
  "snapshot_preferences opts known =
     \<lparr>pref_Policy = co_RoutingPolicy opts, pref_Favorites = toSet (co_FavoritePeers opts), pref_Known = known,
      pref_Allowed = toSet (co_AllowedPeers opts), pref_Blocked = toSet (co_BlockedPeers opts)\<rparr>"

definition pay :: "ClientOptions \<Rightarrow> ClientService \<Rightarrow> bool \<times> ClientService" where
  "pay opts s = (case cs_ledger s of
     None \<Rightarrow> (True, s)
   | Some l \<Rightarrow> (let (ok, l) = Spend (co_CreditCost opts) l in (ok, s\<lparr>cs_ledger := Some l\<rparr>)))"

text \<open>The work between the sticky choice and the first attempt touches nothing that is shared.\<close>

definition ready :: "ClientOptions \<Rightarrow> ChatCompletionRequest \<Rightarrow> PeerScore list \<Rightarrow> client_pc" where
  "ready opts req ranked =
     (if co_PoWDifficulty opts > 0 \<and> co_PeerID opts = [] then Ended (Inl (ErrText ''pow enabled but client peer id is empty''))
      else Trying opts (context_of req opts) 0 None ranked)"

text \<open>The locked part of \<open>applyStickyPriority\<close>, and the search after it.\<close>

definition sticky_pick :: "gtime \<Rightarrow> string \<Rightarrow> PeerScore list \<Rightarrow> ClientService \<Rightarrow> PeerScore list \<times> ClientService" where
  "sticky_pick now modelName ranked s =
     (case map_get (cs_sticky s) modelName of
        None \<Rightarrow> (ranked, s)
      | Some ch \<Rightarrow>
          if time_after now (sk_expires ch) then (ranked, s\<lparr>cs_sticky := map_del modelName (cs_sticky s)\<rparr>)
          else (bring_forward (sk_peerID ch) [] ranked, s))"

text \<open>One access; \<open>now\<close>, \<open>disc\<close> and \<open>gw\<close> are what the clock, the discovery and the gateway answer to it.\<close>

fun client_step ::
  "sorter \<Rightarrow> gtime \<Rightarrow> go_error + CapabilityDocument list \<Rightarrow> gateway \<Rightarrow> ChatCompletionRequest
    \<Rightarrow> client_pc \<Rightarrow> ClientService \<Rightarrow> client_pc \<times> ClientService" where
  "client_step srt now disc gw req Snap s = (Paying (optionsSnapshot s), s)"
| "client_step srt now disc gw req (Paying opts) s =
     (let (ok, s) = pay opts s in (if ok then Discovering opts else Ended (Inl (ErrText ''insufficient credits'')), s))"
| "client_step srt now disc gw req (Discovering opts) s =
     (case disc of Inl e \<Rightarrow> (Ended (Inl (ErrWrap ''discover peers: '' e)), s) | Inr caps \<Rightarrow> (Scoring opts [] caps, s))"
| "client_step srt now disc gw req (Scoring opts done []) s = (Ranking opts done, s)"
| "client_step srt now disc gw req (Scoring opts done (c # cs)) s =
     (Scoring opts (done @ [cap_reliability (cs_reputation s) c]) cs, s)"
| "client_step srt now disc gw req (Ranking opts caps) s =
     (let ranked = RankWithPreferences srt (cs_weights s) caps req (snapshot_preferences opts (knownPeers s)) in
      (if ranked = [] then Ended (Inl ErrNoPeers) else StickyTTL opts ranked, s))"
| "client_step srt now disc gw req (StickyTTL opts ranked) s =
     (if co_StickyPeerTTL (optionsSnapshot s) \<le> 0 \<or> length ranked < 2 then ready opts req ranked else StickyPeer opts ranked, s)"
| "client_step srt now disc gw req (StickyPeer opts ranked) s =
     (let (ranked, s) = sticky_pick now (req_Model req) ranked s in (ready opts req ranked, s))"
| "client_step srt now disc gw req (Trying opts pc k lastErr []) s =
     (Ended (Inl (ErrWrap ''all peers failed: '' (case lastErr of None \<Rightarrow> ErrNoPeers | Some e \<Rightarrow> e))), s)"
| "client_step srt now disc gw req (Trying opts pc k lastErr (c # cs)) s =
     (case gw (GatewayURL (ps_Capability c)) req pc of
        Inl e \<Rightarrow> (Failing opts pc k e c cs, s) | Inr res \<Rightarrow> (Rewarding c res, s))"
| "client_step srt now disc gw req (Failing opts pc k e c cs) s =
     (Trying opts pc (Suc k) (Some e) cs, client_rep Penalize (PeerID (ps_Capability c)) delta_failed s)"
| "client_step srt now disc gw req (Rewarding c res) s =
     (Marking c res, client_rep Reward (PeerID (ps_Capability c)) delta_answered s)"
| "client_step srt now disc gw req (Marking c res) s = (Remembering c res, markKnown (PeerID (ps_Capability c)) s)"
| "client_step srt now disc gw req (Remembering c res) s =
     (if co_StickyPeerTTL (optionsSnapshot s) \<le> 0 then Ended (Inr (answer_of res))
      else Storing (co_StickyPeerTTL (optionsSnapshot s)) c res, s)"
| "client_step srt now disc gw req (Storing ttl c res) s =
     (Ended (Inr (answer_of res)),
      s\<lparr>cs_sticky := map_put (req_Model req) \<lparr>sk_peerID = PeerID (ps_Capability c), sk_expires = time_add now ttl\<rparr> (cs_sticky s)\<rparr>)"
| "client_step srt now disc gw req (Ended r) s = (Ended r, s)"

section \<open>Alone, a thread computes what \<open>ClientInfer\<close> says\<close>

text \<open>The answers a thread gets when its environment is a \<open>ClientEnv\<close>.\<close>

fun attempt_index :: "client_pc \<Rightarrow> nat" where
  "attempt_index (Trying opts pc k le cs) = k" | "attempt_index pc = 0"

fun client_clock :: "client_pc \<Rightarrow> nat" where
  "client_clock (Storing ttl c res) = 1" | "client_clock pc = 0"

definition alone :: "sorter \<Rightarrow> ClientEnv \<Rightarrow> ChatCompletionRequest \<Rightarrow> client_pc \<times> ClientService \<Rightarrow> client_pc \<times> ClientService" where
  "alone srt env req x =
     client_step srt (cl_now env (client_clock (fst x))) (cl_discovery env) (cl_gateway env (attempt_index (fst x))) req (fst x) (snd x)"

definition leads_to :: "sorter \<Rightarrow> ClientEnv \<Rightarrow> ChatCompletionRequest \<Rightarrow> client_pc \<times> ClientService \<Rightarrow> client_pc \<times> ClientService \<Rightarrow> bool" where
  "leads_to srt env req x y = (\<exists>n. (alone srt env req ^^ n) x = y)"

lemma leads_refl [intro]: "leads_to srt env req x x"
  unfolding leads_to_def by (rule exI[of _ 0]) simp

lemma leads_step: "leads_to srt env req (alone srt env req x) y \<Longrightarrow> leads_to srt env req x y"
  unfolding leads_to_def by (metis funpow_simps_right(2) o_apply)

lemma leads_scoring:
  "leads_to srt env req (Scoring opts (done @ map (cap_reliability (cs_reputation s)) caps) [], s) y
    \<Longrightarrow> leads_to srt env req (Scoring opts done caps, s) y"
proof (induction caps arbitrary: "done")
  case (Cons c caps)
  have "leads_to srt env req (Scoring opts (done @ [cap_reliability (cs_reputation s) c]) caps, s) y"
    using Cons.prems by - (rule Cons.IH, simp)
  then show ?case by - (rule leads_step, simp add: alone_def)
qed simp

lemma leads_trying:
  "try_peers (cl_gateway env) (cl_now env 1) req pc k le cs s = (r, s') \<Longrightarrow> leads_to srt env req (Trying opts pc k le cs, s) (Ended r, s')"
proof (induction cs arbitrary: k le s)
  case Nil
  then show ?case by - (rule leads_step, auto simp: alone_def)
next
  case (Cons c cs)
  show ?case
  proof (cases "cl_gateway env k (GatewayURL (ps_Capability c)) req pc")
    case (Inl e)
    then have "leads_to srt env req (Trying opts pc (Suc k) (Some e) cs, client_rep Penalize (PeerID (ps_Capability c)) delta_failed s) (Ended r, s')"
      using Cons by (simp add: Let_def)
    then show ?thesis by - (rule leads_step, simp add: alone_def Inl, rule leads_step, simp add: alone_def)
  next
    case (Inr a)
    note res = Cons.prems[unfolded try_peers_simps Inr Let_def sum.case, symmetric]
    let ?s = "markKnown (PeerID (ps_Capability c)) (client_rep Reward (PeerID (ps_Capability c)) delta_answered s)"
    have "leads_to srt env req (Remembering c a, ?s) (Ended r, s')"
    proof (cases "co_StickyPeerTTL (cs_opts ?s) \<le> 0")
      case True
      then show ?thesis using res by - (rule leads_step, auto simp: alone_def updateSticky_def answer_of_def)
    next
      case False
      then show ?thesis using res
        by - (rule leads_step, simp add: alone_def, rule leads_step, auto simp: alone_def updateSticky_def answer_of_def)
    qed
    then show ?thesis
      by - (rule leads_step, simp add: alone_def Inr, rule leads_step, simp add: alone_def, rule leads_step, simp add: alone_def)
  qed
qed

lemma pay_charge: "pay (cs_opts s) s = charge s"
  by (simp add: pay_def charge_def)

lemma ranking_candidates:
  "cs_opts s = opts \<Longrightarrow> RankWithPreferences srt (cs_weights s) (map (cap_reliability (cs_reputation s)) caps) req
     (snapshot_preferences opts (cs_known s)) = candidates srt caps req s"
  by (simp add: candidates_def snapshot_preferences_def preferences_def)

lemma sticky_same:
  "cs_opts s = opts \<Longrightarrow> applyStickyPriority now m ranked s =
     (if co_StickyPeerTTL opts \<le> 0 \<or> length ranked < 2 then (ranked, s) else sticky_pick now m ranked s)"
  by (simp add: applyStickyPriority_def sticky_pick_def)

lemma leads_ranked:
  assumes "cs_opts s = opts" "applyStickyPriority (cl_now env 0) (req_Model req) ranked s = (ranked', s')"
    and "leads_to srt env req (ready opts req ranked', s') y"
  shows "leads_to srt env req (StickyTTL opts ranked, s) y"
proof (cases "co_StickyPeerTTL opts \<le> 0 \<or> length ranked < 2")
  case True
  then show ?thesis using assms by - (rule leads_step, simp add: alone_def sticky_same)
next
  case False
  then have "leads_to srt env req (StickyPeer opts ranked, s) y"
    using assms by - (rule leads_step, simp add: alone_def sticky_same)
  then show ?thesis using False assms(1) by - (rule leads_step, simp add: alone_def)
qed

lemma leads_trans: "leads_to srt env req x y \<Longrightarrow> leads_to srt env req y z \<Longrightarrow> leads_to srt env req x z"
  unfolding leads_to_def by (metis funpow_add o_apply)

lemma leads_paid:
  assumes "charge s = (paid, s1)"
  shows "leads_to srt env req (Snap, s) (if paid then Discovering (cs_opts s) else Ended (Inl (ErrText ''insufficient credits'')), s1)"
  unfolding leads_to_def by (rule exI[of _ 2]) (simp add: numeral_2_eq_2 alone_def pay_charge assms)

lemma leads_caps:
  assumes "cl_discovery env = Inr caps" "leads_to srt env req (Ranking opts (map (cap_reliability (cs_reputation s)) caps), s) y"
  shows "leads_to srt env req (Discovering opts, s) y"
  using assms
  by - (rule leads_step, simp add: alone_def, rule leads_scoring, rule leads_step, simp add: alone_def)

lemma leads_discovered:
  assumes "cl_discovery env = Inr caps" "cs_opts s = opts"
  shows "leads_to srt env req (Discovering opts, s)
    (if candidates srt caps req s = [] then Ended (Inl ErrNoPeers) else StickyTTL opts (candidates srt caps req s), s)"
proof -
  have "leads_to srt env req (Ranking opts (map (cap_reliability (cs_reputation s)) caps), s)
    (if candidates srt caps req s = [] then Ended (Inl ErrNoPeers) else StickyTTL opts (candidates srt caps req s), s)"
    unfolding leads_to_def by (rule exI[of _ 1]) (simp add: alone_def ranking_candidates[OF assms(2)])
  then show ?thesis by (rule leads_caps[OF assms(1)])
qed

lemma leads_ready:
  assumes "charge s = (True, s1)" "cl_discovery env = Inr caps" "candidates srt caps req s1 \<noteq> []"
    "applyStickyPriority (cl_now env 0) (req_Model req) (candidates srt caps req s1) s1 = (ranked, s2)"
  shows "leads_to srt env req (Snap, s) (ready (cs_opts s) req ranked, s2)"
proof -
  note o1 = charge_frame(1)[OF assms(1)]
  have "leads_to srt env req (Discovering (cs_opts s), s1) (StickyTTL (cs_opts s) (candidates srt caps req s1), s1)"
    using leads_discovered[OF assms(2) o1, of srt req] assms(3) by simp
  moreover have "leads_to srt env req (StickyTTL (cs_opts s) (candidates srt caps req s1), s1) (ready (cs_opts s) req ranked, s2)"
    by (rule leads_ranked[OF o1 assms(4)]) (rule leads_refl)
  ultimately show ?thesis by (rule leads_trans[OF leads_paid[OF assms(1), simplified] leads_trans])
qed

lemma alone_infer:
  assumes "ClientInfer srt env req s = (r, s')"
  shows "leads_to srt env req (Snap, s) (Ended r, s')"
proof -
  obtain paid s1 where ch: "charge s = (paid, s1)" by force
  note o1 = charge_frame(1)[OF ch]
  note paying = leads_paid[OF ch, of srt env req]
  from assms ch show ?thesis
  proof (cases rule: ClientInfer_cases)
    case broke
    then show ?thesis using paying by simp
  next
    case (undiscovered e)
    have "leads_to srt env req (Discovering (cs_opts s), s1) (Ended r, s')"
      by (rule leads_step) (simp add: alone_def undiscovered leads_refl)
    then show ?thesis using leads_trans[OF paying] undiscovered(1) by simp
  next
    case (unranked caps)
    then show ?thesis using leads_trans[OF paying] leads_discovered[OF unranked(2) o1, of srt req] by simp
  next
    case (nameless caps)
    obtain ranked s2 where st: "applyStickyPriority (cl_now env 0) (req_Model req) (candidates srt caps req s1) s1 = (ranked, s2)" by force
    show ?thesis using leads_ready[OF ch[unfolded eqTrueI[OF nameless(1)]] nameless(2,3) st] nameless st by (simp add: ready_def)
  next
    case (tried caps ranked s2)
    have "ready (cs_opts s) req ranked = Trying (cs_opts s) (context_of req (cs_opts s)) 0 None ranked"
      using tried(4) by (auto simp: ready_def)
    then show ?thesis
      using leads_trans[OF leads_ready[OF ch[unfolded eqTrueI[OF tried(1)]] tried(2,3,5)]] leads_trying[OF tried(6)] by simp
  qed
qed

text \<open>C8: A request alone computes what the sequential definition says: from its first access it gets, one
  access after the other, to the result and the state of \<open>ClientInfer\<close>.\<close>

theorem requests_refine_infer:
  "\<exists>n. (alone srt env req ^^ n) (Snap, s) = (Ended (fst (ClientInfer srt env req s)), snd (ClientInfer srt env req s))"
  using alone_infer[OF surjective_pairing, of srt env req s] by (simp add: leads_to_def)

section \<open>Every thread ends\<close>

text \<open>How many accesses are left at most when discovery never answers with more than \<open>m\<close> documents.\<close>

fun client_rank :: "nat \<Rightarrow> client_pc \<Rightarrow> nat" where
  "client_rank m Snap = 3 * m + 12"
| "client_rank m (Paying opts) = 3 * m + 11"
| "client_rank m (Discovering opts) = 3 * m + 10"
| "client_rank m (Scoring opts done caps) = 3 * length caps + 2 * length done + 9"
| "client_rank m (Ranking opts caps) = 2 * length caps + 8"
| "client_rank m (StickyTTL opts ranked) = 2 * length ranked + 7"
| "client_rank m (StickyPeer opts ranked) = 2 * length ranked + 6"
| "client_rank m (Trying opts pc k le cs) = 2 * length cs + 5"
| "client_rank m (Failing opts pc k e c cs) = 2 * length cs + 6"
| "client_rank m (Rewarding c res) = 4"
| "client_rank m (Marking c res) = 3"
| "client_rank m (Remembering c res) = 2"
| "client_rank m (Storing ttl c res) = 1"
| "client_rank m (Ended r) = 0"

lemma ready_rank: "client_rank m (ready opts req ranked) \<le> 2 * length ranked + 5"
  by (simp add: ready_def)

lemma ranked_length:
  assumes "slice_sort srt" shows "length (RankWithPreferences srt w peers req pref) \<le> length peers"
proof -
  have "length (RankWithPreferences srt w peers req pref) = length (filter (eligible req pref peers) peers)"
    using mset_eq_length[OF RankWithPreferences_mset[OF assms, of w peers req pref]] by simp
  then show ?thesis by simp
qed

lemma sticky_pick_ranked:
  assumes "sticky_pick now m ranked s = (ranked', s')"
  shows "mset ranked' = mset ranked" "cs_opts s' = cs_opts s" "cs_ledger s' = cs_ledger s" "cs_known s' = cs_known s"
    "cs_reputation s' = cs_reputation s" "cs_weights s' = cs_weights s"
  using assms by (auto simp: sticky_pick_def bring_forward_eq peer_first_mset split: option.splits if_splits)

lemma client_step_rank:
  assumes "client_step srt now disc gw req c s = (c', s')" "slice_sort srt" "\<And>caps. disc = Inr caps \<Longrightarrow> length caps \<le> m"
    and "client_rank m c \<noteq> 0"
  shows "client_rank m c' < client_rank m c"
  using assms(1)
proof (cases rule: client_step.cases[of "(srt, now, disc, gw, req, c, s)"])
  case (6 srt now disc gw req opts caps s)
  then show ?thesis
    using assms ranked_length[OF assms(2), of "cs_weights s" caps req "snapshot_preferences opts (cs_known s)"] by (auto simp: Let_def)
next
  case (7 srt now disc gw req opts ranked s)
  then show ?thesis using assms ready_rank[of m opts req ranked] by auto
next
  case (8 srt now disc gw req opts ranked s)
  obtain ranked' s1 where p: "sticky_pick now (req_Model req) ranked s = (ranked', s1)" by force
  have "length ranked' = length ranked" by (rule mset_eq_length[OF sticky_pick_ranked(1)[OF p]])
  then show ?thesis using 8 assms(1) ready_rank[of m opts req ranked'] by (auto simp: p)
qed (use assms in \<open>auto split: prod.splits sum.splits if_splits\<close>)

text \<open>A thread's program counter over its own accesses, whatever each finds.\<close>

definition client_trace ::
  "sorter \<Rightarrow> ChatCompletionRequest \<Rightarrow> (gtime \<times> (go_error + CapabilityDocument list) \<times> gateway \<times> ClientService) list \<Rightarrow> client_pc \<Rightarrow> client_pc" where
  "client_trace srt req = fold (\<lambda>(now, disc, gw, s) c. fst (client_step srt now disc gw req c s))"

lemma client_trace_rank:
  assumes "slice_sort srt" "\<forall>(now, disc, gw, s)\<in>set xs. \<forall>caps. disc = Inr caps \<longrightarrow> length caps \<le> m"
  shows "client_rank m (client_trace srt req xs c) \<le> client_rank m c - length xs"
  using assms(2)
proof (induction xs arbitrary: c)
  case Nil
  then show ?case by (simp add: client_trace_def)
next
  case (Cons x xs)
  obtain now disc gw s where x: "x = (now, disc, gw, s)" by (cases x)
  obtain c' s' where st: "client_step srt now disc gw req c s = (c', s')" by force
  have "client_rank m c' \<le> client_rank m c - 1"
  proof (cases "client_rank m c = 0")
    case True
    then obtain y where "c = Ended y" by (cases c) auto
    then show ?thesis using st by auto
  next
    case False
    then show ?thesis using client_step_rank[OF st assms(1) _ False] Cons.prems by (fastforce simp: x)
  qed
  then have "client_rank m c' - length xs \<le> client_rank m c - length (x # xs)" by simp
  then show ?case using Cons.IH[of c'] Cons.prems by (simp add: x client_trace_def st)
qed

text \<open>C9: A request of a client ends, whatever other requests and the operator do to the shared state
  meanwhile: if discovery never answers with more than \<open>m\<close> documents, after at most \<open>3 m + 12\<close> of its
  accesses.\<close>

theorem requests_terminate:
  assumes "slice_sort srt" "\<forall>(now, disc, gw, s)\<in>set xs. \<forall>caps. disc = Inr caps \<longrightarrow> length caps \<le> m" "3 * m + 12 \<le> length xs"
  shows "\<exists>r. client_trace srt req xs Snap = Ended r"
  using client_trace_rank[OF assms(1,2), of req Snap] assms(3) by (cases "client_trace srt req xs Snap") auto

section \<open>The system\<close>

record client_thread =
  ct_req :: ChatCompletionRequest
  ct_pc :: client_pc

text \<open>\<open>cy_earned\<close> counts the requests the provider service of the node has been paid for.\<close>

record client_system =
  cy_svc :: ClientService
  cy_threads :: "nat \<Rightarrow> client_thread option"
  cy_earned :: nat

text \<open>A request arrives or moves on, an operator changes the settings, or the provider service of the
  same node earns a credit or rates a peer.\<close>

inductive client_sys_step :: "sorter \<Rightarrow> client_system \<Rightarrow> client_system \<Rightarrow> bool" for srt where
  arrive: "cy_threads S i = None \<Longrightarrow>
    client_sys_step srt S (S\<lparr>cy_threads := (cy_threads S)(i \<mapsto> \<lparr>ct_req = req, ct_pc = Snap\<rparr>)\<rparr>)"
| run: "cy_threads S i = Some t \<Longrightarrow> client_step srt now disc gw (ct_req t) (ct_pc t) (cy_svc S) = (c, s) \<Longrightarrow>
    client_sys_step srt S (S\<lparr>cy_svc := s, cy_threads := (cy_threads S)(i \<mapsto> t\<lparr>ct_pc := c\<rparr>)\<rparr>)"
| update: "client_sys_step srt S (S\<lparr>cy_svc := UpdateRoutingSettings new (cy_svc S)\<rparr>)"
| select: "client_sys_step srt S (S\<lparr>cy_svc := SelectPeerManual p (cy_svc S)\<rparr>)"
| earn: "client_sys_step srt S (S\<lparr>cy_svc := (cy_svc S)\<lparr>cs_ledger := map_option (Earn 1) (cs_ledger (cy_svc S))\<rparr>,
    cy_earned := Suc (cy_earned S)\<rparr>)"
| rate: "how = Penalize \<or> how = Reward \<Longrightarrow> client_sys_step srt S (S\<lparr>cy_svc := client_rep how p d (cy_svc S)\<rparr>)"

definition start_clients :: "ClientService \<Rightarrow> client_system" where
  "start_clients s = \<lparr>cy_svc = s, cy_threads = Map.empty, cy_earned = 0\<rparr>"

inductive client_reachable :: "sorter \<Rightarrow> ClientService \<Rightarrow> client_system \<Rightarrow> bool" for srt s0 where
  initial: "client_reachable srt s0 (start_clients s0)"
| step: "client_reachable srt s0 S \<Longrightarrow> client_sys_step srt S S' \<Longrightarrow> client_reachable srt s0 S'"

inductive_cases client_sys_stepE: "client_sys_step srt S S'"

fun past_payment :: "client_pc \<Rightarrow> bool" where
  "past_payment Snap = False" | "past_payment (Paying opts) = False"
| "past_payment (Ended r) = (r \<noteq> Inl (ErrText ''insufficient credits''))" | "past_payment pc = True"

fun snapshot_of :: "client_pc \<Rightarrow> ClientOptions option" where
  "snapshot_of (Paying opts) = Some opts" | "snapshot_of (Discovering opts) = Some opts"
| "snapshot_of (Scoring opts done caps) = Some opts" | "snapshot_of (Ranking opts caps) = Some opts"
| "snapshot_of (StickyTTL opts ranked) = Some opts" | "snapshot_of (StickyPeer opts ranked) = Some opts"
| "snapshot_of (Trying opts pc k le cs) = Some opts" | "snapshot_of (Failing opts pc k e c cs) = Some opts"
| "snapshot_of pc = None"

definition paid_threads :: "client_system \<Rightarrow> nat set" where
  "paid_threads S = {i. \<exists>t. cy_threads S i = Some t \<and> past_payment (ct_pc t)}"

section \<open>What one access keeps\<close>

lemma pay_frame:
  assumes "pay opts s = (ok, s')"
  shows "cs_opts s' = cs_opts s" "cs_weights s' = cs_weights s"
  using assms by (auto simp: pay_def split: option.splits prod.splits)

lemma client_step_opts:
  assumes "client_step srt now disc gw req c s = (c', s')" shows "cs_opts s' = cs_opts s"
  using assms
  by (cases "(srt, now, disc, gw, req, c, s)" rule: client_step.cases)
    (auto simp: keeps Let_def dest: pay_frame sticky_pick_ranked split: prod.splits sum.splits if_splits)

lemma client_step_snapshot:
  assumes "client_step srt now disc gw req c s = (c', s')" "snapshot_of c' = Some opts"
  shows "snapshot_of c = Some opts \<or> c = Snap \<and> opts = cs_opts s"
  using assms
  by (cases "(srt, now, disc, gw, req, c, s)" rule: client_step.cases)
    (auto simp: Let_def ready_def split: prod.splits sum.splits if_splits)

lemma client_step_paid:
  assumes "client_step srt now disc gw req c s = (c', s')" "cs_ledger s = Some l" "0 \<le> credits l"
    and "\<And>opts. snapshot_of c = Some opts \<Longrightarrow> co_CreditCost opts = cost"
  shows "\<exists>l'. cs_ledger s' = Some l' \<and> 0 \<le> credits l'
    \<and> credits l' = credits l - amount cost * (of_bool (past_payment c') - of_bool (past_payment c))"
proof (cases "\<exists>opts. c = Paying opts")
  case True
  then obtain opts where c: "c = Paying opts" by blast
  obtain ok l' where sp: "Spend (co_CreditCost opts) l = (ok, l')" by force
  have "credits l' = credits l - amount (co_CreditCost opts) * of_bool ok \<and> 0 \<le> credits l'"
    using ledger.spend_granted[of "co_CreditCost opts" l l'] ledger.spend_refused[of "co_CreditCost opts" l l'] sp assms(3) by (cases ok) auto
  then show ?thesis using assms(1,2,4) by (auto simp: c pay_def sp)
next
  case False
  have same: "cs_ledger s' = cs_ledger s \<and> past_payment c' = past_payment c" using assms(1) False
    by (cases "(srt, now, disc, gw, req, c, s)" rule: client_step.cases)
      (auto simp: keeps Let_def ready_def dest: sticky_pick_ranked split: prod.splits sum.splits if_splits)
  then show ?thesis using assms(2,3) by simp
qed

text \<open>A candidate that a request may try under the settings of its snapshot.\<close>

definition may_try :: "ChatCompletionRequest \<Rightarrow> ClientOptions \<Rightarrow> PeerScore \<Rightarrow> bool" where
  "may_try req opts c \<longleftrightarrow>
     SupportsRequirements (ps_Capability c) (req_Model req) (req_Requirements req)
   \<and> PeerID (ps_Capability c) \<notin> toSet (co_BlockedPeers opts)
   \<and> (co_RoutingPolicy opts = ''manual'' \<and> toSet (co_AllowedPeers opts) \<noteq> {} \<longrightarrow> PeerID (ps_Capability c) \<in> toSet (co_AllowedPeers opts))"

text \<open>The order in which a request tries its candidates: the ranking under the settings of its snapshot, as
  it is or with the entry of one peer brought to the front.\<close>

definition ranked_under :: "sorter \<Rightarrow> ChatCompletionRequest \<Rightarrow> ClientOptions \<Rightarrow> PeerScore list \<Rightarrow> bool" where
  "ranked_under srt req opts ranked \<longleftrightarrow>
     (\<exists>w caps known. ranked = RankWithPreferences srt w caps req (snapshot_preferences opts known))"

lemma ranked_underI: "ranked_under srt req opts (RankWithPreferences srt w caps req (snapshot_preferences opts known))"
  unfolding ranked_under_def by blast

definition try_order :: "sorter \<Rightarrow> ChatCompletionRequest \<Rightarrow> ClientOptions \<Rightarrow> PeerScore list \<Rightarrow> bool" where
  "try_order srt req opts r \<longleftrightarrow> (\<exists>ranked. ranked_under srt req opts ranked \<and> (r = ranked \<or> (\<exists>q. r = peer_first q ranked)))"

lemma try_order_may_try:
  assumes "slice_sort srt" "try_order srt req opts r" "c \<in> set r" shows "may_try req opts c"
proof -
  obtain w caps known where "c \<in> set (RankWithPreferences srt w caps req (snapshot_preferences opts known))"
    using assms(2,3) mset_eq_setD[OF peer_first_mset] by (auto simp: try_order_def ranked_under_def)
  then show ?thesis
    unfolding RankWithPreferences_set[OF assms(1)] by (auto simp: may_try_def eligible_def snapshot_preferences_def)
qed

text \<open>What a thread has done of its plan.\<close>

fun on_plan :: "sorter \<Rightarrow> ChatCompletionRequest \<Rightarrow> client_pc \<Rightarrow> bool" where
  "on_plan srt req (StickyTTL opts ranked) = ranked_under srt req opts ranked"
| "on_plan srt req (StickyPeer opts ranked) = ranked_under srt req opts ranked"
| "on_plan srt req (Trying opts pc k le cs) = (pc = context_of req opts \<and> (\<exists>r. try_order srt req opts r \<and> cs = drop k r))"
| "on_plan srt req (Failing opts pc k e c cs) = (pc = context_of req opts \<and> (\<exists>r. try_order srt req opts r \<and> c # cs = drop k r))"
| "on_plan srt req pc = True"

lemma ready_on_plan: "try_order srt req opts r \<Longrightarrow> on_plan srt req (ready opts req r)"
  by (auto simp: ready_def intro: exI[of _ r])

lemma client_step_plan:
  assumes "client_step srt now disc gw req c s = (c', s')" "on_plan srt req c"
  shows "on_plan srt req c'"
  using assms(1)
proof (cases rule: client_step.cases[of "(srt, now, disc, gw, req, c, s)"])
  case (6 srt now disc gw req opts caps s)
  then show ?thesis using assms by (auto simp: Let_def ranked_underI)
next
  case (7 srt now disc gw req opts ranked s)
  then have "try_order srt req opts ranked" using assms(2) by (auto simp: try_order_def)
  then show ?thesis using 7 assms by (auto simp: ready_on_plan)
next
  case (8 srt now disc gw req opts ranked s)
  obtain r s1 where p: "sticky_pick now (req_Model req) ranked s = (r, s1)" by force
  then have "r = ranked \<or> (\<exists>q. r = peer_first q ranked)"
    by (auto simp: sticky_pick_def bring_forward_eq split: option.splits if_splits)
  then have "try_order srt req opts r" using assms(2) 8 by (auto simp: try_order_def)
  then show ?thesis using 8 assms(1) by (auto simp: p ready_on_plan)
next
  case (11 srt now disc gw req opts pc k e c cs s)
  then obtain r where r: "pc = context_of req opts" "try_order srt req opts r" "c # cs = drop k r" using assms(2) by auto
  have "cs = drop (Suc k) r" using arg_cong[OF r(3), of tl] by (simp add: drop_Suc drop_tl)
  then show ?thesis using 11 assms(1) r(1,2) by (auto simp: Let_def simp del: drop_Suc_Cons)
qed (use assms in \<open>auto simp: Let_def split: prod.splits sum.splits if_splits\<close>)

section \<open>What holds under every interleaving\<close>

lemma update_opts [keeps]:
  "co_CreditCost (cs_opts (UpdateRoutingSettings new s)) = co_CreditCost (cs_opts s)"
  "co_CreditCost (cs_opts (SelectPeerManual p s)) = co_CreditCost (cs_opts s)"
  "cs_ledger (UpdateRoutingSettings new s) = cs_ledger s" "cs_ledger (SelectPeerManual p s) = cs_ledger s"
  by (simp_all add: UpdateRoutingSettings_def SelectPeerManual_def Let_def split: option.splits)

text \<open>The account of the ledger, as long as the credits earned fit into it.\<close>

definition account_ok :: "ClientService \<Rightarrow> CreditLedger \<Rightarrow> client_system \<Rightarrow> bool" where
  "account_ok s0 l0 S \<longleftrightarrow>
     finite (dom (cy_threads S)) \<and> co_CreditCost (cs_opts (cy_svc S)) = co_CreditCost (cs_opts s0)
   \<and> (\<forall>i t opts. cy_threads S i = Some t \<longrightarrow> snapshot_of (ct_pc t) = Some opts \<longrightarrow> co_CreditCost opts = co_CreditCost (cs_opts s0))
   \<and> (credits l0 + int (cy_earned S) < 2 ^ 63 \<longrightarrow>
       (\<exists>l. cs_ledger (cy_svc S) = Some l \<and> 0 \<le> credits l
         \<and> credits l = credits l0 + int (cy_earned S) - amount (co_CreditCost (cs_opts s0)) * int (card (paid_threads S))))"

lemma paid_threads_finite: "finite (dom (cy_threads S)) \<Longrightarrow> finite (paid_threads S)"
  by (rule finite_subset[of _ "dom (cy_threads S)"]) (auto simp: paid_threads_def)

lemma paid_threads_move:
  assumes "cy_threads S i = Some t" "finite (dom (cy_threads S))"
  shows "int (card (paid_threads (S\<lparr>cy_svc := s, cy_threads := (cy_threads S)(i \<mapsto> t\<lparr>ct_pc := c\<rparr>)\<rparr>)))
    = int (card (paid_threads S)) + (of_bool (past_payment c) - of_bool (past_payment (ct_pc t)))"
proof -
  have "paid_threads (S\<lparr>cy_svc := s, cy_threads := (cy_threads S)(i \<mapsto> t\<lparr>ct_pc := c\<rparr>)\<rparr>)
    = (if past_payment c then insert i (paid_threads S) else paid_threads S - {i})"
    by (auto simp: paid_threads_def)
  moreover have "i \<in> paid_threads S \<longleftrightarrow> past_payment (ct_pc t)" using assms(1) by (auto simp: paid_threads_def)
  ultimately show ?thesis using card_move[OF paid_threads_finite[OF assms(2)], of "past_payment c" i] by simp
qed

lemma paid_threads_same:
  "paid_threads (S\<lparr>cy_svc := s\<rparr>) = paid_threads S" "paid_threads (S\<lparr>cy_svc := s, cy_earned := n\<rparr>) = paid_threads S"
  by (simp_all add: paid_threads_def)

lemma account_step:
  assumes "account_ok s0 l0 S" "client_sys_step srt S S'" "0 \<le> credits l0" shows "account_ok s0 l0 S'"
  using assms(2)
proof cases
  case (arrive i req)
  have "paid_threads S' = paid_threads S" using arrive(2) by (auto simp: paid_threads_def arrive(1))
  then show ?thesis using assms(1) by (auto simp: account_ok_def arrive(1))
next
  case (run i t now disc gw c s)
  have fin: "finite (dom (cy_threads S))" and cost: "\<And>opts. snapshot_of (ct_pc t) = Some opts \<Longrightarrow> co_CreditCost opts = co_CreditCost (cs_opts s0)"
    using assms(1) run(2) by (auto simp: account_ok_def)
  have opts: "cs_opts s = cs_opts (cy_svc S)" by (rule client_step_opts[OF run(3)])
  have "co_CreditCost o' = co_CreditCost (cs_opts s0)" if "snapshot_of c = Some o'" for o'
    using client_step_snapshot[OF run(3) that] cost assms(1) by (auto simp: account_ok_def)
  moreover have "\<exists>l'. cs_ledger s = Some l' \<and> 0 \<le> credits l'
      \<and> credits l' = credits l0 + int (cy_earned S) - amount (co_CreditCost (cs_opts s0)) * int (card (paid_threads S'))"
    if fits: "credits l0 + int (cy_earned S) < 2 ^ 63"
  proof -
    define d where "d = (of_bool (past_payment c) - of_bool (past_payment (ct_pc t)) :: int)"
    obtain l where l: "cs_ledger (cy_svc S) = Some l" "0 \<le> credits l"
      "credits l = credits l0 + int (cy_earned S) - amount (co_CreditCost (cs_opts s0)) * int (card (paid_threads S))"
      using assms(1) fits by (auto simp: account_ok_def)
    obtain l' where "cs_ledger s = Some l'" "0 \<le> credits l'" "credits l' = credits l - amount (co_CreditCost (cs_opts s0)) * d"
      using client_step_paid[OF run(3) l(1,2) cost] by (auto simp: d_def)
    moreover have "int (card (paid_threads S')) = int (card (paid_threads S)) + d"
      unfolding run(1) d_def by (rule paid_threads_move[OF run(2) fin])
    ultimately show ?thesis using l(3) by (simp add: distrib_left)
  qed
  ultimately show ?thesis using assms(1) unfolding account_ok_def by (auto simp: opts run(1))
next
  case earn
  have "\<exists>l'. map_option (Earn 1) (cs_ledger (cy_svc S)) = Some l' \<and> 0 \<le> credits l'
      \<and> credits l' = credits l0 + int (Suc (cy_earned S)) - amount (co_CreditCost (cs_opts s0)) * int (card (paid_threads S))"
    if fits: "credits l0 + int (Suc (cy_earned S)) < 2 ^ 63"
  proof -
    obtain l where l: "cs_ledger (cy_svc S) = Some l" "0 \<le> credits l"
      "credits l = credits l0 + int (cy_earned S) - amount (co_CreditCost (cs_opts s0)) * int (card (paid_threads S))"
      using assms(1) fits by (auto simp: account_ok_def)
    moreover have "0 \<le> amount (co_CreditCost (cs_opts s0)) * int (card (paid_threads S))" by simp
    ultimately have "credits l + 1 < 2 ^ 63" using fits by linarith
    then have "credits (Earn 1 l) = credits l + 1"
      using ledger.earn_adds[OF l(2), of 1] by (simp add: amount_def)
    then show ?thesis using l by simp
  qed
  then show ?thesis using assms(1) unfolding account_ok_def by (simp add: earn paid_threads_same)
qed (use assms(1) in \<open>auto simp: account_ok_def paid_threads_same keeps\<close>)

text \<open>C6: However the requests of a client interleave, with each other, with changes of the routing settings
  and with the provider service of the same node earning on the same ledger, the books balance at
  all times: the balance is the initial one, plus one credit for each request served, minus the
  price of each request that got past paying; it never becomes negative, and a request that has
  not paid contacts no peer.\<close>

theorem payments_balance:
  assumes "client_reachable srt s0 S" "cs_ledger s0 = Some l0" "0 \<le> credits l0" "credits l0 + int (cy_earned S) < 2 ^ 63"
  shows "\<exists>l. cs_ledger (cy_svc S) = Some l \<and> 0 \<le> credits l
    \<and> credits l = credits l0 + int (cy_earned S) - amount (co_CreditCost (cs_opts s0)) * int (card (paid_threads S))
    \<and> {i. \<exists>t opts pc k le cs. cy_threads S i = Some t \<and> ct_pc t = Trying opts pc k le cs} \<subseteq> paid_threads S"
proof -
  have "account_ok s0 l0 S"
    using assms(1)
  proof induction
    case initial
    have "paid_threads (start_clients s0) = {}" by (simp add: paid_threads_def start_clients_def)
    then show ?case using assms(2,3) by (simp add: account_ok_def) (simp add: start_clients_def)
  next
    case (step S S')
    then show ?case using account_step assms(3) by blast
  qed
  then show ?thesis using assms(4) unfolding account_ok_def by (fastforce simp: paid_threads_def)
qed

text \<open>Where the snapshot of a thread comes from, and what it has left to try.\<close>

definition taken_at :: "sorter \<Rightarrow> ClientService \<Rightarrow> client_system \<Rightarrow> nat \<Rightarrow> client_thread \<Rightarrow> ClientOptions \<Rightarrow> bool" where
  "taken_at srt s0 S i t opts \<longleftrightarrow>
     (\<exists>S0. client_reachable srt s0 S0 \<and> (client_sys_step srt)\<^sup>*\<^sup>* S0 S
       \<and> cy_threads S0 i = Some (t\<lparr>ct_pc := Snap\<rparr>) \<and> cs_opts (cy_svc S0) = opts)"

lemma taken_later: "taken_at srt s0 S i t opts \<Longrightarrow> client_sys_step srt S S' \<Longrightarrow> taken_at srt s0 S' i t opts"
  unfolding taken_at_def by (blast intro: rtranclp.rtrancl_into_rtrancl)

lemma taken_pc: "taken_at srt s0 S i (t\<lparr>ct_pc := c\<rparr>) opts = taken_at srt s0 S i t opts"
  by (simp add: taken_at_def)

definition snapshots_ok :: "sorter \<Rightarrow> ClientService \<Rightarrow> client_system \<Rightarrow> bool" where
  "snapshots_ok srt s0 S \<longleftrightarrow>
     (\<forall>i t opts. cy_threads S i = Some t \<longrightarrow> snapshot_of (ct_pc t) = Some opts \<longrightarrow>
        taken_at srt s0 S i t opts)
   \<and> (\<forall>i t. cy_threads S i = Some t \<longrightarrow> on_plan srt (ct_req t) (ct_pc t))"

lemma snapshots_step:
  assumes "client_reachable srt s0 S" "snapshots_ok srt s0 S" "client_sys_step srt S S'"
  shows "snapshots_ok srt s0 S'"
proof -
  have other: "snapshot_of (ct_pc t) = Some opts \<Longrightarrow> taken_at srt s0 S' i t opts" "on_plan srt (ct_req t) (ct_pc t)"
    if "cy_threads S i = Some t" for i t opts
    using that assms(2) taken_later[OF _ assms(3)] unfolding snapshots_ok_def by blast+
  from assms(3) show ?thesis
  proof cases
    case (run i t now disc gw c s)
    have "taken_at srt s0 S' i t opts" if c: "snapshot_of c = Some opts" for opts
    proof (cases "snapshot_of (ct_pc t) = Some opts")
      case True
      then show ?thesis using other(1)[OF run(2)] by blast
    next
      case False
      then have "ct_pc t = Snap" "opts = cs_opts (cy_svc S)" using client_step_snapshot[OF run(3) c] by auto
      then have "taken_at srt s0 S i t opts" using assms(1) run(2) unfolding taken_at_def by (intro exI[of _ S]) auto
      then show ?thesis by (rule taken_later[OF _ assms(3)])
    qed
    moreover have "on_plan srt (ct_req t) c" by (rule client_step_plan[OF run(3) other(2)[OF run(2)]])
    ultimately show ?thesis using other unfolding snapshots_ok_def by (auto simp: run(1) taken_pc split: if_splits)
  qed (use other in \<open>auto simp: snapshots_ok_def split: if_splits\<close>)
qed

text \<open>C7: Which peers a request may be sent to, and how they are ranked, is decided by the settings of one
  moment after its arrival, however they are changed while it is under way: there is a reachable
  state, before the present one and with the request still at its start, whose settings are the
  request's; the peers it tries are those of the ranking under these settings from the \<open>k\<close>-th on,
  each serves the model, is not blocked and is allowed, and the identity and the nonce sent are those
  of these settings. Only the sticky time is read again later: it decides whether one peer of
  the same ranking is brought to its front.\<close>

theorem snapshot_decides_candidates:
  assumes "client_reachable srt s0 S" "slice_sort srt" "cy_threads S i = Some t" "ct_pc t = Trying opts pc k le (c # cs)"
  shows "taken_at srt s0 S i t opts \<and> pc = context_of (ct_req t) opts
    \<and> (\<exists>r. try_order srt (ct_req t) opts r \<and> c # cs = drop k r) \<and> list_all (may_try (ct_req t) opts) (c # cs)"
proof -
  have "snapshots_ok srt s0 S"
    using assms(1)
  proof induction
    case initial
    then show ?case by (simp add: snapshots_ok_def start_clients_def)
  next
    case (step S S')
    then show ?case by (blast intro: snapshots_step)
  qed
  then have ok: "taken_at srt s0 S i t opts" "pc = context_of (ct_req t) opts" "\<exists>r. try_order srt (ct_req t) opts r \<and> c # cs = drop k r"
    using assms(3,4) unfolding snapshots_ok_def by fastforce+
  then obtain r where r: "try_order srt (ct_req t) opts r" "c # cs = drop k r" by blast
  have "may_try (ct_req t) opts x" if "x \<in> set (c # cs)" for x
    using try_order_may_try[OF assms(2) r(1)] that in_set_dropD[of x k r] unfolding r(2) by blast
  then show ?thesis using ok by (simp add: list_all_iff)
qed

section \<open>Runs\<close>

text \<open>A thread may always run on its own for a while.\<close>

lemma runs_alone:
  assumes "client_reachable srt s0 S" "cy_threads S i = Some t" "leads_to srt env (ct_req t) (ct_pc t, cy_svc S) (c, s)"
  shows "client_reachable srt s0 (S\<lparr>cy_svc := s, cy_threads := (cy_threads S)(i \<mapsto> t\<lparr>ct_pc := c\<rparr>)\<rparr>)"
proof -
  obtain n where "(alone srt env (ct_req t) ^^ n) (ct_pc t, cy_svc S) = (c, s)" using assms(3) unfolding leads_to_def by blast
  then show ?thesis
    using assms(1,2)
  proof (induction n arbitrary: S t)
    case 0
    then have same: "S\<lparr>cy_svc := s, cy_threads := (cy_threads S)(i \<mapsto> t\<lparr>ct_pc := c\<rparr>)\<rparr> = S" by (simp add: fun_upd_idem)
    show ?case unfolding same by (rule 0)
  next
    case (Suc n)
    obtain c1 s1 where one: "alone srt env (ct_req t) (ct_pc t, cy_svc S) = (c1, s1)" by force
    let ?S = "S\<lparr>cy_svc := s1, cy_threads := (cy_threads S)(i \<mapsto> t\<lparr>ct_pc := c1\<rparr>)\<rparr>"
    have "client_sys_step srt S ?S" using client_sys_step.run[OF Suc.prems(3)] one by (simp add: alone_def)
    then have "client_reachable srt s0 ?S" using Suc.prems(2) by (rule client_reachable.step[rotated])
    then have "client_reachable srt s0 (?S\<lparr>cy_svc := s, cy_threads := (cy_threads ?S)(i \<mapsto> (t\<lparr>ct_pc := c1\<rparr>)\<lparr>ct_pc := c\<rparr>)\<rparr>)"
      using Suc.prems(1) one by (intro Suc.IH) (simp_all add: funpow_swap1)
    moreover have "?S\<lparr>cy_svc := s, cy_threads := (cy_threads ?S)(i \<mapsto> (t\<lparr>ct_pc := c1\<rparr>)\<lparr>ct_pc := c\<rparr>)\<rparr>
      = S\<lparr>cy_svc := s, cy_threads := (cy_threads S)(i \<mapsto> t\<lparr>ct_pc := c\<rparr>)\<rparr>" by simp
    ultimately show ?case by (simp only:)
  qed
qed

lemma one_request:
  assumes "leads_to srt env req (Snap, s0) (c, s)"
  shows "client_reachable srt s0 \<lparr>cy_svc = s, cy_threads = [0 \<mapsto> \<lparr>ct_req = req, ct_pc = c\<rparr>], cy_earned = 0\<rparr>"
proof -
  let ?t = "\<lparr>ct_req = req, ct_pc = Snap\<rparr>"
  have "client_sys_step srt (start_clients s0) ((start_clients s0)\<lparr>cy_threads := (cy_threads (start_clients s0))(0 \<mapsto> ?t)\<rparr>)"
    by (rule client_sys_step.arrive) (simp add: start_clients_def)
  from client_reachable.step[OF client_reachable.initial this]
  have S: "client_reachable srt s0 \<lparr>cy_svc = s0, cy_threads = [0 \<mapsto> ?t], cy_earned = 0\<rparr>" by (simp add: start_clients_def)
  show ?thesis using runs_alone[OF S, of 0 ?t env c s] assms by simp
qed

definition demo_payer :: ClientService where
  "demo_payer = demo_client\<lparr>cs_ledger := Some \<lparr>balance = 5\<rparr>\<rparr>"

lemma payments_balance_witness:
  "\<exists>S l. client_reachable insertion_sort demo_payer S \<and> paid_threads S = {0} \<and> cs_ledger (cy_svc S) = Some l \<and> credits l = 4"
proof -
  have cost: "co_CreditCost (cs_opts demo_payer) = 1" "cs_ledger demo_payer = Some \<lparr>balance = 5\<rparr>"
    by (simp_all add: demo_payer_def demo_client_def NewClientService_def demo_options_def Let_def)
  have "charge demo_payer = (True, demo_payer\<lparr>cs_ledger := Some \<lparr>balance = 4\<rparr>\<rparr>)"
    by (simp add: charge_def cost Spend_def word_sle_eq word_sless_alt)
  note run = leads_paid[OF this, of insertion_sort "demo_client_env {}" zero_request, simplified]
  let ?S = "\<lparr>cy_svc = demo_payer\<lparr>cs_ledger := Some \<lparr>balance = 4\<rparr>\<rparr>,
    cy_threads = [0 \<mapsto> \<lparr>ct_req = zero_request, ct_pc = Discovering (cs_opts demo_payer)\<rparr>], cy_earned = 0\<rparr>"
  have S: "client_reachable insertion_sort demo_payer ?S" by (rule one_request[OF run])
  have p: "paid_threads ?S = {0}" by (auto simp: paid_threads_def)
  have "amount 1 = 1" "credits \<lparr>balance = 5\<rparr> = 5" by (simp_all add: amount_def credits_def)
  then show ?thesis using payments_balance[OF S cost(2)] S p by (auto simp: cost)
qed

lemma snapshot_decides_candidates_witness:
  "\<exists>S t c. client_reachable insertion_sort demo_client S \<and> cy_threads S 0 = Some t
     \<and> ct_pc t = Trying (cs_opts demo_client) (context_of zero_request (cs_opts demo_client)) 0 None
         (map (\<lambda>d. \<lparr>ps_Capability = d, ps_Score = PInf\<rparr>) demo_docs)
     \<and> may_try zero_request (cs_opts demo_client) \<lparr>ps_Capability = demo_docs ! 0, ps_Score = PInf\<rparr>"
proof -
  have c: "charge demo_client = (True, demo_client)" "cs_sticky demo_client = []" "cl_discovery (demo_client_env {}) = Inr demo_docs"
    "co_PoWDifficulty (cs_opts demo_client) = 0"
    by (simp_all add: charge_def demo_client_def NewClientService_def demo_options_def demo_client_env_def Let_def)
  let ?r = "map (\<lambda>d. \<lparr>ps_Capability = d, ps_Score = PInf\<rparr>) demo_docs" and ?x = "\<lparr>ps_Capability = demo_docs ! 0, ps_Score = PInf\<rparr>"
  let ?t = "\<lparr>ct_req = zero_request, ct_pc = Trying (cs_opts demo_client) (context_of zero_request (cs_opts demo_client)) 0 None ?r\<rparr>"
  have st: "applyStickyPriority 0 (req_Model zero_request) (candidates insertion_sort demo_docs zero_request demo_client) demo_client = (?r, demo_client)"
    by (simp add: applyStickyPriority_def demo_candidates c(2))
  have "candidates insertion_sort demo_docs zero_request demo_client \<noteq> []"
    unfolding demo_candidates by (simp add: demo_docs_def)
  from leads_ready[OF c(1,3) this] st
  have "leads_to insertion_sort (demo_client_env {}) zero_request (Snap, demo_client) (ready (cs_opts demo_client) zero_request ?r, demo_client)"
    by (simp add: demo_client_env_def)
  from one_request[OF this] have S: "client_reachable insertion_sort demo_client \<lparr>cy_svc = demo_client, cy_threads = [0 \<mapsto> ?t], cy_earned = 0\<rparr>"
    by (simp add: ready_def c(4))
  have r: "?r = ?x # tl ?r" by (simp add: demo_docs_def)
  have "ct_pc ?t = Trying (cs_opts demo_client) (context_of zero_request (cs_opts demo_client)) 0 None (?x # tl ?r)"
    unfolding r[symmetric] by simp
  from snapshot_decides_candidates[OF S keep_order _ this, of 0] have "may_try zero_request (cs_opts demo_client) ?x" by simp
  then show ?thesis using S by (intro exI[of _ "\<lparr>cy_svc = demo_client, cy_threads = [0 \<mapsto> ?t], cy_earned = 0\<rparr>"]) simp
qed

lemma requests_terminate_witness:
  "\<exists>r. client_trace insertion_sort zero_request (replicate 18 (0, Inr demo_docs, \<lambda>u q p. Inl ErrNoPeers, demo_client)) Snap = Ended r"
  by (rule requests_terminate[OF keep_order, of _ 2]) (simp_all add: demo_docs_def)

end
