(* ===== verification/Registry.thy ===== *)
theory Registry
  imports Types GoText
begin

text \<open>
  The libp2p node's own state (\<^verbatim>\<open>internal/p2p/libp2p_node.go\<close>): what heartbeats and registry
  announcements said of each peer and when, with expiry, and the handling of addresses. The
  libp2p and multiaddr libraries are arguments (\<open>Libp2pLib\<close>): \<open>lp_decode\<close> is \<open>peer.Decode\<close>,
  \<open>lp_string\<close> is \<open>ID.String\<close>, \<open>lp_multiaddr\<close> is \<open>multiaddr.NewMultiaddr\<close>, \<open>lp_p2paddr\<close> is
  \<open>peer.AddrInfoFromP2pAddr\<close>, \<open>lp_encapsulate\<close> is \<open>Encapsulate\<close> on the texts. Calls that change the peer store are recorded as \<open>peerstore_op\<close>s.
\<close>

section \<open>The interface of the library\<close>

record AddrInfo =
  ai_ID :: string
  ai_Addrs :: "string list"

record Libp2pLib =
  lp_decode :: "string \<Rightarrow> go_error + string"
  lp_string :: "string \<Rightarrow> string"
  lp_multiaddr :: "string \<Rightarrow> go_error + string"
  lp_p2paddr :: "string \<Rightarrow> go_error + AddrInfo"
  lp_encapsulate :: "string \<Rightarrow> string \<Rightarrow> string"

datatype peerstore_op = AddAddrs string "string list" duration | ClearAddrs string

section \<open>The node\<close>

record heartbeatEntry =
  he_cap :: CapabilityDocument
  he_seenAt :: gtime

type_synonym entries = "(string, heartbeatEntry) gomap"
type_synonym entry_order = "(string \<times> heartbeatEntry) list \<Rightarrow> (string \<times> heartbeatEntry) list"

record Libp2pNode =
  ln_ID :: string
  ln_bootstrapPeers :: "AddrInfo list"
  ln_heartbeatTTL :: duration
  ln_heartbeats :: entries
  ln_registry :: entries

definition pruneLocked :: "entry_order \<Rightarrow> duration \<Rightarrow> gtime \<Rightarrow> entries \<Rightarrow> entries" where
  "pruneLocked rng ttl now src =
     fold (\<lambda>(k, v) m. if time_sub now (he_seenAt v) > ttl then map_del k m else m) (rng src) src"

definition snapshotMapLocked :: "entry_order \<Rightarrow> duration \<Rightarrow> gtime \<Rightarrow> entries \<Rightarrow> CapabilityDocument list \<times> entries" where
  "snapshotMapLocked rng ttl now src =
     (let src = pruneLocked rng ttl now src in (map (\<lambda>(k, v). he_cap v) (rng src), src))"

definition Heartbeats :: "entry_order \<Rightarrow> gtime \<Rightarrow> Libp2pNode \<Rightarrow> CapabilityDocument list \<times> Libp2pNode" where
  "Heartbeats rng now n =
     (let (caps, m) = snapshotMapLocked rng (ln_heartbeatTTL n) now (ln_heartbeats n)
      in (caps, n\<lparr>ln_heartbeats := m\<rparr>))"

text \<open>The two loops that merge the maps: heartbeats first, then a registry entry if it is newer.\<close>

definition merge_entries :: "entries \<Rightarrow> (string \<times> heartbeatEntry) list \<Rightarrow> entries" where
  "merge_entries out reg =
     fold (\<lambda>(k, v) out. case map_get out k of
         None \<Rightarrow> map_put k v out
       | Some cur \<Rightarrow> if time_after (he_seenAt v) (he_seenAt cur) then map_put k v out else out) reg out"

definition RegistryCapabilities :: "entry_order \<Rightarrow> gtime \<Rightarrow> Libp2pNode \<Rightarrow> CapabilityDocument list \<times> Libp2pNode" where
  "RegistryCapabilities rng now n =
     (let hb = pruneLocked rng (ln_heartbeatTTL n) now (ln_heartbeats n);
          reg = pruneLocked rng (ln_heartbeatTTL n) now (ln_registry n);
          out = fold (\<lambda>(k, v). map_put k v) (rng hb) [];
          out = merge_entries out (rng reg)
      in (map (\<lambda>(k, v). he_cap v) (rng out), n\<lparr>ln_heartbeats := hb, ln_registry := reg\<rparr>))"

definition stamp :: "gtime \<Rightarrow> CapabilityDocument \<Rightarrow> CapabilityDocument" where
  "stamp now cap = (if time_is_zero (UpdatedAt cap) then cap\<lparr>UpdatedAt := now\<rparr> else cap)"

definition UpsertRegistryCapability :: "gtime \<Rightarrow> gtime \<Rightarrow> CapabilityDocument \<Rightarrow> Libp2pNode \<Rightarrow> Libp2pNode" where
  "UpsertRegistryCapability now1 now2 cap n =
     (if trim_space (PeerID cap) = [] then n
      else let cap = stamp now1 cap
           in n\<lparr>ln_registry := map_put (PeerID cap) \<lparr>he_cap = cap, he_seenAt = now2\<rparr> (ln_registry n)\<rparr>)"

text \<open>One message of the heartbeat subscription; \<open>data\<close> is \<open>None\<close> when it is not a document.\<close>

definition consumeHeartbeat ::
  "string \<Rightarrow> CapabilityDocument option \<Rightarrow> gtime \<Rightarrow> gtime \<Rightarrow> Libp2pNode \<Rightarrow> Libp2pNode" where
  "consumeHeartbeat receivedFrom data now1 now2 n =
     (if receivedFrom = ln_ID n then n
      else case data of
          None \<Rightarrow> n
        | Some cap \<Rightarrow>
            let cap = stamp now1 cap
            in n\<lparr>ln_heartbeats := map_put (PeerID cap) \<lparr>he_cap = cap, he_seenAt = now2\<rparr> (ln_heartbeats n)\<rparr>)"

text \<open>The loop \<open>consumeHeartbeats\<close> over what the subscription delivers until it fails.\<close>

fun consumeHeartbeats :: "(string \<times> CapabilityDocument option \<times> gtime \<times> gtime) list \<Rightarrow> Libp2pNode \<Rightarrow> Libp2pNode" where
  "consumeHeartbeats [] n = n"
| "consumeHeartbeats ((src, data, t1, t2) # msgs) n = consumeHeartbeats msgs (consumeHeartbeat src data t1 t2 n)"

section \<open>Addresses\<close>

fun parseStaticRelayPeers :: "Libp2pLib \<Rightarrow> string list \<Rightarrow> go_error + AddrInfo list" where
  "parseStaticRelayPeers lib [] = Inr []"
| "parseStaticRelayPeers lib (r # rs) =
     (if trim_space r = [] then parseStaticRelayPeers lib rs
      else case lp_multiaddr lib (trim_space r) of
          Inl e \<Rightarrow> Inl e
        | Inr maddr \<Rightarrow>
            (case lp_p2paddr lib maddr of
               Inl e \<Rightarrow> Inl e
             | Inr ai \<Rightarrow>
                 (case parseStaticRelayPeers lib rs of Inl e \<Rightarrow> Inl e | Inr out \<Rightarrow> Inr (ai # out))))"

fun parseBootstrapInfos :: "Libp2pLib \<Rightarrow> string list \<Rightarrow> AddrInfo list" where
  "parseBootstrapInfos lib [] = []"
| "parseBootstrapInfos lib (r # rs) =
     (if trim_space r = [] then parseBootstrapInfos lib rs
      else case lp_multiaddr lib (trim_space r) of
          Inl e \<Rightarrow> parseBootstrapInfos lib rs
        | Inr maddr \<Rightarrow>
            (case lp_p2paddr lib maddr of
               Inl e \<Rightarrow> parseBootstrapInfos lib rs
             | Inr ai \<Rightarrow> ai # parseBootstrapInfos lib rs))"

definition BootstrapPeers :: "Libp2pNode \<Rightarrow> AddrInfo list" where
  "BootstrapPeers n = map (\<lambda>ai. \<lparr>ai_ID = ai_ID ai, ai_Addrs = ai_Addrs ai\<rparr>) (ln_bootstrapPeers n)"

definition AdvertiseAddrs :: "Libp2pLib \<Rightarrow> string list \<Rightarrow> Libp2pNode \<Rightarrow> string list" where
  "AdvertiseAddrs lib hostAddrs n = map (\<lambda>addr. addr @ ''/p2p/'' @ lp_string lib (ln_ID n)) hostAddrs"

text \<open>The loop of \<open>AddPeerAddrs\<close>: the number of addresses added and the calls made.\<close>

fun add_addrs :: "Libp2pLib \<Rightarrow> string \<Rightarrow> duration \<Rightarrow> string list \<Rightarrow> nat \<times> peerstore_op list" where
  "add_addrs lib pid ttl [] = (0, [])"
| "add_addrs lib pid ttl (entry # rest) =
     (let entry = trim_space entry in
      if entry = [] then add_addrs lib pid ttl rest
      else case lp_multiaddr lib entry of
          Inl e \<Rightarrow> add_addrs lib pid ttl rest
        | Inr maddr \<Rightarrow>
            (case lp_p2paddr lib maddr of
               Inr ai \<Rightarrow>
                 if ai_ID ai \<noteq> pid then add_addrs lib pid ttl rest
                 else let (n, ops) = add_addrs lib pid ttl rest
                      in (length (ai_Addrs ai) + n, AddAddrs (ai_ID ai) (ai_Addrs ai) ttl # ops)
             | Inl e \<Rightarrow>
                 let (n, ops) = add_addrs lib pid ttl rest in (1 + n, AddAddrs pid [maddr] ttl # ops)))"

definition AddPeerAddrs :: "Libp2pLib \<Rightarrow> string \<Rightarrow> string list \<Rightarrow> duration \<Rightarrow> nat \<times> peerstore_op list" where
  "AddPeerAddrs lib peerID raw ttl =
     (case lp_decode lib (trim_space peerID) of
        Inl e \<Rightarrow> (0, [])
      | Inr pid \<Rightarrow> add_addrs lib pid (if ttl \<le> 0 then 60 * second else ttl) raw)"

text \<open>\<open>DiscoverPeers\<close>: the first \<open>limit\<close> peers of the channel that are neither nameless nor the node.\<close>

fun collect_peers :: "string \<Rightarrow> int \<Rightarrow> AddrInfo list \<Rightarrow> AddrInfo list \<Rightarrow> AddrInfo list" where
  "collect_peers self limit out [] = out"
| "collect_peers self limit out (p # ps) =
     (if ai_ID p = [] \<or> ai_ID p = self then collect_peers self limit out ps
      else let out = out @ [p]
           in if limit > 0 \<and> int (length out) \<ge> limit then out else collect_peers self limit out ps)"

definition DiscoverPeers :: "(string \<Rightarrow> go_error + AddrInfo list) \<Rightarrow> string \<Rightarrow> int \<Rightarrow> Libp2pNode \<Rightarrow> AddrInfo list" where
  "DiscoverPeers findPeers rendezvous limit n =
     (let rendezvous = (if rendezvous = [] then ''infermesh-rendezvous'' else rendezvous) in
      case findPeers rendezvous of Inl e \<Rightarrow> [] | Inr ch \<Rightarrow> collect_peers (ln_ID n) limit [] ch)"

section \<open>Start-up\<close>

record Libp2pConfig =
  lc_ListenAddrs :: "string list"
  lc_BootstrapPeers :: "string list"
  lc_Rendezvous :: string
  lc_EnableMDNS :: bool
  lc_EnableNATPortMap :: bool
  lc_EnableHolePunching :: bool
  lc_EnableAutoRelay :: bool
  lc_EnableRelayService :: bool

datatype host_option =
    ListenAddrStrings "string list" | IdentityKey string | ForceReachabilityPublic | ForceReachabilityPrivate
  | EnableRelay | NATPortMap | EnableHolePunching | EnableRelayService
  | EnableAutoRelayWithStaticRelays "AddrInfo list"

definition host_options :: "Libp2pLib \<Rightarrow> Libp2pConfig \<Rightarrow> string \<Rightarrow> host_option list" where
  "host_options lib cfg key =
     (let listenAddrs = (if lc_ListenAddrs cfg = [] then [''/ip4/0.0.0.0/tcp/0''] else lc_ListenAddrs cfg);
          opts = [ListenAddrStrings listenAddrs, IdentityKey key];
          opts = (if lc_EnableRelayService cfg then opts @ [ForceReachabilityPublic] else opts);
          opts = (if lc_EnableAutoRelay cfg \<and> \<not> lc_EnableRelayService cfg then opts @ [ForceReachabilityPrivate] else opts);
          opts = (if lc_EnableAutoRelay cfg \<or> lc_EnableRelayService cfg then opts @ [EnableRelay] else opts);
          opts = (if lc_EnableNATPortMap cfg then opts @ [NATPortMap] else opts);
          opts = (if lc_EnableHolePunching cfg then opts @ [EnableHolePunching] else opts);
          opts = (if lc_EnableRelayService cfg then opts @ [EnableRelayService] else opts)
      in if lc_EnableAutoRelay cfg
         then case parseStaticRelayPeers lib (lc_BootstrapPeers cfg) of
             Inr relays \<Rightarrow> if relays \<noteq> [] then opts @ [EnableAutoRelayWithStaticRelays relays] else opts
           | Inl e \<Rightarrow> opts
         else opts)"

text \<open>Dialling the configured bootstrap peers: the addresses are stored before the dial, whose result
  is an argument, as is the library's permanent lifetime. The last error, what was stored, and
  the peers connected.\<close>

fun connectBootstrapPeers ::
  "Libp2pLib \<Rightarrow> duration \<Rightarrow> (AddrInfo \<Rightarrow> go_error option) \<Rightarrow> string list \<Rightarrow> go_error option
    \<Rightarrow> go_error option \<times> peerstore_op list \<times> AddrInfo list" where
  "connectBootstrapPeers lib permanent connect [] lastErr = (lastErr, [], [])"
| "connectBootstrapPeers lib permanent connect (r # rs) lastErr =
     (case lp_multiaddr lib r of
        Inl e \<Rightarrow> connectBootstrapPeers lib permanent connect rs (Some e)
      | Inr maddr \<Rightarrow>
          (case lp_p2paddr lib maddr of
             Inl e \<Rightarrow> connectBootstrapPeers lib permanent connect rs (Some e)
           | Inr ai \<Rightarrow>
               let stored = AddAddrs (ai_ID ai) (ai_Addrs ai) permanent in
               (case connect ai of
                  Some e \<Rightarrow>
                    let (err, ops, ais) = connectBootstrapPeers lib permanent connect rs (Some e)
                    in (err, stored # ops, ais)
                | None \<Rightarrow>
                    let (err, ops, ais) = connectBootstrapPeers lib permanent connect rs lastErr
                    in (err, stored # ops, ai # ais))))"

text \<open>A tick of the reconnect loop: what it stores, and which peers it dials.\<close>

definition reconnect_tick :: "duration \<Rightarrow> (string \<Rightarrow> bool) \<Rightarrow> Libp2pNode \<Rightarrow> (peerstore_op \<times> AddrInfo) list" where
  "reconnect_tick permanent up n =
     map (\<lambda>ai. (AddAddrs (ai_ID ai) (ai_Addrs ai) permanent, ai))
       (filter (\<lambda>ai. ai_ID ai \<noteq> [] \<and> \<not> up (ai_ID ai)) (ln_bootstrapPeers n))"

text \<open>The loop around it: each tick comes with who is connected then. Without bootstrap peers it is not
  entered.\<close>

definition bootstrapReconnectLoop :: "duration \<Rightarrow> (string \<Rightarrow> bool) list \<Rightarrow> Libp2pNode \<Rightarrow> (peerstore_op \<times> AddrInfo) list" where
  "bootstrapReconnectLoop permanent ticks n =
     (if ln_bootstrapPeers n = [] then [] else concat (map (\<lambda>up. reconnect_tick permanent up n) ticks))"

text \<open>The rendezvous strings advertised in as many ticks before the node stops.\<close>

fun advertise_rounds :: "string \<Rightarrow> nat \<Rightarrow> string list" where
  "advertise_rounds rendezvous 0 = [rendezvous]"
| "advertise_rounds rendezvous (Suc ticks) = rendezvous # advertise_rounds rendezvous ticks"

definition advertiseLoop :: "string \<Rightarrow> nat \<Rightarrow> string list" where
  "advertiseLoop rendezvous ticks =
     advertise_rounds (if rendezvous = [] then ''infermesh-rendezvous'' else rendezvous) ticks"

text \<open>A peer found by mDNS: its addresses are stored and it is dialled.\<close>

definition HandlePeerFound :: "duration \<Rightarrow> AddrInfo \<Rightarrow> peerstore_op \<times> AddrInfo" where
  "HandlePeerFound temp ai = (AddAddrs (ai_ID ai) (ai_Addrs ai) temp, ai)"

text \<open>\<open>Close\<close>: the parts that are there are closed, in this order; the host's error is returned.\<close>

datatype node_part = Subscription | Topic | DHT | HostPart

definition CloseNode :: "node_part set \<Rightarrow> go_error option \<Rightarrow> node_part list \<times> go_error option" where
  "CloseNode present hostErr =
     (filter (\<lambda>p. p \<in> present) [Subscription, Topic, DHT, HostPart], if HostPart \<in> present then hostErr else None)"

text \<open>The results of the library calls of the constructor; a \<open>start_event\<close> is what it does to the
  world: the host's life, the peers stored and dialled, the services started.\<close>

record StartEnv =
  se_identity :: "go_error + string"
  se_newHost :: "host_option list \<Rightarrow> go_error + string"
  se_dhtNew :: "go_error option"
  se_dhtBootstrap :: "go_error option"
  se_permanent :: duration
  se_connect :: "AddrInfo \<Rightarrow> go_error option"
  se_gossipsub :: "go_error option"
  se_join :: "string \<Rightarrow> go_error option"
  se_subscribe :: "go_error option"

datatype start_event =
    HostCreated | HostClosed | Dialled "peerstore_op list" "AddrInfo list" | MdnsStarted string
  | HeartbeatLoop | AdvertiseLoop string | ReconnectLoop

definition heartbeatTopic :: string where "heartbeatTopic = ''infermesh.heartbeat.v1''"

definition mdns_events :: "Libp2pConfig \<Rightarrow> start_event list" where
  "mdns_events cfg =
     (if lc_EnableMDNS cfg
      then [MdnsStarted (if lc_Rendezvous cfg = [] then ''infermesh-mdns'' else lc_Rendezvous cfg)] else [])"

definition NewLibp2pNode :: "Libp2pLib \<Rightarrow> StartEnv \<Rightarrow> Libp2pConfig \<Rightarrow> (go_error + Libp2pNode) \<times> start_event list" where
  "NewLibp2pNode lib env cfg =
     (case se_identity env of
        Inl e \<Rightarrow> (Inl e, [])
      | Inr key \<Rightarrow>
          (case se_newHost env (host_options lib cfg key) of
             Inl e \<Rightarrow> (Inl (ErrWrap ''create libp2p host: '' e), [])
           | Inr hostID \<Rightarrow>
               (case se_dhtNew env of
                  Some e \<Rightarrow> (Inl (ErrWrap ''create dht: '' e), [HostCreated, HostClosed])
                | None \<Rightarrow>
               (case se_dhtBootstrap env of
                  Some e \<Rightarrow> (Inl (ErrWrap ''bootstrap dht: '' e), [HostCreated, HostClosed])
                | None \<Rightarrow>
               let n = \<lparr>ln_ID = hostID, ln_bootstrapPeers = parseBootstrapInfos lib (lc_BootstrapPeers cfg),
                        ln_heartbeatTTL = 90 * second, ln_heartbeats = [], ln_registry = []\<rparr>;
                   (err, ops, ais) = connectBootstrapPeers lib (se_permanent env) (se_connect env) (lc_BootstrapPeers cfg) None;
                   evs = [HostCreated, Dialled ops ais] @ mdns_events cfg
               in
               (case se_gossipsub env of
                  Some e \<Rightarrow> (Inl (ErrWrap ''create gossipsub: '' e), evs @ [HostClosed])
                | None \<Rightarrow>
               (case se_join env heartbeatTopic of
                  Some e \<Rightarrow> (Inl (ErrWrap ''join heartbeat topic: '' e), evs @ [HostClosed])
                | None \<Rightarrow>
               (case se_subscribe env of
                  Some e \<Rightarrow> (Inl (ErrWrap ''subscribe heartbeat topic: '' e), evs @ [HostClosed])
                | None \<Rightarrow>
                    (Inr n, evs @ [HeartbeatLoop, AdvertiseLoop (lc_Rendezvous cfg), ReconnectLoop]))))))))"

section \<open>Facts about the maps\<close>

lemma time_sub_gt: "0 \<le> ttl \<Longrightarrow> ttl < 2 ^ 62 \<Longrightarrow> time_sub a b > ttl \<longleftrightarrow> a - b > ttl"
  by (auto simp: time_sub_def sat64_def)

definition alive :: "duration \<Rightarrow> gtime \<Rightarrow> heartbeatEntry option \<Rightarrow> heartbeatEntry option" where
  "alive ttl now x = (case x of None \<Rightarrow> None | Some e \<Rightarrow> if now - he_seenAt e > ttl then None else Some e)"

definition newer :: "heartbeatEntry option \<Rightarrow> heartbeatEntry option \<Rightarrow> heartbeatEntry option" where
  "newer a b = (case a of None \<Rightarrow> b | Some x \<Rightarrow> (case b of None \<Rightarrow> Some x
     | Some y \<Rightarrow> if he_seenAt y > he_seenAt x then Some y else Some x))"

lemma alive_alive: "t \<le> T \<Longrightarrow> alive ttl T (alive ttl t x) = alive ttl T x"
  by (auto simp: alive_def split: option.splits)

lemma prune_get:
  assumes "permuting rng" "0 \<le> ttl" "ttl < 2 ^ 62" "map_wf m"
  shows "map_get (pruneLocked rng ttl now m) k = alive ttl now (map_get m k)"
  unfolding pruneLocked_def
  using gm.get_prune[OF assms(4), of "rng m" "\<lambda>v. time_sub now (he_seenAt v) > ttl" k] permuting_set[OF assms(1), of m]
  by (auto simp: alive_def time_sub_gt[OF assms(2,3)] split: option.splits)

lemma prune_wf: "map_wf m \<Longrightarrow> map_wf (pruneLocked rng ttl now m)"
  unfolding pruneLocked_def by (rule gm.wf_fold_del)

lemma fold_put_get:
  assumes "distinct (map fst xs)"
  shows "map_get (fold (\<lambda>(k, v). map_put k v) xs m) k = (case map_of xs k of Some v \<Rightarrow> Some v | None \<Rightarrow> map_get m k)"
  using assms
proof (induction xs arbitrary: m)
  case (Cons x xs)
  obtain a v where x: "x = (a, v)" by force
  have "a = k \<Longrightarrow> map_of xs k = None" using Cons.prems by (auto simp: x map_of_eq_None_iff)
  then show ?case using Cons by (auto simp: x update_conv' split: option.splits)
qed simp

lemma fold_put_wf: "map_wf m \<Longrightarrow> map_wf (fold (\<lambda>(k, v). map_put k v) xs m)"
  by (induction xs arbitrary: m) (auto simp: gm.wf_put)

lemma merge_get:
  assumes "distinct (map fst reg)"
  shows "map_get (merge_entries out reg) k = newer (map_get out k) (map_of reg k)"
  using assms unfolding merge_entries_def
proof (induction reg arbitrary: out)
  case (Cons x reg)
  obtain a v where x: "x = (a, v)" by force
  have "a = k \<Longrightarrow> map_of reg k = None" using Cons.prems by (auto simp: x map_of_eq_None_iff)
  then show ?case
    using Cons by (auto simp: x newer_def update_conv' time_after_def split: option.splits)
qed (auto simp: newer_def split: option.splits)

lemma merge_wf: "map_wf out \<Longrightarrow> map_wf (merge_entries out reg)"
  unfolding merge_entries_def
  by (induction reg arbitrary: out) (auto simp: gm.wf_put split: option.splits)

section \<open>The registry against its history\<close>

text \<open>What can happen to a node's maps; each event carries the clock readings it takes.\<close>

datatype node_event =
    GotHeartbeat string "CapabilityDocument option" gtime gtime
  | GotAnnounce CapabilityDocument gtime gtime
  | AskedHeartbeats gtime
  | AskedRegistry gtime

fun node_step :: "entry_order \<Rightarrow> node_event \<Rightarrow> Libp2pNode \<Rightarrow> Libp2pNode" where
  "node_step rng (GotHeartbeat src data t1 t2) n = consumeHeartbeat src data t1 t2 n"
| "node_step rng (GotAnnounce cap t1 t2) n = UpsertRegistryCapability t1 t2 cap n"
| "node_step rng (AskedHeartbeats t) n = snd (Heartbeats rng t n)"
| "node_step rng (AskedRegistry t) n = snd (RegistryCapabilities rng t n)"

fun event_time :: "node_event \<Rightarrow> gtime" where
  "event_time (GotHeartbeat src data t1 t2) = t2"
| "event_time (GotAnnounce cap t1 t2) = t2"
| "event_time (AskedHeartbeats t) = t"
| "event_time (AskedRegistry t) = t"

text \<open>The specification: what each event says about a peer, on each of the two channels.\<close>

fun heard :: "string \<Rightarrow> string \<Rightarrow> node_event \<Rightarrow> heartbeatEntry option" where
  "heard self k (GotHeartbeat src (Some cap) t1 t2) =
     (if src \<noteq> self \<and> PeerID cap = k then Some \<lparr>he_cap = stamp t1 cap, he_seenAt = t2\<rparr> else None)"
| "heard self k ev = None"

fun announced :: "string \<Rightarrow> node_event \<Rightarrow> heartbeatEntry option" where
  "announced k (GotAnnounce cap t1 t2) =
     (if trim_space (PeerID cap) \<noteq> [] \<and> PeerID cap = k then Some \<lparr>he_cap = stamp t1 cap, he_seenAt = t2\<rparr> else None)"
| "announced k ev = None"

fun last_said :: "(node_event \<Rightarrow> heartbeatEntry option) \<Rightarrow> node_event list \<Rightarrow> heartbeatEntry option" where
  "last_said f [] = None"
| "last_said f (ev # evs) = (case last_said f evs of Some e \<Rightarrow> Some e | None \<Rightarrow> f ev)"

lemma last_said_snoc: "last_said f (evs @ [ev]) = (case f ev of Some e \<Rightarrow> Some e | None \<Rightarrow> last_said f evs)"
  by (induction evs) (auto split: option.splits)

text \<open>The freshest live word about a peer.\<close>

definition latest :: "duration \<Rightarrow> string \<Rightarrow> gtime \<Rightarrow> node_event list \<Rightarrow> string \<Rightarrow> heartbeatEntry option" where
  "latest ttl self now evs k =
     newer (alive ttl now (last_said (heard self k) evs)) (alive ttl now (last_said (announced k) evs))"

definition fresh_node :: "string \<Rightarrow> duration \<Rightarrow> Libp2pNode \<Rightarrow> bool" where
  "fresh_node self ttl n = (ln_ID n = self \<and> ln_heartbeatTTL n = ttl \<and> ln_heartbeats n = [] \<and> ln_registry n = [])"

definition node_wf :: "string \<Rightarrow> duration \<Rightarrow> Libp2pNode \<Rightarrow> bool" where
  "node_wf self ttl n = (ln_ID n = self \<and> ln_heartbeatTTL n = ttl \<and> map_wf (ln_heartbeats n) \<and> map_wf (ln_registry n))"

lemma stamp_id [simp]: "PeerID (stamp t c) = PeerID c"
  by (simp add: stamp_def)

text \<open>The heartbeat loop is a run of the node; what the node sent itself and what does not decode leave
  no trace.\<close>

lemma consumeHeartbeats_run:
  "consumeHeartbeats msgs n = fold (node_step rng) (map (\<lambda>(src, data, t1, t2). GotHeartbeat src data t1 t2) msgs) n"
  by (induction msgs n rule: consumeHeartbeats.induct) auto

lemma consumeHeartbeat_keeps [simp]: "ln_ID (consumeHeartbeat src data t1 t2 n) = ln_ID n"
  by (simp add: consumeHeartbeat_def Let_def split: option.split)

lemma consumeHeartbeats_ignores:
  "consumeHeartbeats msgs n = consumeHeartbeats (filter (\<lambda>(src, data, ts). src \<noteq> ln_ID n \<and> data \<noteq> None) msgs) n"
proof (induction msgs arbitrary: n)
  case (Cons m msgs)
  obtain src data t1 t2 where m: "m = (src, data, t1, t2)" by (cases m) auto
  show ?case using Cons[of "consumeHeartbeat src data t1 t2 n"]
    by (cases data) (auto simp: m consumeHeartbeat_def Let_def)
qed simp

lemma node_step_wf:
  assumes "permuting rng" "0 \<le> ttl" "ttl < 2 ^ 62" "node_wf self ttl n" shows "node_wf self ttl (node_step rng ev n)"
  using assms prune_wf
  by (cases ev) (auto simp: node_wf_def consumeHeartbeat_def UpsertRegistryCapability_def Heartbeats_def
      snapshotMapLocked_def RegistryCapabilities_def Let_def gm.wf_put split: option.splits)

text \<open>One event, seen at any later time \<open>T\<close>: the live part of each map follows its channel.\<close>

lemma node_step_alive:
  assumes "permuting rng" "0 \<le> ttl" "ttl < 2 ^ 62" "node_wf self ttl n" "event_time ev \<le> T"
  shows "alive ttl T (map_get (ln_heartbeats (node_step rng ev n)) k) =
      (case heard self k ev of Some e \<Rightarrow> alive ttl T (Some e) | None \<Rightarrow> alive ttl T (map_get (ln_heartbeats n) k))"
    "alive ttl T (map_get (ln_registry (node_step rng ev n)) k) =
      (case announced k ev of Some e \<Rightarrow> alive ttl T (Some e) | None \<Rightarrow> alive ttl T (map_get (ln_registry n) k))"
  using assms prune_get[OF assms(1-3)]
  by (cases "(self, k, ev)" rule: heard.cases;
      auto simp: node_wf_def consumeHeartbeat_def UpsertRegistryCapability_def Heartbeats_def alive_alive
        snapshotMapLocked_def RegistryCapabilities_def Let_def update_conv')+

lemma node_run_alive:
  assumes "permuting rng" "0 \<le> ttl" "ttl < 2 ^ 62" "fresh_node self ttl n" "\<forall>ev\<in>set evs. event_time ev \<le> T"
  shows "node_wf self ttl (fold (node_step rng) evs n)
    \<and> alive ttl T (map_get (ln_heartbeats (fold (node_step rng) evs n)) k) = alive ttl T (last_said (heard self k) evs)
    \<and> alive ttl T (map_get (ln_registry (fold (node_step rng) evs n)) k) = alive ttl T (last_said (announced k) evs)"
  using assms(5)
proof (induction evs rule: rev_induct)
  case Nil
  then show ?case using assms(4) by (simp add: fresh_node_def node_wf_def gm.wf_empty)
next
  case (snoc ev evs)
  then have wf: "node_wf self ttl (fold (node_step rng) evs n)" and t: "event_time ev \<le> T" by simp_all
  show ?case
    using snoc node_step_wf[OF assms(1-3) wf] node_step_alive[OF assms(1-3) wf t]
    by (auto simp: last_said_snoc split: option.splits)
qed

text \<open>What a read returns: one document per peer with live word, the freshest.\<close>

lemma RegistryCapabilities_reads:
  assumes rng: "permuting rng" and ttl: "0 \<le> ttl" "ttl < 2 ^ 62" and wf: "node_wf self ttl n"
  shows "\<exists>out. map_wf out \<and> fst (RegistryCapabilities rng now n) = map (\<lambda>(k, v). he_cap v) (rng out)
     \<and> (\<forall>k. map_get out k = newer (alive ttl now (map_get (ln_heartbeats n) k)) (alive ttl now (map_get (ln_registry n) k)))"
proof -
  define hb where "hb = pruneLocked rng ttl now (ln_heartbeats n)"
  define reg where "reg = pruneLocked rng ttl now (ln_registry n)"
  have wfs: "map_wf hb" "map_wf reg"
    using wf prune_wf by (auto simp: hb_def reg_def node_wf_def)
  have d: "distinct (map fst (rng m))" if "map_wf m" for m :: entries
    using that permuting_mset[OF rng, of m] unfolding map_wf_def by (metis mset_eq_imp_distinct_iff mset_map)
  have same: "map_of (rng m) k = map_get m k" if m: "map_wf m" for m :: entries and k
    using d[OF m] m permuting_set[OF rng, of m] by (metis map_of_eq_Some_iff map_of_inject_set map_wf_def)
  define out where "out = merge_entries (fold (\<lambda>(k, v). map_put k v) (rng hb) []) (rng reg)"
  have g: "map_get out k = newer (alive ttl now (map_get (ln_heartbeats n) k)) (alive ttl now (map_get (ln_registry n) k))" for k
    using wf unfolding out_def merge_get[OF d[OF wfs(2)]] fold_put_get[OF d[OF wfs(1)]] same[OF wfs(1)] same[OF wfs(2)]
    by (auto simp: hb_def reg_def prune_get[OF rng ttl] node_wf_def split: option.splits)
  have "map_wf out" unfolding out_def by (intro merge_wf fold_put_wf gm.wf_empty)
  moreover have "fst (RegistryCapabilities rng now n) = map (\<lambda>(k, v). he_cap v) (rng out)"
    using wf by (simp add: RegistryCapabilities_def Let_def out_def hb_def reg_def node_wf_def)
  ultimately show ?thesis using g by blast
qed

section \<open>Addresses and start-up\<close>

lemma parse_agree:
  "parseStaticRelayPeers lib rs = Inr ais \<Longrightarrow> parseBootstrapInfos lib rs = ais"
  by (induction rs arbitrary: ais) (auto split: if_splits sum.splits)

lemma add_addrs_only:
  "AddAddrs q as t \<in> set (snd (add_addrs lib pid ttl raw)) \<Longrightarrow> q = pid \<and> t = ttl"
  by (induction raw) (auto simp: Let_def split: if_splits sum.splits prod.splits)

fun added_count :: "peerstore_op list \<Rightarrow> nat" where
  "added_count [] = 0"
| "added_count (AddAddrs q as t # ops) = length as + added_count ops"
| "added_count (ClearAddrs q # ops) = added_count ops"

lemma add_addrs_count: "fst (add_addrs lib pid ttl raw) = added_count (snd (add_addrs lib pid ttl raw))"
  by (induction raw) (auto simp: Let_def split: sum.splits prod.splits)

lemma collect_peers_spec:
  "collect_peers self limit out ps =
     (let found = filter (\<lambda>p. ai_ID p \<noteq> [] \<and> ai_ID p \<noteq> self) ps in
      if limit > 0 then out @ take (max 1 (nat limit - length out)) found else out @ found)"
proof (induction ps arbitrary: out)
  case (Cons p ps)
  show ?case
  proof (cases "ai_ID p = [] \<or> ai_ID p = self")
    case True
    then show ?thesis using Cons[of out] by (auto simp: Let_def)
  next
    case False
    show ?thesis
    proof (cases "limit > 0 \<and> int (length (out @ [p])) \<ge> limit")
      case True
      then have "max 1 (nat limit - length out) = 1" by auto
      then show ?thesis using True False by (auto simp: Let_def)
    next
      case go: False
      then have "collect_peers self limit out (p # ps) = collect_peers self limit (out @ [p]) ps"
        using False by (auto simp: Let_def)
      moreover have "limit > 0 \<Longrightarrow> max 1 (nat limit - length out) = Suc (max 1 (nat limit - length (out @ [p])))"
        using go by (auto simp: max_def)
      ultimately show ?thesis using Cons[of "out @ [p]"] False by (auto simp: Let_def)
    qed
  qed
qed (simp add: Let_def)

text \<open>The host's life: created and not closed when the constructor succeeds, otherwise never created
  or created and closed last.\<close>

definition leaks_no_host :: "start_event list \<Rightarrow> bool" where
  "leaks_no_host evs = (HostCreated \<notin> set evs \<or> (evs \<noteq> [] \<and> last evs = HostClosed))"

lemma mdns_events_other [simp]: "HostCreated \<notin> set (mdns_events cfg)" "HostClosed \<notin> set (mdns_events cfg)"
  by (simp_all add: mdns_events_def)

lemma connectBootstrapPeers_stored:
  "fst (snd (connectBootstrapPeers lib ttl connect rs le)) =
     map (\<lambda>ai. AddAddrs (ai_ID ai) (ai_Addrs ai) ttl)
       (List.map_filter (\<lambda>r. case lp_multiaddr lib r of Inl e \<Rightarrow> None
          | Inr m \<Rightarrow> (case lp_p2paddr lib m of Inl e \<Rightarrow> None | Inr ai \<Rightarrow> Some ai)) rs)"
  by (induction rs arbitrary: le) (auto simp: List.map_filter_simps Let_def split_beta split: sum.split option.split)

lemma connectBootstrapPeers_connected:
  "ai \<in> set (snd (snd (connectBootstrapPeers lib ttl connect rs le))) \<Longrightarrow>
   connect ai = None \<and> AddAddrs (ai_ID ai) (ai_Addrs ai) ttl \<in> set (fst (snd (connectBootstrapPeers lib ttl connect rs le)))"
  by (induction rs arbitrary: le) (auto simp: Let_def split_beta split: sum.splits option.splits)

text \<open>The reachability a host is forced into is never both.\<close>

lemma host_options_reachability:
  "\<not> (ForceReachabilityPublic \<in> set (host_options lib cfg key) \<and> ForceReachabilityPrivate \<in> set (host_options lib cfg key))"
  by (auto simp: host_options_def Let_def split: if_splits sum.splits)

section \<open>The registry answers with the latest word\<close>

text \<open>C23: Whatever heartbeats and announcements a new node received, and however often it was asked in
  between, a registry answer lists, for each peer, the document of the last heartbeat or the last
  announcement, the one received later, as long as it is not older than the time to live; nothing
  else is listed, and nobody twice.\<close>

theorem registry_refines_history:
  assumes "permuting rng" "0 \<le> ttl" "ttl < 2 ^ 62" "fresh_node self ttl n" "list_all (\<lambda>ev. event_time ev \<le> now) evs"
  shows "\<exists>out. map_wf out \<and> (\<forall>k. map_get out k = latest ttl self now evs k)
    \<and> fst (RegistryCapabilities rng now (fold (node_step rng) evs n)) = map (\<lambda>(k, v). he_cap v) (rng out)"
proof -
  define n' where "n' = fold (node_step rng) evs n"
  have "\<forall>ev\<in>set evs. event_time ev \<le> now" using assms(5) by (simp add: list_all_iff)
  note run = node_run_alive[OF assms(1-4) this]
  have wf: "node_wf self ttl n'" using run by (simp add: n'_def)
  obtain out where "map_wf out" "fst (RegistryCapabilities rng now n') = map (\<lambda>(k, v). he_cap v) (rng out)"
    "\<forall>k. map_get out k = newer (alive ttl now (map_get (ln_heartbeats n') k)) (alive ttl now (map_get (ln_registry n') k))"
    using RegistryCapabilities_reads[OF assms(1-3) wf] by blast
  then show ?thesis using run by (auto simp: n'_def latest_def)
qed

lemma registry_refines_history_witness:
  "\<exists>out. map_wf out
     \<and> map_get out ''p'' = Some \<lparr>he_cap = zero_doc\<lparr>PeerID := ''p'', GPU := ''new'', UpdatedAt := 9\<rparr>, he_seenAt = 9\<rparr>
     \<and> fst (RegistryCapabilities (\<lambda>xs. xs) 20 (fold (node_step (\<lambda>xs. xs))
          [GotHeartbeat ''p'' (Some (zero_doc\<lparr>PeerID := ''p'', UpdatedAt := 3\<rparr>)) 3 3, AskedHeartbeats 5,
           GotAnnounce (zero_doc\<lparr>PeerID := ''p'', GPU := ''new'', UpdatedAt := 9\<rparr>) 9 9]
          \<lparr>ln_ID = ''me'', ln_bootstrapPeers = [], ln_heartbeatTTL = 90, ln_heartbeats = [], ln_registry = []\<rparr>))
        = map (\<lambda>(k, v). he_cap v) out"
proof -
  define evs where "evs = [GotHeartbeat ''p'' (Some (zero_doc\<lparr>PeerID := ''p'', UpdatedAt := 3\<rparr>)) 3 3, AskedHeartbeats 5,
     GotAnnounce (zero_doc\<lparr>PeerID := ''p'', GPU := ''new'', UpdatedAt := 9\<rparr>) 9 9]"
  define n where "n = \<lparr>ln_ID = ''me'', ln_bootstrapPeers = [], ln_heartbeatTTL = 90, ln_heartbeats = [], ln_registry = []\<rparr>"
  have "trim_space ''p'' = ''p''" by code_simp
  then have "latest 90 ''me'' 20 evs ''p'' = Some \<lparr>he_cap = zero_doc\<lparr>PeerID := ''p'', GPU := ''new'', UpdatedAt := 9\<rparr>, he_seenAt = 9\<rparr>"
    by (simp add: latest_def newer_def alive_def evs_def stamp_def time_is_zero_def)
  moreover have "fresh_node ''me'' 90 n" by (simp add: fresh_node_def n_def)
  ultimately show ?thesis
    using registry_refines_history[of "\<lambda>xs. xs" 90 "''me''" n 20 evs] permuting_id by (fastforce simp: evs_def n_def)
qed

text \<open>C24: Starting a node that fails, at whatever step, leaves no host running; a node that starts keeps
  its host, with both tables empty and the time to live of 90 seconds.\<close>

theorem node_start_is_clean:
  "case NewLibp2pNode lib env cfg of
     (Inl e, evs) \<Rightarrow> leaks_no_host evs
   | (Inr n, evs) \<Rightarrow> HostCreated \<in> set evs \<and> HostClosed \<notin> set evs \<and> fresh_node (ln_ID n) (90 * second) n"
  by (auto simp: NewLibp2pNode_def fresh_node_def leaks_no_host_def Let_def split: sum.split option.split prod.split)

end
