(* ===== verification/Discovery.thy ===== *)
theory Discovery
  imports Registry Backend
begin

text \<open>
  How a client finds capability documents (\<^verbatim>\<open>internal/p2p/discovery.go\<close>, \<^verbatim>\<open>lan_discovery.go\<close>,
  \<^verbatim>\<open>multi_discovery.go\<close>, \<^verbatim>\<open>libp2p_discovery.go\<close>): over HTTP from configured gateways, from LAN
  broadcasts, over libp2p from heartbeats, bootstrap registries and probes, and merged from
  several sources. The locale \<open>discovery\<close> is the Go interface with its promise: a success is
  never empty.
\<close>

type_synonym doc_order = "(string \<times> CapabilityDocument) list \<Rightarrow> (string \<times> CapabilityDocument) list"
type_synonym doc_sorter =
  "(CapabilityDocument \<Rightarrow> CapabilityDocument \<Rightarrow> bool) \<Rightarrow> CapabilityDocument list \<Rightarrow> CapabilityDocument list"

locale discovery =
  fixes list_caps :: "'e \<Rightarrow> go_error + CapabilityDocument list"
  assumes found_some: "list_caps e = Inr caps \<Longrightarrow> caps \<noteq> []"
begin

lemma found_ne: "list_caps e = Inr caps \<Longrightarrow> \<exists>c rest. caps = c # rest"
  using found_some by (cases caps) auto

end

section \<open>HTTP\<close>

record HTTPDiscovery =
  hd_gatewayURLs :: "string list"

fun clean_urls :: "string list \<Rightarrow> string list" where
  "clean_urls [] = []"
| "clean_urls (u # us) =
     (let u = trim_space (trim_right_char (CHR 0x2F) u) in if u = [] then clean_urls us else u # clean_urls us)"

definition NewHTTPDiscovery :: "string list \<Rightarrow> HTTPDiscovery" where
  "NewHTTPDiscovery gatewayURLs = \<lparr>hd_gatewayURLs = clean_urls gatewayURLs\<rparr>"

text \<open>One worker of the pool.\<close>

definition http_probe :: "HttpEnv \<Rightarrow> (string \<Rightarrow> go_error + CapabilityDocument) \<Rightarrow> string \<Rightarrow> go_error + CapabilityDocument" where
  "http_probe env unmarshal base =
     (let url = base @ ''/capabilities'' in
      case url_error env url of
        Some e \<Rightarrow> Inl e
      | None \<Rightarrow>
          (case round_trip env \<lparr>hq_Method = ''GET'', hq_URL = url, hq_Header = [], hq_Body = []\<rparr> of
             Inl e \<Rightarrow> Inl e
           | Inr resp \<Rightarrow>
               if hr_StatusCode resp \<noteq> 200 then Inl (ErrText (base @ '' status '' @ int_dec (hr_StatusCode resp)))
               else case unmarshal (hr_Body resp) of
                   Inl e \<Rightarrow> Inl e
                 | Inr cap \<Rightarrow> Inr (if GatewayURL cap = [] then cap\<lparr>GatewayURL := base\<rparr> else cap)))"

text \<open>The results arrive in the order the workers finish, a permutation of the list.\<close>

definition HTTPDiscovery_List ::
  "HttpEnv \<Rightarrow> (string \<Rightarrow> go_error + CapabilityDocument)
    \<Rightarrow> ((go_error + CapabilityDocument) list \<Rightarrow> (go_error + CapabilityDocument) list)
    \<Rightarrow> HTTPDiscovery \<Rightarrow> go_error + CapabilityDocument list" where
  "HTTPDiscovery_List env unmarshal finish d =
     (let results = finish (map (http_probe env unmarshal) (hd_gatewayURLs d));
          caps = map projr (filter (\<lambda>r. \<not> isl r) results)
      in if caps = [] then Inl ErrNoPeersDiscovered else Inr caps)"

interpretation http_disc: discovery "HTTPDiscovery_List env unmarshal finish"
  by unfold_locales (auto simp: HTTPDiscovery_List_def Let_def split: if_splits)

section \<open>LAN broadcasts\<close>

text \<open>\<open>net.JoinHostPort\<close>, and the parts of a parsed URL the code uses: \<open>Hostname()\<close>, \<open>Port()\<close> and
  \<open>String()\<close> after the host is replaced. \<open>url.Parse\<close> is an argument.\<close>

definition JoinHostPort :: "string \<Rightarrow> string \<Rightarrow> string" where
  "JoinHostPort host port =
     (if CHR '':'' \<in> set host then ''['' @ host @ '']:'' @ port else host @ '':'' @ port)"

record url_view =
  uv_Hostname :: string
  uv_Port :: string
  uv_WithHost :: "string \<Rightarrow> string"

record lanEntry =
  le_cap :: CapabilityDocument
  le_lastSeen :: gtime

record LANDiscovery =
  lan_entries :: "(string, lanEntry) gomap"
  lan_ttl :: duration

definition NewLANDiscovery :: "go_error option \<Rightarrow> duration \<Rightarrow> go_error + LANDiscovery" where
  "NewLANDiscovery listenErr ttl =
     (let ttl = (if ttl \<le> 0 then 15 * second else ttl) in
      case listenErr of Some e \<Rightarrow> Inl e | None \<Rightarrow> Inr \<lparr>lan_entries = [], lan_ttl = ttl\<rparr>)"

text \<open>\<open>ip\<close> is the sender's address as text, empty when it is not a UDP address.\<close>

definition normalizeCapability :: "(string \<Rightarrow> url_view option) \<Rightarrow> string \<Rightarrow> CapabilityDocument \<Rightarrow> CapabilityDocument" where
  "normalizeCapability parse ip cap =
     (if GatewayURL cap = [] then cap\<lparr>GatewayURL := ''http://'' @ JoinHostPort ip ''7777''\<rparr>
      else case parse (GatewayURL cap) of
          None \<Rightarrow> cap
        | Some u \<Rightarrow>
            (let host = uv_Hostname u in
             if host = [] \<or> host = ''127.0.0.1'' \<or> host = ''localhost'' \<or> has_prefix ''::1'' host
             then let port = (if uv_Port u = [] then ''7777'' else uv_Port u)
                  in cap\<lparr>GatewayURL := uv_WithHost u (JoinHostPort ip port)\<rparr>
             else cap))"

definition doc_key :: "CapabilityDocument \<Rightarrow> string" where
  "doc_key c = PeerID c @ ''|'' @ GatewayURL c"

text \<open>One datagram; \<open>data\<close> is \<open>None\<close> when it is not a document.\<close>

definition lan_receive ::
  "(string \<Rightarrow> url_view option) \<Rightarrow> CapabilityDocument option \<Rightarrow> string \<Rightarrow> gtime \<Rightarrow> LANDiscovery \<Rightarrow> LANDiscovery" where
  "lan_receive parse data ip now d =
     (case data of
        None \<Rightarrow> d
      | Some cap \<Rightarrow>
          let norm = normalizeCapability parse ip cap
          in d\<lparr>lan_entries := map_put (doc_key norm) \<lparr>le_cap = norm, le_lastSeen = now\<rparr> (lan_entries d)\<rparr>)"

text \<open>The loop of \<open>listen\<close> over the datagrams it reads until reading fails.\<close>

fun lan_listen ::
  "(string \<Rightarrow> url_view option) \<Rightarrow> (CapabilityDocument option \<times> string \<times> gtime) list \<Rightarrow> LANDiscovery \<Rightarrow> LANDiscovery" where
  "lan_listen parse [] d = d"
| "lan_listen parse ((data, ip, t) # evs) d = lan_listen parse evs (lan_receive parse data ip t d)"

fun lan_sweep ::
  "duration \<Rightarrow> gtime \<Rightarrow> (string \<times> lanEntry) list \<Rightarrow> CapabilityDocument list \<Rightarrow> (string, lanEntry) gomap
    \<Rightarrow> CapabilityDocument list \<times> (string, lanEntry) gomap" where
  "lan_sweep ttl now [] out m = (out, m)"
| "lan_sweep ttl now ((k, v) # es) out m =
     (if time_sub now (le_lastSeen v) > ttl then lan_sweep ttl now es out (map_del k m)
      else lan_sweep ttl now es (out @ [le_cap v]) m)"

definition LANDiscovery_List ::
  "((string \<times> lanEntry) list \<Rightarrow> (string \<times> lanEntry) list) \<Rightarrow> gtime \<Rightarrow> LANDiscovery
    \<Rightarrow> (go_error + CapabilityDocument list) \<times> LANDiscovery" where
  "LANDiscovery_List rng now d =
     (let (out, m) = lan_sweep (lan_ttl d) now (rng (lan_entries d)) [] (lan_entries d) in
      (if out = [] then Inl (ErrText ''no lan peers discovered'') else Inr out, d\<lparr>lan_entries := m\<rparr>))"

interpretation lan_disc: discovery "\<lambda>d. fst (LANDiscovery_List rng now d)"
  by unfold_locales (auto simp: LANDiscovery_List_def Let_def split: if_splits prod.splits)

text \<open>The announcer. \<open>resolved\<close> is the outcome of \<open>net.ResolveUDPAddr\<close>; a round of its loop is told by
  whether the context is done at its start, the snapshot taken, and whether it is done during the
  wait. The datagrams it sends, none in a round whose snapshot cannot be encoded:\<close>

record LANAnnouncer =
  la_dst :: string
  la_interval :: duration

definition NewLANAnnouncer :: "go_error + string \<Rightarrow> duration \<Rightarrow> go_error + LANAnnouncer" where
  "NewLANAnnouncer resolved interval =
     (let interval = (if interval \<le> 0 then 3 * second else interval) in
      case resolved of Inl e \<Rightarrow> Inl e | Inr dst \<Rightarrow> Inr \<lparr>la_dst = dst, la_interval = interval\<rparr>)"

fun announcer_run :: "(CapabilityDocument \<Rightarrow> go_error + string) \<Rightarrow> (bool \<times> CapabilityDocument \<times> bool) list \<Rightarrow> string list" where
  "announcer_run marshal [] = []"
| "announcer_run marshal ((before, cap, waiting) # rounds) =
     (if before then []
      else (case marshal cap of Inl e \<Rightarrow> [] | Inr b \<Rightarrow> [b]) @ (if waiting then [] else announcer_run marshal rounds))"

definition LANAnnouncer_Run ::
  "go_error option \<Rightarrow> (CapabilityDocument \<Rightarrow> go_error + string) \<Rightarrow> (bool \<times> CapabilityDocument \<times> bool) list
    \<Rightarrow> go_error option \<times> string list" where
  "LANAnnouncer_Run dialErr marshal rounds =
     (case dialErr of Some e \<Rightarrow> (Some e, []) | None \<Rightarrow> (None, announcer_run marshal rounds))"

section \<open>Several sources\<close>

definition merge_docs :: "CapabilityDocument list \<Rightarrow> (string, CapabilityDocument) gomap \<Rightarrow> (string, CapabilityDocument) gomap" where
  "merge_docs caps m = fold (\<lambda>c. map_put (doc_key c) c) caps m"

fun merge_sources ::
  "(go_error + CapabilityDocument list) list \<Rightarrow> bool \<Rightarrow> (string, CapabilityDocument) gomap
    \<Rightarrow> bool \<times> (string, CapabilityDocument) gomap" where
  "merge_sources [] anyOK m = (anyOK, m)"
| "merge_sources (r # rs) anyOK m =
     (case r of Inl e \<Rightarrow> merge_sources rs anyOK m | Inr caps \<Rightarrow> merge_sources rs True (merge_docs caps m))"

text \<open>The sources are given by what each answers; nil sources were dropped by the constructor.\<close>

definition NewMultiDiscovery :: "'d option list \<Rightarrow> 'd list" where
  "NewMultiDiscovery ds = List.map_filter (\<lambda>d. d) ds"

definition MultiDiscovery_List :: "doc_order \<Rightarrow> (go_error + CapabilityDocument list) list \<Rightarrow> go_error + CapabilityDocument list" where
  "MultiDiscovery_List rng answers =
     (let (anyOK, merged) = merge_sources answers False [] in
      if \<not> anyOK \<or> merged = [] then Inl (ErrText ''no peers discovered from any source'')
      else Inr (map snd (rng merged)))"

section \<open>libp2p\<close>

record Libp2pDiscovery =
  ld_rendezvous :: string
  ld_timeout :: duration
  ld_retryAfter :: "(string, gtime) gomap"

definition NewLibp2pDiscovery :: "string \<Rightarrow> duration \<Rightarrow> Libp2pDiscovery" where
  "NewLibp2pDiscovery rendezvous timeout =
     \<lparr>ld_rendezvous = rendezvous, ld_timeout = (if timeout \<le> 0 then 3 * second else timeout), ld_retryAfter = []\<rparr>"

definition shouldQuery :: "gtime \<Rightarrow> string \<Rightarrow> Libp2pDiscovery \<Rightarrow> bool" where
  "shouldQuery now pid d =
     (case map_get (ld_retryAfter d) pid of Some next' \<Rightarrow> if time_before now next' then False else True | None \<Rightarrow> True)"

definition markQueryFailure :: "gtime \<Rightarrow> string \<Rightarrow> Libp2pDiscovery \<Rightarrow> Libp2pDiscovery" where
  "markQueryFailure now pid d = d\<lparr>ld_retryAfter := map_put pid (time_add now (30 * second)) (ld_retryAfter d)\<rparr>"

definition markQuerySuccess :: "string \<Rightarrow> Libp2pDiscovery \<Rightarrow> Libp2pDiscovery" where
  "markQuerySuccess pid d = d\<lparr>ld_retryAfter := map_del pid (ld_retryAfter d)\<rparr>"

fun split_relay :: "string list \<Rightarrow> string list \<times> string list" where
  "split_relay [] = ([], [])"
| "split_relay (a # as) =
     (let (relay, other) = split_relay as
      in if str_contains ''/p2p-circuit/'' a then (a # relay, other) else (relay, a # other))"

definition prioritizeRelayAddrs :: "string list \<Rightarrow> string list" where
  "prioritizeRelayAddrs as = (let (relay, other) = split_relay as in if relay \<noteq> [] then relay else other)"

fun synthesize_from :: "Libp2pLib \<Rightarrow> string \<Rightarrow> string \<Rightarrow> string list \<Rightarrow> string list" where
  "synthesize_from lib relayID target [] = []"
| "synthesize_from lib relayID target (a # as) =
     (case lp_multiaddr lib (''/p2p/'' @ lp_string lib relayID @ ''/p2p-circuit/p2p/'' @ target) of
        Inl e \<Rightarrow> synthesize_from lib relayID target as
      | Inr sfx \<Rightarrow> lp_encapsulate lib a sfx # synthesize_from lib relayID target as)"

definition synthesizeRelayAddrs :: "Libp2pLib \<Rightarrow> AddrInfo \<Rightarrow> string \<Rightarrow> string list" where
  "synthesizeRelayAddrs lib relay target = synthesize_from lib (ai_ID relay) target (ai_Addrs relay)"

text \<open>What the network answers during one listing, and the work of the listing: the peers met,
  the documents by peer, and the calls made.\<close>

record DiscEnv =
  de_peers :: "string list"
  de_findPeers :: "string \<Rightarrow> go_error + AddrInfo list"
  de_connect :: "AddrInfo \<Rightarrow> go_error option"
  de_queryRegistry :: "string \<Rightarrow> go_error + CapabilityDocument list"
  de_queryCapability :: "string \<Rightarrow> go_error + CapabilityDocument"
  de_now :: gtime
  de_queryNow :: "string \<Rightarrow> gtime"
  de_failNow :: "string \<Rightarrow> gtime"

datatype net_op = Store peerstore_op | Dial string | Query string

record DiscWork =
  dw_peers :: "(string, unit) gomap"
  dw_caps :: "(string, CapabilityDocument) gomap"
  dw_ops :: "net_op list"

definition note_peer :: "string \<Rightarrow> DiscWork \<Rightarrow> DiscWork" where
  "note_peer pid w = w\<lparr>dw_peers := map_put pid () (dw_peers w)\<rparr>"

definition note_ops :: "peerstore_op list \<Rightarrow> DiscWork \<Rightarrow> DiscWork" where
  "note_ops ops w = w\<lparr>dw_ops := dw_ops w @ map Store ops\<rparr>"

definition note_cap :: "string \<Rightarrow> CapabilityDocument \<Rightarrow> DiscWork \<Rightarrow> DiscWork" where
  "note_cap k c w = w\<lparr>dw_caps := map_put k c (dw_caps w)\<rparr>"

text \<open>The addresses of a peer are stored for a minute, and the peer is dialled.\<close>

definition note_dial :: "AddrInfo \<Rightarrow> DiscWork \<Rightarrow> DiscWork" where
  "note_dial ai w = w\<lparr>dw_ops := dw_ops w @ [Store (AddAddrs (ai_ID ai) (ai_Addrs ai) (60 * second)), Dial (ai_ID ai)]\<rparr>"

definition meet_found :: "string \<Rightarrow> AddrInfo \<Rightarrow> DiscWork \<Rightarrow> DiscWork" where
  "meet_found self ai w =
     (if ai_ID ai = [] \<or> ai_ID ai = self then w
      else note_peer (ai_ID ai) (note_dial ai w))"

definition absorb_heartbeat :: "Libp2pLib \<Rightarrow> CapabilityDocument \<Rightarrow> DiscWork \<Rightarrow> DiscWork" where
  "absorb_heartbeat lib hb w =
     (let w = (if PeerID hb \<noteq> [] \<and> length (AnnounceAddrs hb) > 0 then
            let addrs = prioritizeRelayAddrs (AnnounceAddrs hb);
                w = (if length addrs < length (AnnounceAddrs hb)
                     then case lp_decode lib (PeerID hb) of Inr pid \<Rightarrow> note_ops [ClearAddrs pid] w | Inl e \<Rightarrow> w
                     else w);
                (added, ops) = AddPeerAddrs lib (PeerID hb) addrs (60 * second);
                w = note_ops ops w
            in if added > 0
               then case lp_decode lib (PeerID hb) of Inr pid \<Rightarrow> note_peer pid w | Inl e \<Rightarrow> w
               else w
          else w)
      in note_cap (PeerID hb) hb w)"

definition absorb_registry :: "Libp2pLib \<Rightarrow> string \<Rightarrow> AddrInfo \<Rightarrow> CapabilityDocument \<Rightarrow> DiscWork \<Rightarrow> DiscWork" where
  "absorb_registry lib self bp c w =
     (if PeerID c = [] \<or> PeerID c = lp_string lib self then w
      else let relayAddrs = synthesizeRelayAddrs lib bp (PeerID c);
               prioritized = prioritizeRelayAddrs (AnnounceAddrs c);
               w = (if length relayAddrs > 0
                    then case lp_decode lib (PeerID c) of Inr pid \<Rightarrow> note_ops [ClearAddrs pid] w | Inl e \<Rightarrow> w
                    else w);
               w = (if length relayAddrs > 0 then note_ops (snd (AddPeerAddrs lib (PeerID c) relayAddrs (60 * second))) w else w);
               w = (if length prioritized > 0 then note_ops (snd (AddPeerAddrs lib (PeerID c) prioritized (60 * second))) w else w);
               w = (case lp_decode lib (PeerID c) of Inr pid \<Rightarrow> note_peer pid w | Inl e \<Rightarrow> w)
           in note_cap (PeerID c) c w)"

definition ask_bootstrap :: "Libp2pLib \<Rightarrow> DiscEnv \<Rightarrow> string \<Rightarrow> AddrInfo \<Rightarrow> DiscWork \<Rightarrow> DiscWork" where
  "ask_bootstrap lib env self bp w =
     (if ai_ID bp = [] \<or> ai_ID bp = self then w
      else let w = note_dial bp w in
        case de_connect env bp of
          Some e \<Rightarrow> w
        | None \<Rightarrow>
            (case de_queryRegistry env (ai_ID bp) of
               Inl e \<Rightarrow> w
             | Inr entries \<Rightarrow> fold (absorb_registry lib self bp) entries w))"

definition with_gateway :: "Libp2pLib \<Rightarrow> string \<Rightarrow> CapabilityDocument \<Rightarrow> CapabilityDocument" where
  "with_gateway lib pid cap =
     (if GatewayURL cap = [] then cap\<lparr>GatewayURL := ''libp2p://'' @ lp_string lib pid\<rparr> else cap)"

definition probe_peer :: "Libp2pLib \<Rightarrow> DiscEnv \<Rightarrow> string \<Rightarrow> DiscWork \<times> Libp2pDiscovery \<Rightarrow> DiscWork \<times> Libp2pDiscovery" where
  "probe_peer lib env pid wd =
     (let (w, d) = wd in
      if map_get (dw_caps w) (lp_string lib pid) \<noteq> None then (w, d)
      else if \<not> shouldQuery (de_queryNow env pid) pid d then (w, d)
      else let w = w\<lparr>dw_ops := dw_ops w @ [Query pid]\<rparr> in
        case de_queryCapability env pid of
          Inl e \<Rightarrow> (w, markQueryFailure (de_failNow env pid) pid d)
        | Inr cap \<Rightarrow>
            let d = markQuerySuccess pid d;
                cap = with_gateway lib pid cap
            in (note_cap (PeerID cap) cap w, d))"

definition start_work :: "DiscEnv \<Rightarrow> DiscWork" where
  "start_work env = \<lparr>dw_peers = fold (\<lambda>p. map_put p ()) (de_peers env) [], dw_caps = [], dw_ops = []\<rparr>"

definition gather ::
  "Libp2pLib \<Rightarrow> entry_order \<Rightarrow> DiscEnv \<Rightarrow> Libp2pNode \<Rightarrow> Libp2pDiscovery \<Rightarrow> DiscWork \<times> Libp2pNode" where
  "gather lib rngH env node d =
     (let w = start_work env;
          found = DiscoverPeers (de_findPeers env) (ld_rendezvous d) 32 node;
          w = fold (meet_found (ln_ID node)) found w;
          (heartbeats, node) = Heartbeats rngH (de_now env) node;
          w = fold (absorb_heartbeat lib) heartbeats w
      in (fold (ask_bootstrap lib env (ln_ID node)) (BootstrapPeers node) w, node))"

definition Libp2pDiscovery_List ::
  "Libp2pLib \<Rightarrow> doc_sorter \<Rightarrow> entry_order \<Rightarrow> ((string \<times> unit) list \<Rightarrow> (string \<times> unit) list) \<Rightarrow> doc_order \<Rightarrow> DiscEnv
    \<Rightarrow> Libp2pNode \<times> Libp2pDiscovery
    \<Rightarrow> (go_error + CapabilityDocument list) \<times> net_op list \<times> Libp2pNode \<times> Libp2pDiscovery" where
  "Libp2pDiscovery_List lib srt rngH rngP rngC env nd =
     (let (node, d) = nd;
          (w, node) = gather lib rngH env node d;
          (w, d) = fold (probe_peer lib env) (map fst (rngP (dw_peers w))) (w, d);
          out = srt (\<lambda>a b. PeerID a < PeerID b) (map snd (rngC (dw_caps w)))
      in (if out = [] then Inl ErrNoPeersDiscovered else Inr out, dw_ops w, node, d))"

interpretation libp2p_disc: discovery "\<lambda>nd. fst (Libp2pDiscovery_List lib srt rngH rngP rngC env nd)"
  by unfold_locales (auto simp: Libp2pDiscovery_List_def Let_def split: if_splits prod.splits)

section \<open>What HTTP discovery finds\<close>

text \<open>HTTP discovery returns the documents of exactly the gateways that answered with one, each as
  often as it is configured, in the order they finished; it fails when none did.\<close>

theorem http_discovery_is_who_answered:
  assumes "permuting finish"
  shows "case HTTPDiscovery_List env unmarshal finish d of
     Inr caps \<Rightarrow> mset caps = mset (map projr (filter (\<lambda>r. \<not> isl r) (map (http_probe env unmarshal) (hd_gatewayURLs d))))
   | Inl e \<Rightarrow> e = ErrNoPeersDiscovered \<and> (\<forall>u\<in>set (hd_gatewayURLs d). isl (http_probe env unmarshal u))"
proof -
  let ?rs = "map (http_probe env unmarshal) (hd_gatewayURLs d)"
  have m: "mset (filter (\<lambda>r. \<not> isl r) (finish ?rs)) = mset (filter (\<lambda>r. \<not> isl r) ?rs)"
    using permuting_mset[OF assms] by (simp add: mset_filter)
  have "filter (\<lambda>r. \<not> isl r) (finish ?rs) = [] \<longleftrightarrow> (\<forall>u\<in>set (hd_gatewayURLs d). isl (http_probe env unmarshal u))"
    using permuting_set[OF assms, of ?rs] by (auto simp: filter_empty_conv)
  then show ?thesis using m by (auto simp: HTTPDiscovery_List_def Let_def)
qed

lemma http_discovery_is_who_answered_witness:
  "\<exists>caps. HTTPDiscovery_List
       \<lparr>url_error = (\<lambda>_. None), round_trip = (\<lambda>q. if hq_URL q = ''A/capabilities'' then Inr \<lparr>hr_StatusCode = 200, hr_ContentType = [], hr_Body = []\<rparr> else Inl ErrNoPeers)\<rparr>
       (\<lambda>b. Inr zero_doc) rev \<lparr>hd_gatewayURLs = [''A'', ''B'']\<rparr> = Inr caps
     \<and> mset caps = {#zero_doc\<lparr>GatewayURL := ''A''\<rparr>#}"
proof -
  define env where "env = \<lparr>url_error = (\<lambda>_. None), round_trip = (\<lambda>q. if hq_URL q = ''A/capabilities'' then Inr \<lparr>hr_StatusCode = 200, hr_ContentType = [], hr_Body = []\<rparr> else Inl ErrNoPeers)\<rparr>"
  have p: "http_probe env (\<lambda>b. Inr zero_doc) ''A'' = Inr (zero_doc\<lparr>GatewayURL := ''A''\<rparr>)" "isl (http_probe env (\<lambda>b. Inr zero_doc) ''B'')"
    by (simp_all add: http_probe_def env_def zero_doc_def)
  have "permuting rev" by (simp add: permuting_def)
  then show ?thesis
    using http_discovery_is_who_answered[where finish = rev and env = env and unmarshal = "\<lambda>b. Inr zero_doc"
        and d = "\<lparr>hd_gatewayURLs = [''A'', ''B'']\<rparr>"] p
    unfolding env_def[symmetric] by (cases "HTTPDiscovery_List env (\<lambda>b. Inr zero_doc) rev \<lparr>hd_gatewayURLs = [''A'', ''B'']\<rparr>") auto
qed

lemma http_probe_gateway: "http_probe env unmarshal base = Inr cap \<Longrightarrow> base \<noteq> [] \<Longrightarrow> GatewayURL cap \<noteq> []"
  by (auto simp: http_probe_def Let_def split: option.splits sum.splits if_splits)

lemma clean_urls_trimmed: "u \<in> set (clean_urls us) \<Longrightarrow> u \<noteq> [] \<and> trim_space u = u"
  by (induction us) (auto simp: Let_def split: if_splits)

section \<open>What the LAN listing returns\<close>

definition lan_fresh :: "gtime \<Rightarrow> duration \<Rightarrow> lanEntry \<Rightarrow> bool" where
  "lan_fresh now ttl e = (\<not> time_sub now (le_lastSeen e) > ttl)"

lemma lan_sweep_eq:
  "lan_sweep ttl now es out m =
     (out @ map (\<lambda>(k, v). le_cap v) (filter (\<lambda>(k, v). lan_fresh now ttl v) es),
      fold (\<lambda>(k, v) m. if \<not> lan_fresh now ttl v then map_del k m else m) es m)"
  by (induction es arbitrary: out m) (auto simp: lan_fresh_def)

lemma LANDiscovery_spec:
  assumes "permuting rng" "map_wf (lan_entries d)" "LANDiscovery_List rng now d = (r, d')"
  shows "map_wf (lan_entries d')"
    "map_get (lan_entries d') k = (case map_get (lan_entries d) k of
       Some e \<Rightarrow> if lan_fresh now (lan_ttl d) e then Some e else None | None \<Rightarrow> None)"
    "case r of
       Inr caps \<Rightarrow> set caps = {le_cap e |k e. map_get (lan_entries d') k = Some e}
     | Inl e \<Rightarrow> lan_entries d' = []"
proof -
  have m: "lan_entries d' = fold (\<lambda>(k, v) m. if \<not> lan_fresh now (lan_ttl d) v then map_del k m else m)
      (rng (lan_entries d)) (lan_entries d)"
    using assms(3) by (auto simp: LANDiscovery_List_def lan_sweep_eq)
  show wf: "map_wf (lan_entries d')" unfolding m by (rule gm.wf_fold_del) (rule assms(2))
  have get: "map_get (lan_entries d') k = (case map_get (lan_entries d) k of
       Some e \<Rightarrow> if lan_fresh now (lan_ttl d) e then Some e else None | None \<Rightarrow> None)" for k
    unfolding m using gm.get_prune[OF assms(2), of "rng (lan_entries d)" "\<lambda>v. \<not> lan_fresh now (lan_ttl d) v" k]
      permuting_set[OF assms(1), of "lan_entries d"]
    by (auto split: option.splits)
  then show "map_get (lan_entries d') k = (case map_get (lan_entries d) k of
       Some e \<Rightarrow> if lan_fresh now (lan_ttl d) e then Some e else None | None \<Rightarrow> None)" .
  have live: "(k, e) \<in> set (filter (\<lambda>(k, v). lan_fresh now (lan_ttl d) v) (rng (lan_entries d)))
      \<longleftrightarrow> map_get (lan_entries d') k = Some e" for k e
    using gm.entries_iff[OF assms(2)] permuting_set[OF assms(1), of "lan_entries d"]
    by (auto simp: get split: option.splits if_splits)
  let ?out = "map (\<lambda>(k, v). le_cap v) (filter (\<lambda>(k, v). lan_fresh now (lan_ttl d) v) (rng (lan_entries d)))"
  have out: "set ?out = {le_cap e |k e. map_get (lan_entries d') k = Some e}"
  proof (intro equalityI subsetI)
    fix c assume "c \<in> set ?out"
    then obtain k e where "(k, e) \<in> set (filter (\<lambda>(k, v). lan_fresh now (lan_ttl d) v) (rng (lan_entries d)))" "c = le_cap e"
      by auto
    then show "c \<in> {le_cap e |k e. map_get (lan_entries d') k = Some e}" using live by blast
  next
    fix c assume "c \<in> {le_cap e |k e. map_get (lan_entries d') k = Some e}"
    then obtain k e where "(k, e) \<in> set (filter (\<lambda>(k, v). lan_fresh now (lan_ttl d) v) (rng (lan_entries d)))" "c = le_cap e"
      using live by blast
    then show "c \<in> set ?out" by force
  qed
  show "case r of
       Inr caps \<Rightarrow> set caps = {le_cap e |k e. map_get (lan_entries d') k = Some e}
     | Inl e \<Rightarrow> lan_entries d' = []"
  proof (cases "?out = []")
    case True
    then have "\<not> map_get (lan_entries d') k = Some e" for k e using out by force
    then have "map_get (lan_entries d') = Map.empty" by fastforce
    then have "lan_entries d' = []" by (simp only: map_of_eq_empty_iff)
    then show ?thesis using assms(3) True by (auto simp: LANDiscovery_List_def lan_sweep_eq)
  next
    case False
    then have "r = Inr ?out" using assms(3) by (auto simp: LANDiscovery_List_def lan_sweep_eq split: if_splits)
    then show ?thesis using out by (simp only: sum.case)
  qed
qed

text \<open>A gateway on the sender's own loopback, or none, is replaced by the address it was heard from.\<close>

lemma normalizeCapability_remote:
  assumes "GatewayURL cap = []"
  shows "GatewayURL (normalizeCapability parse ip cap) = ''http://'' @ JoinHostPort ip ''7777''"
  using assms by (simp add: normalizeCapability_def)

lemma normalizeCapability_frame: "PeerID (normalizeCapability parse ip cap) = PeerID cap"
  "Models (normalizeCapability parse ip cap) = Models cap"
  by (auto simp: normalizeCapability_def Let_def split: option.splits)

section \<open>Merging sources\<close>

definition answered :: "(go_error + CapabilityDocument list) list \<Rightarrow> CapabilityDocument list" where
  "answered rs = concat (map projr (filter (\<lambda>r. \<not> isl r) rs))"

lemma merge_sources_eq:
  "merge_sources rs ok m = (ok \<or> (\<exists>r\<in>set rs. \<not> isl r), merge_docs (answered rs) m)"
  by (induction rs arbitrary: ok m) (auto simp: answered_def merge_docs_def split: sum.splits)

text \<open>The last document with a key is the one kept.\<close>

definition last_with :: "string \<Rightarrow> CapabilityDocument list \<Rightarrow> CapabilityDocument option" where
  "last_with k cs = find (\<lambda>c. doc_key c = k) (rev cs)"

lemma merge_docs_get: "map_get (merge_docs cs []) k = last_with k cs"
  using gm.get_fold_put[of doc_key "\<lambda>c. c" cs "[]" k] by (auto simp: merge_docs_def last_with_def split: option.splits)

lemma merge_docs_wf: "map_wf (merge_docs cs [])"
  unfolding merge_docs_def by (intro gm.wf_fold_put gm.wf_empty)

text \<open>The merged result of several sources has one document per peer and gateway, the last one any
  source gave, and there is a result unless no source gave any document.\<close>

theorem sources_merge_by_key:
  assumes "permuting rng"
  shows "case MultiDiscovery_List rng answers of
     Inr out \<Rightarrow> set out = {c. last_with (doc_key c) (answered answers) = Some c} \<and> distinct (map doc_key out)
   | Inl e \<Rightarrow> answered answers = []"
proof -
  define m where "m = merge_docs (answered answers) []"
  have wf: "map_wf m" unfolding m_def by (rule merge_docs_wf)
  have get: "map_get m k = last_with k (answered answers)" for k unfolding m_def by (rule merge_docs_get)
  have key: "map_get m k = Some c \<Longrightarrow> doc_key c = k" for k c
    by (auto simp: get last_with_def find_Some_iff)
  have ent: "(k, c) \<in> set (rng m) \<longleftrightarrow> map_get m k = Some c" for k c
    using gm.entries_iff[OF wf] permuting_set[OF assms] by auto
  have so: "set (map snd (rng m)) = {c. last_with (doc_key c) (answered answers) = Some c}"
  proof (intro equalityI subsetI)
    fix c assume "c \<in> set (map snd (rng m))"
    then obtain k where "map_get m k = Some c" using ent by auto
    then show "c \<in> {c. last_with (doc_key c) (answered answers) = Some c}" using key[of k c] get by simp
  next
    fix c assume "c \<in> {c. last_with (doc_key c) (answered answers) = Some c}"
    then have "(doc_key c, c) \<in> set (rng m)" using ent get by simp
    then show "c \<in> set (map snd (rng m))" by force
  qed
  have "map doc_key (map snd (rng m)) = map fst (rng m)" using ent key by auto
  moreover have "distinct (map fst (rng m))"
    using wf permuting_mset[OF assms, of m] unfolding map_wf_def by (metis mset_eq_imp_distinct_iff mset_map)
  ultimately have d: "distinct (map doc_key (map snd (rng m)))" by (simp only:)
  have nil: "m = [] \<longleftrightarrow> answered answers = []"
  proof
    assume "m = []"
    then have none: "last_with k (answered answers) = None" for k using get[of k] by simp
    show "answered answers = []"
    proof (rule ccontr)
      assume "answered answers \<noteq> []"
      then obtain c where "c \<in> set (answered answers)" by (cases "answered answers") auto
      then show False using none[of "doc_key c"] by (auto simp: last_with_def find_None_iff)
    qed
  qed (simp add: m_def merge_docs_def)
  have none_ok: "\<not> (\<exists>r\<in>set answers. \<not> isl r) \<Longrightarrow> answered answers = []"
    by (simp add: answered_def filter_empty_conv)
  show ?thesis
    unfolding MultiDiscovery_List_def merge_sources_eq Let_def split m_def [symmetric]
    using nil none_ok so d by auto
qed

lemma last_with_mem: "last_with k cs = Some c \<Longrightarrow> c \<in> set cs \<and> doc_key c = k"
  by (auto simp: last_with_def find_Some_iff) (metis length_rev nth_mem set_rev)

lemma last_with_exists: "c \<in> set cs \<Longrightarrow> \<exists>c'. last_with (doc_key c) cs = Some c'"
  by (cases "last_with (doc_key c) cs") (auto simp: last_with_def find_None_iff)

interpretation multi_disc: discovery "MultiDiscovery_List (\<lambda>xs. xs)"
proof
  fix e caps
  assume "MultiDiscovery_List (\<lambda>xs. xs) e = Inr caps"
  then show "caps \<noteq> []" by (auto simp: MultiDiscovery_List_def Let_def split: prod.splits if_splits)
qed

text \<open>Two documents share a key only when identity and address agree, as long as no identity
  contains the separator.\<close>

lemma doc_key_inject:
  assumes "CHR ''|'' \<notin> set (PeerID a)" "CHR ''|'' \<notin> set (PeerID b)" "doc_key a = doc_key b"
  shows "PeerID a = PeerID b \<and> GatewayURL a = GatewayURL b"
proof -
  have "split_on (CHR ''|'') (PeerID a @ CHR ''|'' # GatewayURL a) = split_on (CHR ''|'') (PeerID b @ CHR ''|'' # GatewayURL b)"
    using assms(3) by (simp add: doc_key_def)
  then have "PeerID a = PeerID b" by (simp add: split_on_append_sep[OF assms(1)] split_on_append_sep[OF assms(2)])
  then show ?thesis using assms(3) by (simp add: doc_key_def)
qed

section \<open>The libp2p listing\<close>

text \<open>The documents are filed under the identity they state.\<close>

definition filed :: "DiscWork \<Rightarrow> bool" where
  "filed w = (map_wf (dw_caps w) \<and> (\<forall>k c. map_get (dw_caps w) k = Some c \<longrightarrow> PeerID c = k))"

definition known :: "DiscWork \<Rightarrow> string set" where
  "known w = dom (map_get (dw_caps w))"

lemma note_frame [simp]:
  "dw_caps (note_peer p w) = dw_caps w" "dw_caps (note_ops ops w) = dw_caps w"
  "dw_peers (note_ops ops w) = dw_peers w" "dw_peers (note_cap k c w) = dw_peers w"
  "dw_ops (note_peer p w) = dw_ops w" "dw_ops (note_cap k c w) = dw_ops w"
  "dw_ops (note_ops ops w) = dw_ops w @ map Store ops"
  "dw_caps (note_cap k c w) = map_put k c (dw_caps w)" "dw_peers (note_peer p w) = map_put p () (dw_peers w)"
  "dw_caps (note_dial ai w) = dw_caps w" "dw_peers (note_dial ai w) = dw_peers w"
  "dw_ops (note_dial ai w) = dw_ops w @ [Store (AddAddrs (ai_ID ai) (ai_Addrs ai) (60 * second)), Dial (ai_ID ai)]"
  by (simp_all add: note_peer_def note_ops_def note_cap_def note_dial_def)

lemma filed_cong: "dw_caps w = dw_caps w' \<Longrightarrow> filed w = filed w'"
  by (simp only: filed_def)

lemma filed_frame [simp]:
  "filed (note_peer p w) = filed w" "filed (note_ops ops w) = filed w" "filed (w\<lparr>dw_ops := qs\<rparr>) = filed w"
  "filed (note_dial ai w) = filed w"
  "known (note_peer p w) = known w" "known (note_ops ops w) = known w" "known (w\<lparr>dw_ops := qs\<rparr>) = known w"
  "known (note_dial ai w) = known w"
  by (rule filed_cong, simp)+ (simp_all add: known_def)

lemma filed_note:
  assumes "filed w" shows "filed (note_cap (PeerID c) c w)"
proof -
  have "map_wf (dw_caps w)" and k: "\<And>k c. map_get (dw_caps w) k = Some c \<Longrightarrow> PeerID c = k"
    using assms unfolding filed_def by blast+
  then have "map_wf (dw_caps (note_cap (PeerID c) c w))" by (simp add: gm.wf_put)
  moreover have "PeerID d = k" if "map_get (dw_caps (note_cap (PeerID c) c w)) k = Some d" for k d
    using that k[of k d] by (auto simp: gm.get_put split: if_splits)
  ultimately show ?thesis unfolding filed_def by blast
qed

lemma known_note: "known (note_cap k c w) = insert k (known w)"
  by (auto simp: known_def gm.get_put split: if_splits)

text \<open>A heartbeat or registry document ends up filed; nothing filed is lost; no query is sent.\<close>

definition queries :: "DiscWork \<Rightarrow> string set" where
  "queries w = {pid. Query pid \<in> set (dw_ops w)}"

definition grows :: "DiscWork \<Rightarrow> DiscWork \<Rightarrow> bool" where
  "grows w w' = ((filed w \<longrightarrow> filed w') \<and> known w \<subseteq> known w' \<and> queries w' = queries w
     \<and> (map_wf (dw_peers w) \<longrightarrow> map_wf (dw_peers w')))"

lemma grows_refl [simp]: "grows w w"
  by (simp add: grows_def)

lemma grows_trans: "grows a b \<Longrightarrow> grows b c \<Longrightarrow> grows a c"
  by (auto simp: grows_def)

lemma grows_into:
  "grows w v \<Longrightarrow> grows w (note_peer p v)" "grows w v \<Longrightarrow> grows w (note_ops ops v)"
  "grows w v \<Longrightarrow> grows w (note_cap (PeerID c) c v)"
  "grows w v \<Longrightarrow> grows w (if b then note_peer p v else v)" "grows w v \<Longrightarrow> grows w (note_dial ai v)"
proof -
  show p: "grows w v \<Longrightarrow> grows w (note_peer p v)" for p
    by (simp add: grows_def queries_def gm.wf_put)
  show "grows w v \<Longrightarrow> grows w (note_ops ops v)"
    by (auto simp: grows_def queries_def)
  show "grows w v \<Longrightarrow> grows w (note_dial ai v)"
    by (auto simp: grows_def queries_def)
  show "grows w v \<Longrightarrow> grows w (note_cap (PeerID c) c v)"
    using filed_note[of v c] known_note[of "PeerID c" c v] by (auto simp: grows_def queries_def)
  show "grows w v \<Longrightarrow> grows w (if b then note_peer p v else v)" using p by simp
qed

lemma grows_fold: "(\<And>x w. grows w (f x w)) \<Longrightarrow> grows w (fold f xs w)"
  by (induction xs arbitrary: w) (auto intro: grows_trans)

lemma meet_found_grows: "grows w (meet_found self ai w)"
  unfolding meet_found_def by (simp add: grows_into)

lemma absorb_heartbeat_split:
  "\<exists>w1. grows w w1 \<and> absorb_heartbeat lib hb w = note_cap (PeerID hb) hb w1"
proof -
  obtain n ops where a: "AddPeerAddrs lib (PeerID hb) (prioritizeRelayAddrs (AnnounceAddrs hb)) (60 * second) = (n, ops)" by force
  show ?thesis
    unfolding absorb_heartbeat_def Let_def a split
    by (intro exI conjI refl) (auto intro!: grows_into split: sum.splits)
qed

lemma absorb_heartbeat_grows: "grows w (absorb_heartbeat lib hb w)"
  "PeerID hb \<in> known (absorb_heartbeat lib hb w)"
  using absorb_heartbeat_split[of w lib hb] grows_into(3) by (auto simp: known_note)

lemma absorb_registry_grows: "grows w (absorb_registry lib self bp c w)"
  unfolding absorb_registry_def Let_def
  by (auto intro!: grows_into split: sum.splits)

lemma absorb_registry_known:
  "PeerID c \<noteq> [] \<Longrightarrow> PeerID c \<noteq> lp_string lib self \<Longrightarrow> PeerID c \<in> known (absorb_registry lib self bp c w)"
  by (auto simp: absorb_registry_def Let_def known_note)

lemma ask_bootstrap_grows: "grows w (ask_bootstrap lib env self bp w)"
proof -
  have o': "grows w (note_dial bp w)" by (simp add: grows_into)
  have "grows w (fold (absorb_registry lib self bp) es (note_dial bp w))" for es
    by (rule grows_trans[OF o']) (rule grows_fold, rule absorb_registry_grows)
  then show ?thesis
    using o' by (auto simp: ask_bootstrap_def Let_def split: option.splits sum.splits)
qed

lemma fold_known:
  assumes "\<And>x w. grows w (f x w)" "\<And>w. k \<in> known (f x w)" "x \<in> set xs" shows "k \<in> known (fold f xs w)"
  using assms(3)
proof (induction xs arbitrary: w)
  case (Cons y ys)
  show ?case
  proof (cases "x = y")
    case True
    have "known (f x w) \<subseteq> known (fold f ys (f x w))" using grows_fold[of f "f x w" ys] assms(1) by (simp add: grows_def)
    then show ?thesis using True assms(2) by auto
  qed (use Cons in auto)
qed simp

lemma start_work_filed: "filed (start_work env)" "map_wf (dw_peers (start_work env))" "queries (start_work env) = {}"
  using gm.wf_fold_put[OF gm.wf_empty, of "\<lambda>p. p" "\<lambda>_. ()" "de_peers env"]
  unfolding start_work_def filed_def queries_def by (simp_all add: gm.wf_empty)

text \<open>Whose documents are filed, exactly: the heartbeats', those of the registries that answered, and
  those of the queried peers that answered.\<close>

definition registry_ids :: "Libp2pLib \<Rightarrow> DiscEnv \<Rightarrow> string \<Rightarrow> AddrInfo \<Rightarrow> string set" where
  "registry_ids lib env self bp =
     (if ai_ID bp = [] \<or> ai_ID bp = self \<or> de_connect env bp \<noteq> None then {}
      else case de_queryRegistry env (ai_ID bp) of
          Inl e \<Rightarrow> {}
        | Inr entries \<Rightarrow> {PeerID c |c. c \<in> set entries \<and> PeerID c \<noteq> [] \<and> PeerID c \<noteq> lp_string lib self})"

definition answered_ids :: "DiscEnv \<Rightarrow> string set \<Rightarrow> string set" where
  "answered_ids env Q = {PeerID c |q c. q \<in> Q \<and> de_queryCapability env q = Inr c}"

lemma answered_ids_simps: "answered_ids env {} = {}" "answered_ids env (P \<union> Q) = answered_ids env P \<union> answered_ids env Q"
  by (auto simp: answered_ids_def)

lemma known_fold:
  assumes "\<And>x w. known (f x w) = known w \<union> g x" shows "known (fold f xs w) = known w \<union> (\<Union>x\<in>set xs. g x)"
  by (induction xs arbitrary: w) (auto simp: assms)

lemma known_absorb:
  "known (meet_found self ai w) = known w"
  "known (absorb_heartbeat lib hb w) = known w \<union> {PeerID hb}"
  "known (absorb_registry lib self bp c w) =
     known w \<union> (if PeerID c = [] \<or> PeerID c = lp_string lib self then {} else {PeerID c})"
  by (auto simp: meet_found_def absorb_heartbeat_def absorb_registry_def Let_def known_note split: sum.splits prod.splits)

lemma known_ask: "known (ask_bootstrap lib env self bp w) = known w \<union> registry_ids lib env self bp"
proof -
  have "(\<Union>c\<in>set es. if PeerID c = [] \<or> PeerID c = lp_string lib self then {} else {PeerID c})
    = {PeerID c |c. c \<in> set es \<and> PeerID c \<noteq> [] \<and> PeerID c \<noteq> lp_string lib self}" for es
    by auto
  then show ?thesis
    by (auto simp: ask_bootstrap_def registry_ids_def Let_def known_fold[OF known_absorb(3)] split: option.splits sum.splits)
qed

text \<open>Peers met are not forgotten.\<close>

definition met :: "DiscWork \<Rightarrow> string set" where
  "met w = dom (map_get (dw_peers w))"

lemma met_put: "met (note_peer p w) = insert p (met w)"
  by (auto simp: met_def gm.get_put split: if_splits)

lemma met_frame [simp]:
  "met (note_ops ops w) = met w" "met (note_cap k c w) = met w" "met (note_dial ai w) = met w"
  by (simp_all add: met_def)

lemma met_grows:
  "met w \<subseteq> met (meet_found self ai w)" "met w \<subseteq> met (absorb_heartbeat lib hb w)" "met w \<subseteq> met (absorb_registry lib self bp c w)"
  by (auto simp: meet_found_def absorb_heartbeat_def absorb_registry_def Let_def met_put split: sum.splits prod.splits)

lemma met_fold: "(\<And>x w. met w \<subseteq> met (f x w)) \<Longrightarrow> met w \<subseteq> met (fold f xs w)"
proof (induction xs arbitrary: w)
  case (Cons x xs)
  have "met w \<subseteq> met (f x w)" by (rule Cons.prems)
  also have "\<dots> \<subseteq> met (fold f xs (f x w))" by (rule Cons.IH) (rule Cons.prems)
  finally show ?case by simp
qed simp

lemma met_ask: "met w \<subseteq> met (ask_bootstrap lib env self bp w)"
proof -
  have "met w \<subseteq> met (fold (absorb_registry lib self bp) es (note_dial bp w))" for es
    using met_fold[of "absorb_registry lib self bp" "note_dial bp w" es] met_grows(3) by simp
  then show ?thesis by (auto simp: ask_bootstrap_def Let_def split: option.splits sum.splits)
qed

lemma gather_exact:
  assumes "gather lib rngH env node d = (w, node')"
  shows "known w = PeerID ` set (fst (Heartbeats rngH (de_now env) node)) \<union> (\<Union>bp\<in>set (BootstrapPeers node'). registry_ids lib env (ln_ID node') bp)"
    "set (de_peers env) \<subseteq> met w"
proof -
  define w1 where "w1 = fold (meet_found (ln_ID node)) (DiscoverPeers (de_findPeers env) (ld_rendezvous d) 32 node) (start_work env)"
  define hbs where "hbs = fst (Heartbeats rngH (de_now env) node)"
  have w: "w = fold (ask_bootstrap lib env (ln_ID node')) (BootstrapPeers node') (fold (absorb_heartbeat lib) hbs w1)"
    using assms by (auto simp: gather_def Let_def w1_def hbs_def split: prod.splits)
  have "known (start_work env) = {}" by (simp add: known_def start_work_def)
  then have "known w1 = {}"
    unfolding w1_def by (subst known_fold[where g = "\<lambda>_. {}"]) (simp_all add: known_absorb)
  then show "known w = PeerID ` set (fst (Heartbeats rngH (de_now env) node)) \<union> (\<Union>bp\<in>set (BootstrapPeers node'). registry_ids lib env (ln_ID node') bp)"
    unfolding w known_fold[OF known_ask] known_fold[OF known_absorb(2)] hbs_def by auto
  have "met (fold (\<lambda>p. note_peer p) ps v) = set ps \<union> met v" for ps v
    by (induction ps arbitrary: v) (auto simp: met_put)
  moreover have "dw_peers (fold (\<lambda>p. note_peer p) ps v) = fold (\<lambda>p. map_put p ()) ps (dw_peers v)" for ps v
    by (induction ps arbitrary: v) auto
  ultimately have "met (start_work env) = set (de_peers env)"
    unfolding met_def by (metis (no_types) DiscWork.select_convs(1) dom_eq_empty_conv gm.get_empty start_work_def sup_bot_right)
  moreover have "met (start_work env) \<subseteq> met w"
    unfolding w w1_def
    by (rule subset_trans[OF met_fold subset_trans[OF met_fold met_fold]]) (rule met_grows met_ask)+
  ultimately show "set (de_peers env) \<subseteq> met w" by simp
qed

lemma gather_spec:
  assumes "gather lib rngH env node d = (w, node')"
  shows "filed w" "map_wf (dw_peers w)" "queries w = {}"
    "\<And>hb. hb \<in> set (fst (Heartbeats rngH (de_now env) node)) \<Longrightarrow> PeerID hb \<in> known w"
proof -
  define w1 where "w1 = fold (meet_found (ln_ID node)) (DiscoverPeers (de_findPeers env) (ld_rendezvous d) 32 node) (start_work env)"
  define hbs where "hbs = fst (Heartbeats rngH (de_now env) node)"
  define w2 where "w2 = fold (absorb_heartbeat lib) hbs w1"
  obtain n1 where n1: "Heartbeats rngH (de_now env) node = (hbs, n1)" by (metis hbs_def prod.collapse)
  have w: "w = fold (ask_bootstrap lib env (ln_ID n1)) (BootstrapPeers n1) w2"
    using assms by (auto simp: gather_def Let_def n1 w2_def w1_def)
  have g1: "grows (start_work env) w1" unfolding w1_def by (rule grows_fold) (rule meet_found_grows)
  have g2: "grows w1 w2" unfolding w2_def by (rule grows_fold) (rule absorb_heartbeat_grows)
  have g3: "grows w2 w" using w by (auto intro: grows_fold ask_bootstrap_grows)
  have "grows (start_work env) w" using g1 g2 g3 by (blast intro: grows_trans)
  then show "filed w" "map_wf (dw_peers w)" "queries w = {}" using start_work_filed[of env] by (auto simp: grows_def)
  fix hb assume "hb \<in> set (fst (Heartbeats rngH (de_now env) node))"
  then have "PeerID hb \<in> known w2"
    unfolding w2_def hbs_def by (intro fold_known) (auto simp: absorb_heartbeat_grows)
  then show "PeerID hb \<in> known w" using g3 by (auto simp: grows_def)
qed

text \<open>The probes: only peers without a document and outside their back-off, each at most once; a
  failure starts a back-off of 30 seconds, a success ends it.\<close>

lemma with_gateway_id [simp]: "PeerID (with_gateway lib pid c) = PeerID c"
  by (simp add: with_gateway_def)

lemma probe_peer_cases:
  assumes "probe_peer lib env pid (w, d) = (w', d')"
  obtains (skipped) "w' = w" "d' = d" "map_get (dw_caps w) (lp_string lib pid) \<noteq> None \<or> \<not> shouldQuery (de_queryNow env pid) pid d"
  | (failed) e where "map_get (dw_caps w) (lp_string lib pid) = None" "shouldQuery (de_queryNow env pid) pid d"
      "de_queryCapability env pid = Inl e" "w' = w\<lparr>dw_ops := dw_ops w @ [Query pid]\<rparr>"
      "d' = markQueryFailure (de_failNow env pid) pid d"
  | (answered) cap where "map_get (dw_caps w) (lp_string lib pid) = None" "shouldQuery (de_queryNow env pid) pid d"
      "de_queryCapability env pid = Inr cap" "d' = markQuerySuccess pid d"
      "w' = note_cap (PeerID cap) (with_gateway lib pid cap) (w\<lparr>dw_ops := dw_ops w @ [Query pid]\<rparr>)"
proof -
  show thesis
  proof (cases "map_get (dw_caps w) (lp_string lib pid) \<noteq> None \<or> \<not> shouldQuery (de_queryNow env pid) pid d")
    case True
    then show thesis using assms by (intro skipped) (auto simp: probe_peer_def Let_def split: if_splits)
  next
    case False
    show thesis
    proof (cases "de_queryCapability env pid")
      case (Inl e)
      then show thesis using assms False by (intro failed) (auto simp: probe_peer_def Let_def)
    next
      case (Inr cap)
      then show thesis using assms False by (intro answered) (auto simp: probe_peer_def Let_def)
    qed
  qed
qed

lemma probe_peer_step_all:
  assumes "probe_peer lib env pid (w, d) = (w', d')"
  shows "(filed w \<longrightarrow> filed w') \<and> known w \<subseteq> known w'
    \<and> queries w' \<subseteq> queries w \<union> (if lp_string lib pid \<notin> known w \<and> shouldQuery (de_queryNow env pid) pid d then {pid} else {})
    \<and> (\<forall>q. q \<noteq> pid \<longrightarrow> map_get (ld_retryAfter d') q = map_get (ld_retryAfter d) q)
    \<and> (pid \<in> queries w' - queries w \<longrightarrow>
         (\<forall>e. de_queryCapability env pid = Inl e \<longrightarrow>
            map_get (ld_retryAfter d') pid = Some (time_add (de_failNow env pid) (30 * second)))
       \<and> (\<forall>c. de_queryCapability env pid = Inr c \<longrightarrow> map_get (ld_retryAfter d') pid = None))"
  using assms
proof (cases rule: probe_peer_cases)
  case skipped
  then show ?thesis by auto
next
  case (failed e)
  then show ?thesis by (auto simp: known_def queries_def markQueryFailure_def gm.get_put domIff)
next
  case (answered cap)
  note w' = answered(5)
  have "filed w \<longrightarrow> filed w'"
    using filed_note[of "w\<lparr>dw_ops := dw_ops w @ [Query pid]\<rparr>" "with_gateway lib pid cap"] by (simp add: w')
  moreover have "known w' = insert (PeerID cap) (known w)" by (simp add: w' known_note)
  moreover have "queries w' = insert pid (queries w)" by (auto simp: w' queries_def)
  ultimately show ?thesis using answered(1-4) by (auto simp: markQuerySuccess_def gm.get_del known_def domIff)
qed

lemma probe_peer_step:
  assumes "probe_peer lib env pid (w, d) = (w', d')"
  shows "filed w \<longrightarrow> filed w'" "known w \<subseteq> known w'"
    "queries w' \<subseteq> queries w \<union> (if lp_string lib pid \<notin> known w \<and> shouldQuery (de_queryNow env pid) pid d then {pid} else {})"
    "q \<noteq> pid \<Longrightarrow> map_get (ld_retryAfter d') q = map_get (ld_retryAfter d) q"
    "pid \<in> queries w' - queries w \<Longrightarrow> de_queryCapability env pid = Inl e \<Longrightarrow>
       map_get (ld_retryAfter d') pid = Some (time_add (de_failNow env pid) (30 * second))"
    "pid \<in> queries w' - queries w \<Longrightarrow> de_queryCapability env pid = Inr c \<Longrightarrow> map_get (ld_retryAfter d') pid = None"
  using probe_peer_step_all[OF assms] by blast+

lemma shouldQuery_cong: "map_get (ld_retryAfter d) q = map_get (ld_retryAfter d') q \<Longrightarrow> shouldQuery t q d = shouldQuery t q d'"
  by (simp add: shouldQuery_def)

lemma probe_fold:
  assumes "fold (probe_peer lib env) pids (w, d) = (w', d')" "distinct pids"
  shows "(filed w \<longrightarrow> filed w') \<and> known w \<subseteq> known w'
    \<and> (\<forall>q \<in> queries w' - queries w. q \<in> set pids \<and> lp_string lib q \<notin> known w \<and> shouldQuery (de_queryNow env q) q d
         \<and> (\<forall>e. de_queryCapability env q = Inl e \<longrightarrow>
              map_get (ld_retryAfter d') q = Some (time_add (de_failNow env q) (30 * second)))
         \<and> (\<forall>c. de_queryCapability env q = Inr c \<longrightarrow> map_get (ld_retryAfter d') q = None))
    \<and> (\<forall>q. q \<notin> set pids \<longrightarrow> map_get (ld_retryAfter d') q = map_get (ld_retryAfter d) q)"
  using assms
proof (induction pids arbitrary: w d)
  case Nil
  then show ?case by simp
next
  case (Cons pid pids)
  obtain w1 d1 where s: "probe_peer lib env pid (w, d) = (w1, d1)" by force
  note st = probe_peer_step[OF s]
  have rest: "fold (probe_peer lib env) pids (w1, d1) = (w', d')" using Cons.prems(1) by (simp add: s)
  have dist: "distinct pids" "pid \<notin> set pids" using Cons.prems(2) by auto
  note IH = Cons.IH[OF rest dist(1)]
  have "q \<in> set (pid # pids) \<and> lp_string lib q \<notin> known w \<and> shouldQuery (de_queryNow env q) q d
         \<and> (\<forall>e. de_queryCapability env q = Inl e \<longrightarrow>
              map_get (ld_retryAfter d') q = Some (time_add (de_failNow env q) (30 * second)))
         \<and> (\<forall>c. de_queryCapability env q = Inr c \<longrightarrow> map_get (ld_retryAfter d') q = None)"
    if q: "q \<in> queries w' - queries w" for q
  proof (cases "q \<in> queries w1")
    case True
    then have "q = pid" "lp_string lib q \<notin> known w" "shouldQuery (de_queryNow env q) q d"
      using st(3) q by (auto split: if_splits)
    moreover have "map_get (ld_retryAfter d') pid = map_get (ld_retryAfter d1) pid" using IH dist(2) by blast
    ultimately show ?thesis using st(5,6) True q by auto
  next
    case False
    then have h: "q \<in> set pids \<and> lp_string lib q \<notin> known w1 \<and> shouldQuery (de_queryNow env q) q d1
         \<and> (\<forall>e. de_queryCapability env q = Inl e \<longrightarrow>
              map_get (ld_retryAfter d') q = Some (time_add (de_failNow env q) (30 * second)))
         \<and> (\<forall>c. de_queryCapability env q = Inr c \<longrightarrow> map_get (ld_retryAfter d') q = None)"
      using IH q by blast
    then have "q \<noteq> pid" using dist(2) by auto
    then have "shouldQuery (de_queryNow env q) q d" using h st(4)[of q] shouldQuery_cong by blast
    then show ?thesis using h st(2) by auto
  qed
  then show ?case using IH st(1,2) st(4) by auto
qed

text \<open>What the probes add, and that nobody is passed over.\<close>

lemma probe_peer_exact:
  assumes "probe_peer lib env pid (w, d) = (w', d')"
  shows "\<exists>Q. queries w' = queries w \<union> Q \<and> known w' = known w \<union> answered_ids env Q
    \<and> (pid \<in> Q \<or> lp_string lib pid \<in> known w \<or> \<not> shouldQuery (de_queryNow env pid) pid d)"
  using assms
proof (cases rule: probe_peer_cases)
  case skipped
  then show ?thesis by (intro exI[of _ "{}"]) (auto simp: answered_ids_simps known_def)
next
  case (failed e)
  then show ?thesis by (intro exI[of _ "{pid}"]) (auto simp: answered_ids_def queries_def known_def)
next
  case (answered cap)
  then show ?thesis by (intro exI[of _ "{pid}"]) (auto simp: answered_ids_def queries_def known_note)
qed

lemma probe_fold_exact:
  assumes "fold (probe_peer lib env) pids (w, d) = (w', d')" "distinct pids"
  shows "\<exists>Q. queries w' = queries w \<union> Q \<and> known w' = known w \<union> answered_ids env Q
    \<and> (\<forall>q\<in>set pids. q \<in> Q \<or> lp_string lib q \<in> known w' \<or> \<not> shouldQuery (de_queryNow env q) q d)"
  using assms
proof (induction pids arbitrary: w d)
  case Nil
  then show ?case by (intro exI[of _ "{}"]) (auto simp: answered_ids_simps)
next
  case (Cons pid pids)
  obtain w1 d1 where s: "probe_peer lib env pid (w, d) = (w1, d1)" by force
  have rest: "fold (probe_peer lib env) pids (w1, d1) = (w', d')" "distinct pids" using Cons.prems by (simp_all add: s)
  obtain P where P: "queries w1 = queries w \<union> P" "known w1 = known w \<union> answered_ids env P"
    "pid \<in> P \<or> lp_string lib pid \<in> known w \<or> \<not> shouldQuery (de_queryNow env pid) pid d"
    using probe_peer_exact[OF s] by blast
  obtain Q where Q: "queries w' = queries w1 \<union> Q" "known w' = known w1 \<union> answered_ids env Q"
    "\<forall>q\<in>set pids. q \<in> Q \<or> lp_string lib q \<in> known w' \<or> \<not> shouldQuery (de_queryNow env q) q d1"
    using Cons.IH[OF rest] by blast
  have "shouldQuery (de_queryNow env q) q d1 = shouldQuery (de_queryNow env q) q d" if "q \<in> set pids" for q
    using that Cons.prems(2) probe_peer_step(4)[OF s, of q] by (intro shouldQuery_cong) auto
  then show ?case
    using P Q by (intro exI[of _ "P \<union> Q"]) (auto simp: answered_ids_simps)
qed

lemma sorted_wrt_strict:
  fixes f :: "'a \<Rightarrow> 'b::linorder"
  shows "sorted_wrt (\<lambda>a b. \<not> f b < f a) xs \<Longrightarrow> distinct (map f xs) \<Longrightarrow> sorted_wrt (\<lambda>a b. f a < f b) xs"
  by (induction xs) (auto simp: not_less order.strict_iff_order)

lemma Libp2pDiscovery_spec:
  assumes srt: "slice_sort srt" and rng: "permuting rngP" "permuting rngC"
    and r: "Libp2pDiscovery_List lib srt rngH rngP rngC env (node, d) = (r, ops, node', d')"
  obtains w w' where "gather lib rngH env node d = (w, node')" "filed w'" "known w \<subseteq> known w'" "ops = dw_ops w'"
    "case r of Inr caps \<Rightarrow> caps \<noteq> [] \<and> sorted_wrt (\<lambda>a b. PeerID a < PeerID b) caps \<and> PeerID ` set caps = known w'
       | Inl e \<Rightarrow> e = ErrNoPeersDiscovered \<and> known w' = {}"
    "\<And>q. Query q \<in> set ops \<Longrightarrow> lp_string lib q \<notin> known w \<and> shouldQuery (de_queryNow env q) q d
       \<and> (\<forall>e. de_queryCapability env q = Inl e \<longrightarrow>
            map_get (ld_retryAfter d') q = Some (time_add (de_failNow env q) (30 * second)))
       \<and> (\<forall>c. de_queryCapability env q = Inr c \<longrightarrow> map_get (ld_retryAfter d') q = None)"
    "fold (probe_peer lib env) (map fst (rngP (dw_peers w))) (w, d) = (w', d')"
proof -
  obtain w n where g: "gather lib rngH env node d = (w, n)" by force
  obtain w' d1 where f: "fold (probe_peer lib env) (map fst (rngP (dw_peers w))) (w, d) = (w', d1)" by force
  let ?out = "srt (\<lambda>a b. PeerID a < PeerID b) (map snd (rngC (dw_caps w')))"
  have eq: "r = (if ?out = [] then Inl ErrNoPeersDiscovered else Inr ?out)" "ops = dw_ops w'" "node' = n" "d' = d1"
    using r by (simp_all add: Libp2pDiscovery_List_def Let_def g f)
  note gs = gather_spec[OF g]
  have dist: "distinct (map fst (rngP (dw_peers w)))"
    using gs(2) permuting_mset[OF rng(1), of "dw_peers w"] unfolding map_wf_def by (metis mset_eq_imp_distinct_iff mset_map)
  note pf = probe_fold[OF f dist]
  have filed: "filed w'" using pf gs(1) by blast
  have wf: "map_wf (dw_caps w')" and key: "\<And>k c. map_get (dw_caps w') k = Some c \<Longrightarrow> PeerID c = k"
    using filed unfolding filed_def by blast+
  have ent: "(k, c) \<in> set (rngC (dw_caps w')) \<longleftrightarrow> map_get (dw_caps w') k = Some c" for k c
    using gm.entries_iff[OF wf] permuting_set[OF rng(2)] by auto
  have ids: "map PeerID (map snd (rngC (dw_caps w'))) = map fst (rngC (dw_caps w'))" using ent key by auto
  have "distinct (map fst (rngC (dw_caps w')))"
    using wf permuting_mset[OF rng(2), of "dw_caps w'"] unfolding map_wf_def by (metis mset_eq_imp_distinct_iff mset_map)
  then have d: "distinct (map PeerID (map snd (rngC (dw_caps w'))))" by (simp only: ids)
  have "mset (map PeerID ?out) = mset (map PeerID (map snd (rngC (dw_caps w'))))"
    unfolding mset_map slice_sort.srt_mset[OF srt] ..
  then have dout: "distinct (map PeerID ?out)" using d mset_eq_imp_distinct_iff by metis
  have "strict_weak (\<lambda>a b. PeerID a < PeerID b) A" for A :: "CapabilityDocument set" by (auto simp: strict_weak_def)
  then have "sorted_wrt (\<lambda>a b. \<not> PeerID b < PeerID a) ?out" by (rule slice_sort.srt_sorted[OF srt])
  then have so: "sorted_wrt (\<lambda>a b. PeerID a < PeerID b) ?out"
    using dout by (rule sorted_wrt_strict)
  have "PeerID ` set ?out = set (map fst (rngC (dw_caps w')))"
    unfolding slice_sort.srt_set[OF srt] ids[symmetric] by (simp add: image_image)
  also have "\<dots> = known w'" using ent by (force simp: known_def)
  finally have kn: "PeerID ` set ?out = known w'" .
  show thesis
  proof (rule that)
    show "gather lib rngH env node d = (w, node')" using g eq by simp
    show "filed w'" "known w \<subseteq> known w'" "ops = dw_ops w'" using filed pf eq by blast+
    show "fold (probe_peer lib env) (map fst (rngP (dw_peers w))) (w, d) = (w', d')" using f eq by simp
    show "case r of Inr caps \<Rightarrow> caps \<noteq> [] \<and> sorted_wrt (\<lambda>a b. PeerID a < PeerID b) caps \<and> PeerID ` set caps = known w'
       | Inl e \<Rightarrow> e = ErrNoPeersDiscovered \<and> known w' = {}"
      using eq so kn by auto
    fix q assume "Query q \<in> set ops"
    then have "q \<in> queries w' - queries w" using eq gs(3) by (auto simp: queries_def)
    then show "lp_string lib q \<notin> known w \<and> shouldQuery (de_queryNow env q) q d
       \<and> (\<forall>e. de_queryCapability env q = Inl e \<longrightarrow>
            map_get (ld_retryAfter d') q = Some (time_add (de_failNow env q) (30 * second)))
       \<and> (\<forall>c. de_queryCapability env q = Inr c \<longrightarrow> map_get (ld_retryAfter d') q = None)"
      unfolding eq(4) using pf by blast
  qed
qed

text \<open>In its back-off a peer is not asked again.\<close>

lemma backoff_blocks:
  "map_get (ld_retryAfter d) q = Some (time_add t (30 * second)) \<Longrightarrow> now < t + 30 * second \<Longrightarrow> \<not> shouldQuery now q d"
  by (simp add: shouldQuery_def time_add_def time_before_def)

text \<open>Relayed addresses, when there are any, are all that is used.\<close>

lemma split_relay_eq:
  "split_relay as = (filter (str_contains ''/p2p-circuit/'') as, filter (\<lambda>a. \<not> str_contains ''/p2p-circuit/'' a) as)"
  by (induction as) auto

lemma prioritizeRelayAddrs_eq:
  "prioritizeRelayAddrs as = (if \<exists>a\<in>set as. str_contains ''/p2p-circuit/'' a
     then filter (str_contains ''/p2p-circuit/'') as else as)"
  by (auto simp: prioritizeRelayAddrs_def split_relay_eq filter_empty_conv Let_def)

lemma sources_merge_by_key_witness:
  "\<exists>out. MultiDiscovery_List rev [Inl ErrNoPeers, Inr [zero_doc, zero_doc\<lparr>GPU := ''new''\<rparr>]] = Inr out
     \<and> set out = {zero_doc\<lparr>GPU := ''new''\<rparr>}"
proof -
  have k: "doc_key (zero_doc\<lparr>GPU := x\<rparr>) = doc_key zero_doc" for x by (simp add: doc_key_def)
  have "last_with k [zero_doc, zero_doc\<lparr>GPU := ''new''\<rparr>] = (if k = doc_key zero_doc then Some (zero_doc\<lparr>GPU := ''new''\<rparr>) else None)" for k
    by (auto simp: last_with_def doc_key_def)
  moreover have "permuting rev" by (simp add: permuting_def)
  ultimately show ?thesis
    using sources_merge_by_key[of rev "[Inl ErrNoPeers, Inr [zero_doc, zero_doc\<lparr>GPU := ''new''\<rparr>]]"] k
    by (cases "MultiDiscovery_List rev [Inl ErrNoPeers, Inr [zero_doc, zero_doc\<lparr>GPU := ''new''\<rparr>]]")
      (auto simp: answered_def split: if_splits)
qed

section \<open>LAN discovery against its history\<close>

text \<open>What the listener makes of a history of datagrams: the normalised documents with their arrival.\<close>

definition lan_heard ::
  "(string \<Rightarrow> url_view option) \<Rightarrow> (CapabilityDocument option \<times> string \<times> gtime) list \<Rightarrow> (CapabilityDocument \<times> gtime) list" where
  "lan_heard parse evs =
     List.map_filter (\<lambda>(data, ip, t). map_option (\<lambda>cap. (normalizeCapability parse ip cap, t)) data) evs"

definition lan_last ::
  "(string \<Rightarrow> url_view option) \<Rightarrow> (CapabilityDocument option \<times> string \<times> gtime) list \<Rightarrow> string \<Rightarrow> (CapabilityDocument \<times> gtime) option" where
  "lan_last parse evs k = find (\<lambda>x. doc_key (fst x) = k) (rev (lan_heard parse evs))"

lemma lan_listen_entries:
  "lan_entries (lan_listen parse evs d) =
     fold (\<lambda>x. map_put (doc_key (fst x)) \<lparr>le_cap = fst x, le_lastSeen = snd x\<rparr>) (lan_heard parse evs) (lan_entries d)
   \<and> lan_ttl (lan_listen parse evs d) = lan_ttl d"
proof (induction evs arbitrary: d)
  case Nil
  then show ?case by (simp add: lan_heard_def List.map_filter_simps)
next
  case (Cons e evs)
  obtain data ip t where e: "e = (data, ip, t)" by (cases e)
  show ?case
    using Cons[of "lan_receive parse data ip t d"]
    by (cases data) (simp_all add: e lan_heard_def lan_receive_def List.map_filter_simps Let_def)
qed

text \<open>C27: After any history of datagrams, LAN discovery lists, for each peer and gateway, the document of
  the last datagram, provided it arrived within the time to live; a gateway left out or on the
  loopback was replaced by the address the datagram came from. It fails when nothing is that
  recent.\<close>

theorem lan_lists_recent_datagrams:
  assumes "permuting rng"
  shows "case fst (LANDiscovery_List rng now (lan_listen parse evs \<lparr>lan_entries = [], lan_ttl = ttl\<rparr>)) of
      Inr caps \<Rightarrow> caps \<noteq> [] \<and> set caps = {cap. \<exists>k t. lan_last parse evs k = Some (cap, t) \<and> \<not> time_sub now t > ttl}
    | Inl e \<Rightarrow> \<not> (\<exists>k cap t. lan_last parse evs k = Some (cap, t) \<and> \<not> time_sub now t > ttl)"
proof -
  define d where "d = lan_listen parse evs \<lparr>lan_entries = [], lan_ttl = ttl\<rparr>"
  have ent: "lan_entries d = fold (\<lambda>x. map_put (doc_key (fst x)) \<lparr>le_cap = fst x, le_lastSeen = snd x\<rparr>) (lan_heard parse evs) []"
    "lan_ttl d = ttl" using lan_listen_entries[of parse evs "\<lparr>lan_entries = [], lan_ttl = ttl\<rparr>"] by (simp_all add: d_def)
  have wf: "map_wf (lan_entries d)" unfolding ent by (intro gm.wf_fold_put gm.wf_empty)
  have get: "map_get (lan_entries d) k = map_option (\<lambda>x. \<lparr>le_cap = fst x, le_lastSeen = snd x\<rparr>) (lan_last parse evs k)" for k
    unfolding ent lan_last_def by (subst gm.get_fold_put) (simp split: option.split)
  obtain r d' where l: "LANDiscovery_List rng now d = (r, d')" by force
  note L = LANDiscovery_spec[OF assms wf l]
  have live: "map_get (lan_entries d') k = Some e \<longleftrightarrow>
      (\<exists>cap t. lan_last parse evs k = Some (cap, t) \<and> \<not> time_sub now t > ttl \<and> e = \<lparr>le_cap = cap, le_lastSeen = t\<rparr>)" for k e
    using L(2)[of k] by (auto simp: get ent(2) lan_fresh_def split: option.splits if_splits)
  have docs: "{le_cap e |k e. map_get (lan_entries d') k = Some e} = {cap. \<exists>k t. lan_last parse evs k = Some (cap, t) \<and> \<not> time_sub now t > ttl}"
    unfolding live by force
  show ?thesis
  proof (cases r)
    case (Inl e)
    then have none: "map_get (lan_entries d') k = None" for k using L(3) by simp
    have "\<not> (\<exists>k cap t. lan_last parse evs k = Some (cap, t) \<and> \<not> time_sub now t > ttl)" using live none by fastforce
    then show ?thesis using l Inl by (simp add: d_def)
  next
    case (Inr caps)
    then have "caps \<noteq> []" using lan_disc.found_some[of rng now d caps] l by simp
    then show ?thesis using L(3) l Inr docs by (simp add: d_def)
  qed
qed

lemma lan_lists_recent_datagrams_witness:
  "\<exists>caps. fst (LANDiscovery_List rev 10 (lan_listen (\<lambda>_. None) [(Some zero_doc, ''1.2.3.4'', 1), (None, [], 2), (Some zero_doc, ''1.2.3.4'', 9)]
       \<lparr>lan_entries = [], lan_ttl = 5\<rparr>)) = Inr caps
     \<and> caps \<noteq> []"
proof -
  define evs where "evs = [(Some zero_doc, ''1.2.3.4'', 1::gtime), (None, [], 2), (Some zero_doc, ''1.2.3.4'', 9)]"
  define n where "n = normalizeCapability (\<lambda>_. None) ''1.2.3.4'' zero_doc"
  have "lan_last (\<lambda>_. None) evs (doc_key n) = Some (n, 9)"
    by (simp add: lan_last_def lan_heard_def evs_def n_def List.map_filter_simps)
  moreover have "\<not> time_sub 10 9 > (5::duration)" by (simp add: time_sub_def sat64_def)
  moreover have "permuting rev" by (simp add: permuting_def)
  ultimately show ?thesis
    using lan_lists_recent_datagrams[where rng = rev and now = 10 and parse = "\<lambda>_. None" and evs = evs and ttl = 5]
    by (cases "fst (LANDiscovery_List rev 10 (lan_listen (\<lambda>_. None) evs \<lparr>lan_entries = [], lan_ttl = 5\<rparr>))") (fastforce simp: evs_def)+
qed

section \<open>What a libp2p listing promises\<close>

text \<open>The ids a listing is about, given the queries it made.\<close>

definition listed_ids :: "Libp2pLib \<Rightarrow> entry_order \<Rightarrow> DiscEnv \<Rightarrow> Libp2pNode \<Rightarrow> Libp2pNode \<Rightarrow> net_op list \<Rightarrow> string set" where
  "listed_ids lib rngH env node node' ops =
     PeerID ` set (fst (Heartbeats rngH (de_now env) node))
     \<union> (\<Union>bp\<in>set (BootstrapPeers node'). registry_ids lib env (ln_ID node') bp)
     \<union> answered_ids env {q. Query q \<in> set ops}"

text \<open>C25: A libp2p listing has one document of each peer it learned of, in ascending order of peer id:
  exactly the peers with a live heartbeat, those in the registry of a bootstrap peer that could be
  reached and answered (the node itself apart), and those that answered a capability query. Every
  connected peer is in the listing or was queried, unless it is in its back-off. The listing
  fails only when it would be empty.\<close>

theorem libp2p_listing_is_sorted_and_complete:
  assumes "slice_sort srt" "permuting rngP" "permuting rngC"
    and "Libp2pDiscovery_List lib srt rngH rngP rngC env (node, d) = (r, ops, node', d')"
  shows "(case r of
      Inr caps \<Rightarrow> caps \<noteq> [] \<and> sorted_wrt (\<lambda>a b. PeerID a < PeerID b) caps
        \<and> PeerID ` set caps = listed_ids lib rngH env node node' ops
    | Inl e \<Rightarrow> e = ErrNoPeersDiscovered \<and> listed_ids lib rngH env node node' ops = {})
    \<and> (\<forall>q\<in>set (de_peers env). lp_string lib q \<in> listed_ids lib rngH env node node' ops \<or> Query q \<in> set ops
         \<or> \<not> shouldQuery (de_queryNow env q) q d)"
proof -
  obtain w w' where s: "gather lib rngH env node d = (w, node')" "ops = dw_ops w'"
    "case r of Inr caps \<Rightarrow> caps \<noteq> [] \<and> sorted_wrt (\<lambda>a b. PeerID a < PeerID b) caps \<and> PeerID ` set caps = known w'
       | Inl e \<Rightarrow> e = ErrNoPeersDiscovered \<and> known w' = {}"
    "fold (probe_peer lib env) (map fst (rngP (dw_peers w))) (w, d) = (w', d')"
    by (rule Libp2pDiscovery_spec[OF assms])
  note g = gather_spec[OF s(1)]
  have dist: "distinct (map fst (rngP (dw_peers w)))"
    using g(2) permuting_mset[OF assms(2), of "dw_peers w"] unfolding map_wf_def by (metis mset_eq_imp_distinct_iff mset_map)
  obtain Q where Q: "queries w' = Q" "known w' = known w \<union> answered_ids env Q"
    "\<forall>q\<in>set (map fst (rngP (dw_peers w))). q \<in> Q \<or> lp_string lib q \<in> known w' \<or> \<not> shouldQuery (de_queryNow env q) q d"
    using probe_fold_exact[OF s(4) dist] g(3) by auto
  have ids: "known w' = listed_ids lib rngH env node node' ops"
    unfolding listed_ids_def Q(2) gather_exact(1)[OF s(1)] Q(1)[symmetric] queries_def s(2) by simp
  have "set (map fst (rngP (dw_peers w))) = met w"
    using gm.entries_iff[OF g(2)] permuting_set[OF assms(2), of "dw_peers w"] by (force simp: met_def)
  then have "set (de_peers env) \<subseteq> set (map fst (rngP (dw_peers w)))" using gather_exact(2)[OF s(1)] by simp
  then have "\<forall>q\<in>set (de_peers env). lp_string lib q \<in> known w' \<or> q \<in> queries w' \<or> \<not> shouldQuery (de_queryNow env q) q d"
    using Q(1,3) by blast
  then show ?thesis using s(3) unfolding ids queries_def s(2)[symmetric] by simp
qed

lemma listing_queries:
  assumes "slice_sort srt" "permuting rngP" "permuting rngC"
    and "Libp2pDiscovery_List lib srt rngH rngP rngC env (node, d) = (r, ops, node', d')" "Query q \<in> set ops"
  shows "shouldQuery (de_queryNow env q) q d
    \<and> (\<forall>e. de_queryCapability env q = Inl e \<longrightarrow> map_get (ld_retryAfter d') q = Some (time_add (de_failNow env q) (30 * second)))"
proof (rule Libp2pDiscovery_spec[OF assms(1-4)])
  fix w w'
  assume "\<And>q. Query q \<in> set ops \<Longrightarrow> lp_string lib q \<notin> known w \<and> shouldQuery (de_queryNow env q) q d
       \<and> (\<forall>e. de_queryCapability env q = Inl e \<longrightarrow>
            map_get (ld_retryAfter d') q = Some (time_add (de_failNow env q) (30 * second)))
       \<and> (\<forall>c. de_queryCapability env q = Inr c \<longrightarrow> map_get (ld_retryAfter d') q = None)"
  then show ?thesis using assms(5) by blast
qed

text \<open>C26: A peer whose capability query failed is not queried again by a listing less than 30 seconds
  later, whatever the listings see in between of other peers.\<close>

theorem failed_query_backs_off:
  assumes srt: "slice_sort srt" and rng: "permuting rngP" "permuting rngC"
    and one: "Libp2pDiscovery_List lib srt rngH rngP rngC env (node, d) = (r, ops, node', d')"
    and failed: "Query q \<in> set ops" "de_queryCapability env q = Inl e"
    and two: "Libp2pDiscovery_List lib srt rngH rngP rngC env2 (node', d') = (r2, ops2, node'', d'')"
    and soon: "de_queryNow env2 q < de_failNow env q + 30 * second"
  shows "Query q \<notin> set ops2"
proof -
  have "map_get (ld_retryAfter d') q = Some (time_add (de_failNow env q) (30 * second))"
    using listing_queries[OF srt rng one failed(1)] failed(2) by simp
  then have "\<not> shouldQuery (de_queryNow env2 q) q d'" using soon by (rule backoff_blocks)
  then show ?thesis using listing_queries[OF srt rng two] by blast
qed

text \<open>A node that hears from one peer and is connected to another, which does not answer.\<close>

definition demo_lib :: Libp2pLib where
  "demo_lib = \<lparr>lp_decode = Inr, lp_string = (\<lambda>s. s), lp_multiaddr = Inr, lp_p2paddr = (\<lambda>a. Inl (ErrText a)),
     lp_encapsulate = (\<lambda>a b. a @ b)\<rparr>"

definition demo_node :: Libp2pNode where
  "demo_node = \<lparr>ln_ID = ''me'', ln_bootstrapPeers = [], ln_heartbeatTTL = 90 * second,
     ln_heartbeats = [(''h'', \<lparr>he_cap = zero_doc\<lparr>PeerID := ''h''\<rparr>, he_seenAt = 0\<rparr>)], ln_registry = []\<rparr>"

definition demo_disc_env :: DiscEnv where
  "demo_disc_env = \<lparr>de_peers = [''q''], de_findPeers = (\<lambda>_. Inr []), de_connect = (\<lambda>_. None),
     de_queryRegistry = (\<lambda>_. Inr []), de_queryCapability = (\<lambda>_. Inl ErrNoPeers), de_now = 1,
     de_queryNow = (\<lambda>_. 1), de_failNow = (\<lambda>_. 2)\<rparr>"

lemma demo_heartbeats: "Heartbeats (\<lambda>xs. xs) 1 demo_node = ([zero_doc\<lparr>PeerID := ''h''\<rparr>], demo_node)"
  by (simp add: Heartbeats_def snapshotMapLocked_def pruneLocked_def demo_node_def time_sub_def sat64_def second_def)

lemma demo_node_simps: "BootstrapPeers demo_node = []" "ln_ID demo_node = ''me''"
  by (simp_all add: BootstrapPeers_def demo_node_def)

lemma demo_listing:
  "\<exists>r node' d'. Libp2pDiscovery_List demo_lib insertion_sort (\<lambda>xs. xs) (\<lambda>xs. xs) (\<lambda>xs. xs) demo_disc_env
      (demo_node, NewLibp2pDiscovery [] 0) = (r, [Query ''q''], node', d')"
  by (simp add: Libp2pDiscovery_List_def gather_def start_work_def DiscoverPeers_def demo_disc_env_def demo_node_simps
      demo_heartbeats absorb_heartbeat_def zero_doc_def Let_def note_cap_def probe_peer_def demo_lib_def
      shouldQuery_def NewLibp2pDiscovery_def)

lemma libp2p_listing_is_sorted_and_complete_witness:
  "\<exists>caps ops node' d'. Libp2pDiscovery_List demo_lib insertion_sort (\<lambda>xs. xs) (\<lambda>xs. xs) (\<lambda>xs. xs) demo_disc_env
      (demo_node, NewLibp2pDiscovery [] 0) = (Inr caps, ops, node', d') \<and> ''h'' \<in> PeerID ` set caps"
proof -
  obtain r node' d' where l: "Libp2pDiscovery_List demo_lib insertion_sort (\<lambda>xs. xs) (\<lambda>xs. xs) (\<lambda>xs. xs) demo_disc_env
      (demo_node, NewLibp2pDiscovery [] 0) = (r, [Query ''q''], node', d')" using demo_listing by blast
  have "de_now demo_disc_env = 1" by (simp add: demo_disc_env_def)
  then show ?thesis
    using libp2p_listing_is_sorted_and_complete[OF isort.slice_sort_axioms permuting_id permuting_id l] l
    by (cases r) (auto simp: demo_heartbeats listed_ids_def)
qed

lemma failed_query_backs_off_witness:
  "\<exists>r node' d' r2 ops2 node2 d2.
      Libp2pDiscovery_List demo_lib insertion_sort (\<lambda>xs. xs) (\<lambda>xs. xs) (\<lambda>xs. xs) demo_disc_env
        (demo_node, NewLibp2pDiscovery [] 0) = (r, [Query ''q''], node', d')
    \<and> Libp2pDiscovery_List demo_lib insertion_sort (\<lambda>xs. xs) (\<lambda>xs. xs) (\<lambda>xs. xs) demo_disc_env (node', d') = (r2, ops2, node2, d2)
    \<and> Query ''q'' \<notin> set ops2"
proof -
  obtain r node' d' where l: "Libp2pDiscovery_List demo_lib insertion_sort (\<lambda>xs. xs) (\<lambda>xs. xs) (\<lambda>xs. xs) demo_disc_env
      (demo_node, NewLibp2pDiscovery [] 0) = (r, [Query ''q''], node', d')" using demo_listing by blast
  obtain r2 ops2 node2 d2 where m: "Libp2pDiscovery_List demo_lib insertion_sort (\<lambda>xs. xs) (\<lambda>xs. xs) (\<lambda>xs. xs) demo_disc_env
      (node', d') = (r2, ops2, node2, d2)" by (metis surj_pair)
  have "Query ''q'' \<notin> set ops2"
    by (rule failed_query_backs_off[OF isort.slice_sort_axioms permuting_id permuting_id l _ _ m])
      (simp_all add: demo_disc_env_def second_def)
  then show ?thesis using l m by blast
qed

end
