(* ===== verification/Gateway.thy ===== *)
theory Gateway
  imports Client Registry
begin

text \<open>
  How a request reaches a provider (\<^verbatim>\<open>internal/p2p/gateway_client.go\<close>, \<^verbatim>\<open>libp2p_protocols.go\<close>): over
  HTTP, or over libp2p streams that carry one JSON line each way and then the body, directly or
  through the proxy of a bootstrap peer. A stream is the function from the bytes written to the
  bytes that come back (or an error). The codecs of \<open>encoding/json\<close> are arguments (\<open>Wire\<close>);
  \<open>dial\<close> is \<open>host.NewStream\<close>, told apart by the number of the attempt.
\<close>

section \<open>The wire\<close>

record inferResponseHeader =
  ih_StatusCode :: int
  ih_ContentType :: string
  ih_Error :: string

record inferProxyRequest =
  px_TargetPeerID :: string
  px_Request :: ChatCompletionRequest

record Wire =
  enc_request :: "ChatCompletionRequest \<Rightarrow> go_error + string"
  dec_request :: "string \<Rightarrow> ChatCompletionRequest option"
  enc_header :: "inferResponseHeader \<Rightarrow> go_error + string"
  dec_header :: "string \<Rightarrow> go_error + inferResponseHeader"
  enc_proxy :: "inferProxyRequest \<Rightarrow> go_error + string"
  dec_proxy :: "string \<Rightarrow> inferProxyRequest option"
  format_only :: "string \<Rightarrow> string"

text \<open>\<open>fmt.Errorf(s)\<close>: the text itself when it has no verb; otherwise what \<open>fmt\<close> makes of it.\<close>

definition errorf :: "Wire \<Rightarrow> string \<Rightarrow> go_error" where
  "errorf wire s = ErrText (if CHR ''%'' \<in> set s then format_only wire s else s)"

definition nl :: char where "nl = CHR 0x0A"

text \<open>\<open>ReadBytes\<close> up to a newline: the line with it and the bytes after it.\<close>

fun read_line :: "string \<Rightarrow> (string \<times> string) option" where
  "read_line [] = None"
| "read_line (c # s) =
     (if c = nl then Some ([c], s)
      else case read_line s of None \<Rightarrow> None | Some (l, r) \<Rightarrow> Some (c # l, r))"

definition bytesTrim :: "string \<Rightarrow> string" where "bytesTrim b = trim_space b"

type_synonym stream = "string \<Rightarrow> go_error + string"

definition writeInferHeader :: "Wire \<Rightarrow> inferResponseHeader \<Rightarrow> go_error + string" where
  "writeInferHeader wire hdr = (case enc_header wire hdr of Inl e \<Rightarrow> Inl e | Inr b \<Rightarrow> Inr (b @ [nl]))"

text \<open>Bytes of a header whose error is ignored by the caller.\<close>

definition header_bytes :: "Wire \<Rightarrow> inferResponseHeader \<Rightarrow> string" where
  "header_bytes wire hdr = (case writeInferHeader wire hdr of Inl e \<Rightarrow> [] | Inr b \<Rightarrow> b)"

definition error_header :: "int \<Rightarrow> string \<Rightarrow> inferResponseHeader" where
  "error_header status msg = \<lparr>ih_StatusCode = status, ih_ContentType = [], ih_Error = msg\<rparr>"

section \<open>The HTTP gateway client\<close>

definition context_headers :: "PeerContext \<Rightarrow> (string, string) gomap" where
  "context_headers peerCtx =
     (let h = json_headers;
          h = (if pc_ClientPeerID peerCtx \<noteq> [] then map_put HeaderClientPeerID (pc_ClientPeerID peerCtx) h else h);
          h = (if pc_ClientName peerCtx \<noteq> [] then map_put HeaderClientName (pc_ClientName peerCtx) h else h)
      in map_put HeaderPoWNonce (nat_dec (unat (pc_PoWNonce peerCtx))) h)"

text \<open>\<open>net\<close> is \<open>Client.Do\<close> on a network with a state, \<open>refused\<close> the verdict of \<open>http.NewRequest\<close> on a URL.\<close>

definition HTTPGateway_on ::
  "(string \<Rightarrow> go_error option) \<Rightarrow> (HttpRequest \<Rightarrow> 'w \<Rightarrow> (go_error + HttpResponse) \<times> 'w) \<Rightarrow> Wire \<Rightarrow> 'w gateway_on" where
  "HTTPGateway_on refused net wire gatewayURL req peerCtx w =
     (case enc_request wire req of
        Inl e \<Rightarrow> (Inl (ErrWrap ''marshal request: '' e), w)
      | Inr b \<Rightarrow>
          let url = trim_right_char (CHR 0x2F) gatewayURL @ ''/v1/chat/completions'' in
          case refused url of
            Some e \<Rightarrow> (Inl (ErrWrap ''build request: '' e), w)
          | None \<Rightarrow>
              (case net \<lparr>hq_Method = ''POST'', hq_URL = url, hq_Header = context_headers peerCtx, hq_Body = b\<rparr> w of
                 (Inl e, w) \<Rightarrow> (Inl (ErrWrap ''gateway request failed: '' e), w)
               | (Inr resp, w) \<Rightarrow>
                   if hr_StatusCode resp \<ge> 400 then (Inl (status_error ''gateway'' resp), w)
                   else (Inr \<lparr>gr_StatusCode = hr_StatusCode resp, gr_ContentType = hr_ContentType resp,
                              gr_Body = hr_Body resp\<rparr>, w)))"

text \<open>On a network without a state.\<close>

definition HTTPGateway_Infer :: "HttpEnv \<Rightarrow> Wire \<Rightarrow> gateway" where
  "HTTPGateway_Infer env wire gatewayURL req peerCtx =
     fst (HTTPGateway_on (url_error env) (\<lambda>q w. (round_trip env q, w)) wire gatewayURL req peerCtx ())"

lemma asked_of_HTTP:
  "gw k = HTTPGateway_Infer env wire \<Longrightarrow> asked_of gw k = HTTPGateway_on (url_error env) (\<lambda>q w. (round_trip env q, w)) wire"
  by (simp add: fun_eq_iff asked_of_def HTTPGateway_Infer_def prod_eq_iff)

section \<open>The libp2p gateway client\<close>

definition inferOverStream :: "Wire \<Rightarrow> stream \<Rightarrow> string \<Rightarrow> go_error + GatewayResponse" where
  "inferOverStream wire s payload =
     (case s (payload @ [nl]) of
        Inl e \<Rightarrow> Inl e
      | Inr bytes \<Rightarrow>
          (case read_line bytes of
             None \<Rightarrow> Inl (ErrText ''EOF'')
           | Some (hdrLine, rest) \<Rightarrow>
               (case dec_header wire (bytesTrim hdrLine) of
                  Inl e \<Rightarrow> Inl e
                | Inr hdr \<Rightarrow>
                    if ih_StatusCode hdr \<ge> 400
                    then Inl (errorf wire (if ih_Error hdr = [] then ''remote infer failed'' else ih_Error hdr))
                    else Inr \<lparr>gr_StatusCode = ih_StatusCode hdr, gr_ContentType = ih_ContentType hdr, gr_Body = rest\<rparr>)))"

datatype protocol = InferProtocol | ProxyProtocol

type_synonym dialer = "nat \<Rightarrow> protocol \<Rightarrow> string \<Rightarrow> go_error + stream"

definition tryDirect :: "Wire \<Rightarrow> dialer \<Rightarrow> nat \<Rightarrow> string \<Rightarrow> ChatCompletionRequest \<Rightarrow> go_error + GatewayResponse" where
  "tryDirect wire dial k pid req =
     (case dial k InferProtocol pid of
        Inl e \<Rightarrow> Inl e
      | Inr s \<Rightarrow> (case enc_request wire req of Inl e \<Rightarrow> Inl e | Inr reqBytes \<Rightarrow> inferOverStream wire s reqBytes))"

definition tryProxy ::
  "Libp2pLib \<Rightarrow> Wire \<Rightarrow> dialer \<Rightarrow> nat \<Rightarrow> string \<Rightarrow> string \<Rightarrow> ChatCompletionRequest \<Rightarrow> go_error + GatewayResponse" where
  "tryProxy lib wire dial k bootstrapID targetID req =
     (case dial k ProxyProtocol bootstrapID of
        Inl e \<Rightarrow> Inl e
      | Inr s \<Rightarrow>
          (case enc_proxy wire \<lparr>px_TargetPeerID = lp_string lib targetID, px_Request = req\<rparr> of
             Inl e \<Rightarrow> Inl e | Inr payload \<Rightarrow> inferOverStream wire s payload))"

record Libp2pGatewayClient =
  gc_routes :: "(string, string) gomap"

definition getRoute :: "string \<Rightarrow> Libp2pGatewayClient \<Rightarrow> string option" where
  "getRoute peerID c = map_get (gc_routes c) peerID"

definition setRoute :: "string \<Rightarrow> string \<Rightarrow> Libp2pGatewayClient \<Rightarrow> Libp2pGatewayClient" where
  "setRoute peerID route c = c\<lparr>gc_routes := map_put peerID route (gc_routes c)\<rparr>"

definition parsePeerIDFromGateway :: "Libp2pLib \<Rightarrow> string \<Rightarrow> go_error + string" where
  "parsePeerIDFromGateway lib gatewayURL =
     (let pid = last (split_on (CHR 0x2F) (trim_space gatewayURL)) in
      if pid = [] then Inl (ErrText ''missing peer id'') else lp_decode lib pid)"

text \<open>The request with the caller's identity in its metadata.\<close>

definition with_context :: "PeerContext \<Rightarrow> ChatCompletionRequest \<Rightarrow> ChatCompletionRequest" where
  "with_context peerCtx req =
     (let m = (case req_Metadata req of None \<Rightarrow> [] | Some m \<Rightarrow> m);
          m = (if pc_ClientPeerID peerCtx \<noteq> [] then map_put HeaderClientPeerID (pc_ClientPeerID peerCtx) m else m);
          m = (if pc_ClientName peerCtx \<noteq> [] then map_put HeaderClientName (pc_ClientName peerCtx) m else m)
      in req\<lparr>req_Metadata := Some (map_put HeaderPoWNonce (nat_dec (unat (pc_PoWNonce peerCtx))) m)\<rparr>)"

text \<open>The attempt along the cached route, if there is one and it decodes; \<open>None\<close>: fall through.\<close>

definition try_cached ::
  "Libp2pLib \<Rightarrow> Wire \<Rightarrow> dialer \<Rightarrow> string \<Rightarrow> ChatCompletionRequest \<Rightarrow> Libp2pGatewayClient \<Rightarrow> GatewayResponse option" where
  "try_cached lib wire dial pid req c =
     (case getRoute (lp_string lib pid) c of
        None \<Rightarrow> None
      | Some route \<Rightarrow>
          if route = ''direct'' then (case tryDirect wire dial 0 pid req of Inr res \<Rightarrow> Some res | Inl e \<Rightarrow> None)
          else if has_prefix ''proxy:'' route then
            (case lp_decode lib (trim_prefix ''proxy:'' route) of
               Inl e \<Rightarrow> None
             | Inr bpID \<Rightarrow> (case tryProxy lib wire dial 0 bpID pid req of Inr res \<Rightarrow> Some res | Inl e \<Rightarrow> None))
          else None)"

fun try_bootstraps ::
  "Libp2pLib \<Rightarrow> Wire \<Rightarrow> dialer \<Rightarrow> string \<Rightarrow> string \<Rightarrow> ChatCompletionRequest \<Rightarrow> nat \<Rightarrow> go_error option \<Rightarrow> AddrInfo list
    \<Rightarrow> Libp2pGatewayClient \<Rightarrow> (go_error + GatewayResponse) \<times> Libp2pGatewayClient" where
  "try_bootstraps lib wire dial self pid req k lastErr [] c =
     (Inl (case lastErr of Some e \<Rightarrow> e | None \<Rightarrow> ErrText (''no route to peer '' @ lp_string lib pid)), c)"
| "try_bootstraps lib wire dial self pid req k lastErr (bp # bps) c =
     (if ai_ID bp = [] \<or> ai_ID bp = self \<or> ai_ID bp = pid
      then try_bootstraps lib wire dial self pid req k lastErr bps c
      else case tryProxy lib wire dial k (ai_ID bp) pid req of
          Inr res \<Rightarrow> (Inr res, setRoute (lp_string lib pid) (''proxy:'' @ lp_string lib (ai_ID bp)) c)
        | Inl e \<Rightarrow> try_bootstraps lib wire dial self pid req (Suc k) (Some e) bps c)"

definition Libp2pGateway_Infer ::
  "Libp2pLib \<Rightarrow> Wire \<Rightarrow> dialer \<Rightarrow> Libp2pNode \<Rightarrow> string \<Rightarrow> ChatCompletionRequest \<Rightarrow> PeerContext
    \<Rightarrow> Libp2pGatewayClient \<Rightarrow> (go_error + GatewayResponse) \<times> Libp2pGatewayClient" where
  "Libp2pGateway_Infer lib wire dial node gatewayURL req peerCtx c =
     (case parsePeerIDFromGateway lib gatewayURL of
        Inl e \<Rightarrow> (Inl e, c)
      | Inr pid \<Rightarrow>
          let req = with_context peerCtx req in
          case try_cached lib wire dial pid req c of
            Some res \<Rightarrow> (Inr res, c)
          | None \<Rightarrow>
              (case tryDirect wire dial 1 pid req of
                 Inr res \<Rightarrow> (Inr res, setRoute (lp_string lib pid) ''direct'' c)
               | Inl e \<Rightarrow> try_bootstraps lib wire dial (ln_ID node) pid req 2 None (BootstrapPeers node) c))"

section \<open>The provider's end of the stream\<close>

text \<open>The identity a request carries in its metadata, as the handler reads it.\<close>

definition metadata_get :: "ChatCompletionRequest \<Rightarrow> string \<Rightarrow> string" where
  "metadata_get req k = (case req_Metadata req of None \<Rightarrow> [] | Some m \<Rightarrow> header_get m k)"

definition parse_nonce :: "string \<Rightarrow> u64" where
  "parse_nonce raw = (if raw = [] then 0 else case parse_uint64 raw of Some n \<Rightarrow> of_nat n | None \<Rightarrow> 0)"

definition metadata_context :: "ChatCompletionRequest \<Rightarrow> PeerContext" where
  "metadata_context req =
     \<lparr>pc_ClientPeerID = metadata_get req HeaderClientPeerID, pc_ClientName = metadata_get req HeaderClientName,
      pc_PoWNonce = parse_nonce (metadata_get req HeaderPoWNonce)\<rparr>"

type_synonym infer_handler = "ChatCompletionRequest \<Rightarrow> PeerContext \<Rightarrow> go_error + InferenceResult"

definition infer_stream :: "Wire \<Rightarrow> infer_handler \<Rightarrow> string \<Rightarrow> string" where
  "infer_stream wire provider bytes =
     (case read_line bytes of
        None \<Rightarrow> []
      | Some (line, rest) \<Rightarrow>
          (case dec_request wire (bytesTrim line) of
             None \<Rightarrow> header_bytes wire (error_header 400 ''invalid json'')
           | Some req \<Rightarrow>
               (case provider req (metadata_context req) of
                  Inl e \<Rightarrow> header_bytes wire (error_header 502 (error_text e))
                | Inr res \<Rightarrow>
                    (case writeInferHeader wire \<lparr>ih_StatusCode = (if ir_StatusCode res = 0 then 200 else ir_StatusCode res),
                                               ih_ContentType = ir_ContentType res, ih_Error = []\<rparr> of
                       Inl e \<Rightarrow> []
                     | Inr h \<Rightarrow> h @ ir_Body res))))"

text \<open>The proxy of a bootstrap peer: the target's stream is dialled for each request.\<close>

definition proxy_stream :: "Libp2pLib \<Rightarrow> Wire \<Rightarrow> (string \<Rightarrow> go_error + stream) \<Rightarrow> string \<Rightarrow> string" where
  "proxy_stream lib wire dialTarget bytes =
     (case read_line bytes of
        None \<Rightarrow> header_bytes wire (error_header 400 ''invalid proxy request'')
      | Some (line, rest) \<Rightarrow>
          (case dec_proxy wire (bytesTrim line) of
             None \<Rightarrow> header_bytes wire (error_header 400 ''invalid proxy json'')
           | Some preq \<Rightarrow>
               let targetPeer = trim_space (px_TargetPeerID preq) in
               if targetPeer = [] then header_bytes wire (error_header 400 ''missing target peer id'')
               else case lp_decode lib targetPeer of
                   Inl e \<Rightarrow> header_bytes wire (error_header 400 ''invalid target peer id'')
                 | Inr targetID \<Rightarrow>
                     (case dialTarget targetID of
                        Inl e \<Rightarrow> header_bytes wire (error_header 502 (''proxy dial failed: '' @ error_text e))
                      | Inr upstream \<Rightarrow>
                          (case enc_request wire (px_Request preq) of
                             Inl e \<Rightarrow> header_bytes wire (error_header 400 ''proxy marshal failed'')
                           | Inr reqBytes \<Rightarrow>
                               (case upstream (reqBytes @ [nl]) of
                                  Inl e \<Rightarrow> header_bytes wire (error_header 502 (''proxy write failed: '' @ error_text e))
                                | Inr answer \<Rightarrow>
                                    (case read_line answer of
                                       None \<Rightarrow> header_bytes wire (error_header 502 (''proxy read header failed: '' @ ''EOF''))
                                     | Some (hdrLine, body) \<Rightarrow>
                                         (case dec_header wire (bytesTrim hdrLine) of
                                            Inl e \<Rightarrow> header_bytes wire (error_header 502 ''proxy invalid upstream header'')
                                          | Inr hdr \<Rightarrow>
                                              (case writeInferHeader wire hdr of
                                                 Inl e \<Rightarrow> []
                                               | Inr h \<Rightarrow> h @ (if ih_StatusCode hdr \<ge> 400 then [] else body)))))))))"

section \<open>Capability and registry exchanges\<close>

record capResponse =
  cr_OK :: bool
  cr_Error :: string
  cr_Cap :: "CapabilityDocument option"

record registryResponse =
  rr_OK :: bool
  rr_Error :: string
  rr_Peers :: "CapabilityDocument list"

definition capability_answer :: "CapabilityDocument \<Rightarrow> capResponse" where
  "capability_answer snapshot = \<lparr>cr_OK = True, cr_Error = [], cr_Cap = Some snapshot\<rparr>"

definition registry_answer :: "entry_order \<Rightarrow> gtime \<Rightarrow> Libp2pNode \<Rightarrow> registryResponse \<times> Libp2pNode" where
  "registry_answer rng now n =
     (let (peers, n) = RegistryCapabilities rng now n in (\<lparr>rr_OK = True, rr_Error = [], rr_Peers = peers\<rparr>, n))"

definition announce_answer :: "gtime \<Rightarrow> gtime \<Rightarrow> CapabilityDocument option \<Rightarrow> Libp2pNode \<Rightarrow> capResponse \<times> Libp2pNode" where
  "announce_answer now1 now2 payload n =
     (case payload of
        None \<Rightarrow> (\<lparr>cr_OK = False, cr_Error = ''invalid registry announce payload'', cr_Cap = None\<rparr>, n)
      | Some cap \<Rightarrow>
          if trim_space (PeerID cap) = [] then (\<lparr>cr_OK = False, cr_Error = ''missing peer id'', cr_Cap = None\<rparr>, n)
          else (\<lparr>cr_OK = True, cr_Error = [], cr_Cap = None\<rparr>, UpsertRegistryCapability now1 now2 cap n))"

text \<open>The asking side: \<open>answer\<close> is what came back on the stream (or the error of opening or decoding).\<close>

definition QueryCapability :: "Wire \<Rightarrow> go_error + capResponse \<Rightarrow> go_error + CapabilityDocument" where
  "QueryCapability wire answer =
     (case answer of
        Inl e \<Rightarrow> Inl e
      | Inr resp \<Rightarrow>
          (case (if cr_OK resp then cr_Cap resp else None) of
             None \<Rightarrow> Inl (errorf wire (if cr_Error resp = [] then ''capability query failed'' else cr_Error resp))
           | Some cap \<Rightarrow> Inr cap))"

definition QueryRegistry :: "Wire \<Rightarrow> go_error + registryResponse \<Rightarrow> go_error + CapabilityDocument list" where
  "QueryRegistry wire answer =
     (case answer of
        Inl e \<Rightarrow> Inl e
      | Inr resp \<Rightarrow>
          if \<not> rr_OK resp
          then Inl (errorf wire (if rr_Error resp = [] then ''registry query failed'' else rr_Error resp))
          else Inr (rr_Peers resp))"

definition AnnounceRegistry :: "Wire \<Rightarrow> go_error + capResponse \<Rightarrow> go_error option" where
  "AnnounceRegistry wire answer =
     (case answer of
        Inl e \<Rightarrow> Some e
      | Inr resp \<Rightarrow>
          if \<not> cr_OK resp
          then Some (errorf wire (if cr_Error resp = [] then ''registry announce failed'' else cr_Error resp))
          else None)"

section \<open>What a gateway client promises\<close>

locale gateway_client =
  fixes infer :: "string \<Rightarrow> ChatCompletionRequest \<Rightarrow> PeerContext \<Rightarrow> go_error + GatewayResponse"
  assumes answer_below_400: "infer url req pc = Inr res \<Longrightarrow> gr_StatusCode res < 400"
begin

text \<open>What the client service relays is never an error status.\<close>

lemma relayed_below_400: "infer url req pc = Inr res \<Longrightarrow> ir_StatusCode (answer_of res) < 400"
  using answer_below_400 by (simp add: answer_of_def)

end

interpretation http_gw: gateway_client "HTTPGateway_Infer env wire"
  by unfold_locales (auto simp: HTTPGateway_Infer_def HTTPGateway_on_def Let_def split: sum.splits option.splits if_splits)

lemma inferOverStream_below: "inferOverStream wire s p = Inr res \<Longrightarrow> gr_StatusCode res < 400"
  by (auto simp: inferOverStream_def split: sum.splits option.splits if_splits)

lemma tryDirect_below: "tryDirect wire dial k pid req = Inr res \<Longrightarrow> gr_StatusCode res < 400"
  by (auto simp: tryDirect_def split: sum.splits dest: inferOverStream_below)

lemma tryProxy_below: "tryProxy lib wire dial k b pid req = Inr res \<Longrightarrow> gr_StatusCode res < 400"
  by (auto simp: tryProxy_def split: sum.splits dest: inferOverStream_below)

lemma try_bootstraps_below:
  "try_bootstraps lib wire dial self pid req k le bps c = (Inr res, c') \<Longrightarrow> gr_StatusCode res < 400"
  by (induction bps arbitrary: k le) (auto split: if_splits sum.splits dest: tryProxy_below)

lemma try_cached_below: "try_cached lib wire dial pid req c = Some res \<Longrightarrow> gr_StatusCode res < 400"
  by (auto simp: try_cached_def split: option.splits if_splits sum.splits dest: tryDirect_below tryProxy_below)

interpretation libp2p_gw: gateway_client "\<lambda>url req pc. fst (Libp2pGateway_Infer lib wire dial node url req pc c)"
proof
  fix url req pc res
  assume "fst (Libp2pGateway_Infer lib wire dial node url req pc c) = Inr res"
  then obtain c' where "Libp2pGateway_Infer lib wire dial node url req pc c = (Inr res, c')"
    by (cases "Libp2pGateway_Infer lib wire dial node url req pc c") auto
  then show "gr_StatusCode res < 400"
    by (auto simp: Libp2pGateway_Infer_def Let_def split: sum.splits option.splits
        dest: try_cached_below tryDirect_below try_bootstraps_below)
qed

section \<open>Lines on the wire\<close>

definition line_ok :: "string \<Rightarrow> bool" where
  "line_ok b = (b \<noteq> [] \<and> nl \<notin> set b \<and> trim_space b = b)"

lemma read_line_append: "nl \<notin> set b \<Longrightarrow> read_line (b @ nl # r) = Some (b @ [nl], r)"
  by (induction b) auto

lemma read_line_None: "read_line s = None \<longleftrightarrow> nl \<notin> set s"
  by (induction s) (auto split: option.splits)

lemma space_seq_nl: "p \<in> set space_seqs \<Longrightarrow> nl \<in> set p \<Longrightarrow> p = [nl]"
  by (auto simp: space_seqs_def nl_def)

lemma trim_space_nl:
  assumes "b \<noteq> []" "trim_space b = b" shows "trim_space (b @ [nl]) = b"
proof -
  have lead: "lead_len space_seqs b = 0" using trim_space_no_lead[of b] assms(2) by simp
  have "trim_left_space b = b" by (simp add: trim_left_space_def strip_lead_id lead)
  then have right: "trim_right_space b = b" using assms(2) by (simp add: trim_space_def)
  have "\<not> has_prefix p (b @ [nl])" if p: "p \<in> set space_seqs" for p
  proof
    assume "has_prefix p (b @ [nl])"
    then have "prefix p (b @ [nl])" by (simp add: has_prefix_iff_prefix)
    then have "p = b @ [nl] \<or> prefix p b" by simp
    moreover have "\<not> prefix p b" using lead p by (simp add: lead_len_0_iff has_prefix_iff_prefix)
    ultimately have "p = b @ [nl]" by blast
    then show False using space_seq_nl[OF p] assms(1) by auto
  qed
  then have "lead_len space_seqs (b @ [nl]) = 0" by (simp add: lead_len_0_iff)
  then have left: "trim_left_space (b @ [nl]) = b @ [nl]" by (simp add: trim_left_space_def strip_lead_id)
  have one: "lead_len (map rev space_seqs) (nl # rev b) = 1"
    by (simp add: lead_len_def space_seqs_def has_prefix_def nl_def)
  have "strip_lead (map rev space_seqs) (nl # rev b) = strip_lead (map rev space_seqs) (rev b)"
    by (subst strip_lead.simps) (simp add: one)
  then show ?thesis using left right by (simp add: trim_space_def trim_right_space_def)
qed

lemma line_ok_read: "line_ok b \<Longrightarrow> read_line (b @ nl # r) = Some (b @ [nl], r) \<and> bytesTrim (b @ [nl]) = b"
  by (simp add: line_ok_def read_line_append bytesTrim_def trim_space_nl)

section \<open>Identity survives the metadata\<close>

lemma parse_nonce_dec: "parse_nonce (nat_dec (unat n)) = n"
  using unsigned_less[of n, where 'a = nat] by (simp add: parse_nonce_def parse_uint64_nat_dec)

lemma headers_distinct [simp]:
  "HeaderClientPeerID \<noteq> HeaderPoWNonce" "HeaderClientName \<noteq> HeaderPoWNonce" "HeaderClientPeerID \<noteq> HeaderClientName"
  "HeaderPoWNonce \<noteq> HeaderClientPeerID" "HeaderPoWNonce \<noteq> HeaderClientName" "HeaderClientName \<noteq> HeaderClientPeerID"
  by (simp_all add: HeaderClientPeerID_def HeaderClientName_def HeaderPoWNonce_def)

lemma context_roundtrip:
  assumes "pc_ClientPeerID pc \<noteq> [] \<or> metadata_get req HeaderClientPeerID = []"
    and "pc_ClientName pc \<noteq> [] \<or> metadata_get req HeaderClientName = []"
  shows "metadata_context (with_context pc req) = pc"
  using assms
  by (auto simp: metadata_context_def with_context_def metadata_get_def header_get_def Let_def update_conv'
      parse_nonce_dec split: option.splits)

section \<open>Delivery\<close>

definition request_codec :: "Wire \<Rightarrow> ChatCompletionRequest \<Rightarrow> bool" where
  "request_codec wire x = (\<exists>b. enc_request wire x = Inr b \<and> line_ok b \<and> dec_request wire b = Some x)"

definition header_codec :: "Wire \<Rightarrow> inferResponseHeader \<Rightarrow> bool" where
  "header_codec wire h = (\<exists>b. enc_header wire h = Inr b \<and> line_ok b \<and> dec_header wire b = Inr h)"

definition proxy_codec :: "Wire \<Rightarrow> inferProxyRequest \<Rightarrow> bool" where
  "proxy_codec wire x = (\<exists>b. enc_proxy wire x = Inr b \<and> line_ok b \<and> dec_proxy wire b = Some x)"

text \<open>What a client is told of a provider's answer.\<close>

definition ok_status :: "int \<Rightarrow> int" where
  "ok_status st = (if st = 0 then 200 else st)"

definition told :: "Wire \<Rightarrow> go_error + InferenceResult \<Rightarrow> go_error + GatewayResponse" where
  "told wire r = (case r of
     Inl e \<Rightarrow> Inl (errorf wire (if error_text e = [] then ''remote infer failed'' else error_text e))
   | Inr res \<Rightarrow> if ok_status (ir_StatusCode res) \<ge> 400 then Inl (errorf wire ''remote infer failed'')
       else Inr \<lparr>gr_StatusCode = ok_status (ir_StatusCode res), gr_ContentType = ir_ContentType res, gr_Body = ir_Body res\<rparr>)"

text \<open>The header and body a provider's answer is sent as.\<close>

definition sent_header :: "go_error + InferenceResult \<Rightarrow> inferResponseHeader" where
  "sent_header r = (case r of
     Inl e \<Rightarrow> error_header 502 (error_text e)
   | Inr res \<Rightarrow> \<lparr>ih_StatusCode = ok_status (ir_StatusCode res), ih_ContentType = ir_ContentType res, ih_Error = []\<rparr>)"

definition sent_body :: "go_error + InferenceResult \<Rightarrow> string" where
  "sent_body r = (case r of Inl e \<Rightarrow> [] | Inr res \<Rightarrow> ir_Body res)"

lemma header_bytes_ok:
  assumes "header_codec wire h"
  obtains b where "writeInferHeader wire h = Inr (b @ [nl])" "header_bytes wire h = b @ [nl]" "line_ok b" "dec_header wire b = Inr h"
  using assms unfolding header_codec_def header_bytes_def writeInferHeader_def by (metis sum.case(2))

lemma infer_stream_answer:
  assumes "header_codec wire (sent_header (provider req (metadata_context req)))" "line_ok b" "dec_request wire b = Some req"
  obtains h where "infer_stream wire provider (b @ [nl]) = h @ nl # sent_body (provider req (metadata_context req))"
    "line_ok h" "dec_header wire h = Inr (sent_header (provider req (metadata_context req)))"
proof -
  let ?r = "provider req (metadata_context req)"
  obtain h where h: "writeInferHeader wire (sent_header ?r) = Inr (h @ [nl])" "header_bytes wire (sent_header ?r) = h @ [nl]"
    "line_ok h" "dec_header wire h = Inr (sent_header ?r)" by (rule header_bytes_ok[OF assms(1)])
  have "infer_stream wire provider (b @ [nl]) = h @ nl # sent_body ?r"
    using line_ok_read[OF assms(2), of "[]"] assms(3) h(1,2)
    by (cases ?r) (simp_all add: infer_stream_def sent_header_def sent_body_def ok_status_def)
  then show thesis using h that by blast
qed

lemma inferOverStream_told:
  assumes "s (payload @ [nl]) = Inr (h @ nl # body)" "line_ok h" "dec_header wire h = Inr (sent_header r)"
    "ih_StatusCode (sent_header r) < 400 \<longrightarrow> body = sent_body r"
  shows "inferOverStream wire s payload = told wire r"
  using assms line_ok_read[OF assms(2), of body]
  by (cases r) (auto simp: inferOverStream_def told_def sent_header_def sent_body_def error_header_def)

lemma tryDirect_delivers:
  assumes "dial k InferProtocol pid = Inr (\<lambda>b. Inr (infer_stream wire provider b))"
    and "request_codec wire req" "header_codec wire (sent_header (provider req (metadata_context req)))"
  shows "tryDirect wire dial k pid req = told wire (provider req (metadata_context req))"
proof -
  obtain b where b: "enc_request wire req = Inr b" "line_ok b" "dec_request wire b = Some req"
    using assms(2) by (auto simp: request_codec_def)
  obtain h where h: "infer_stream wire provider (b @ [nl]) = h @ nl # sent_body (provider req (metadata_context req))"
    "line_ok h" "dec_header wire h = Inr (sent_header (provider req (metadata_context req)))"
    by (rule infer_stream_answer[where wire = wire and provider = provider and req = req and b = b, OF assms(3) b(2,3)])
  show ?thesis
    unfolding tryDirect_def assms(1) sum.case b(1)
    by (rule inferOverStream_told[OF _ h(2,3), where body = "sent_body (provider req (metadata_context req))"])
      (simp_all add: h(1))
qed

text \<open>The proxy of a bootstrap peer is transparent: the client is told the same.\<close>

lemma tryProxy_delivers:
  assumes "dial k ProxyProtocol bp = Inr (\<lambda>b. Inr (proxy_stream lib wire dialTarget b))"
    and "dialTarget pid = Inr (\<lambda>b. Inr (infer_stream wire provider b))"
    and "proxy_codec wire \<lparr>px_TargetPeerID = lp_string lib pid, px_Request = req\<rparr>"
    and "request_codec wire req" "header_codec wire (sent_header (provider req (metadata_context req)))"
    and "lp_decode lib (lp_string lib pid) = Inr pid" "lp_string lib pid \<noteq> []" "trim_space (lp_string lib pid) = lp_string lib pid"
  shows "tryProxy lib wire dial k bp pid req = told wire (provider req (metadata_context req))"
proof -
  let ?r = "provider req (metadata_context req)"
  obtain q where q: "enc_proxy wire \<lparr>px_TargetPeerID = lp_string lib pid, px_Request = req\<rparr> = Inr q" "line_ok q"
    "dec_proxy wire q = Some \<lparr>px_TargetPeerID = lp_string lib pid, px_Request = req\<rparr>"
    using assms(3) by (auto simp: proxy_codec_def)
  obtain b where b: "enc_request wire req = Inr b" "line_ok b" "dec_request wire b = Some req"
    using assms(4) by (auto simp: request_codec_def)
  obtain h where h: "infer_stream wire provider (b @ [nl]) = h @ nl # sent_body ?r"
    "line_ok h" "dec_header wire h = Inr (sent_header ?r)"
    by (rule infer_stream_answer[where wire = wire and provider = provider and req = req and b = b, OF assms(5) b(2,3)])
  obtain g where g: "writeInferHeader wire (sent_header ?r) = Inr (g @ [nl])" "line_ok g" "dec_header wire g = Inr (sent_header ?r)"
    by (rule header_bytes_ok[OF assms(5)])
  have "proxy_stream lib wire dialTarget (q @ [nl]) =
      g @ nl # (if ih_StatusCode (sent_header ?r) \<ge> 400 then [] else sent_body ?r)"
    using line_ok_read[OF q(2), of "[]"] line_ok_read[OF h(2), of "sent_body ?r"] assms(6-8)
    by (simp add: proxy_stream_def q b assms(2) h g)
  then show ?thesis
    unfolding tryProxy_def assms(1) sum.case q(1)
    by (intro inferOverStream_told[OF _ g(2,3),
          where body = "if ih_StatusCode (sent_header ?r) \<ge> 400 then [] else sent_body ?r"]) simp_all
qed

section \<open>Routes\<close>

text \<open>A cached route names a way that has worked: directly, or by a bootstrap peer that is neither
  the node itself nor the target.\<close>

definition route_ok :: "Libp2pLib \<Rightarrow> Libp2pNode \<Rightarrow> string \<Rightarrow> bool" where
  "route_ok lib node route = (route = ''direct'' \<or>
     (\<exists>bp\<in>set (ln_bootstrapPeers node). ai_ID bp \<noteq> [] \<and> ai_ID bp \<noteq> ln_ID node \<and> route = ''proxy:'' @ lp_string lib (ai_ID bp)))"

definition routes_ok :: "Libp2pLib \<Rightarrow> Libp2pNode \<Rightarrow> Libp2pGatewayClient \<Rightarrow> bool" where
  "routes_ok lib node c = (\<forall>p route. getRoute p c = Some route \<longrightarrow> route_ok lib node route)"

lemma BootstrapPeers_eq [simp]: "BootstrapPeers n = ln_bootstrapPeers n"
  unfolding BootstrapPeers_def by (rule map_idI) (rename_tac ai, case_tac ai, simp)

lemma getRoute_set: "getRoute q (setRoute p r c) = (if q = p then Some r else getRoute q c)"
  by (simp add: getRoute_def setRoute_def update_conv')

lemma routes_ok_set: "routes_ok lib node c \<Longrightarrow> route_ok lib node r \<Longrightarrow> routes_ok lib node (setRoute p r c)"
  by (auto simp: routes_ok_def getRoute_set)

lemma try_bootstraps_routes:
  assumes "try_bootstraps lib wire dial (ln_ID node) pid req k le bps c = (r, c')"
    and "set bps \<subseteq> set (ln_bootstrapPeers node)" "routes_ok lib node c"
  shows "routes_ok lib node c'"
  using assms
proof (induction bps arbitrary: k le)
  case (Cons bp bps)
  show ?case
  proof (cases "ai_ID bp = [] \<or> ai_ID bp = ln_ID node \<or> ai_ID bp = pid")
    case True
    then show ?thesis using Cons by auto
  next
    case False
    then show ?thesis
      using Cons by (cases "tryProxy lib wire dial k (ai_ID bp) pid req") (auto intro!: routes_ok_set simp: route_ok_def)
  qed
qed simp

text \<open>C20: Every route the client has cached is one that can be used: directly, or by the proxy of a
  configured bootstrap peer that is not the node itself; no request, however it ends, breaks
  this.\<close>

theorem route_cache_invariant:
  assumes "Libp2pGateway_Infer lib wire dial node url req pc c = (r, c')" "routes_ok lib node c"
  shows "routes_ok lib node c'"
  using assms
  by (auto simp: Libp2pGateway_Infer_def Let_def route_ok_def split: sum.splits option.splits
      intro: try_bootstraps_routes routes_ok_set)

section \<open>The ways to a provider\<close>

text \<open>With no cached route and a provider that can be dialled, the client is told what the provider
  answered to the request with the caller's identity, the provider saw exactly that identity, and
  the direct route is remembered.\<close>

theorem direct_delivery:
  assumes pid: "parsePeerIDFromGateway lib url = Inr pid" "getRoute (lp_string lib pid) c = None"
    and dial: "dial 1 InferProtocol pid = Inr (\<lambda>b. Inr (infer_stream wire provider b))"
    and wire: "request_codec wire (with_context pc req)" "header_codec wire (sent_header (provider (with_context pc req) pc))"
    and ids: "pc_ClientPeerID pc \<noteq> [] \<or> metadata_get req HeaderClientPeerID = []"
      "pc_ClientName pc \<noteq> [] \<or> metadata_get req HeaderClientName = []"
    and ans: "told wire (provider (with_context pc req) pc) = Inr res"
  shows "Libp2pGateway_Infer lib wire dial node url req pc c = (Inr res, setRoute (lp_string lib pid) ''direct'' c)"
  using assms tryDirect_delivers[where dial = dial and k = 1 and pid = pid and provider = provider, OF dial wire(1)]
  by (simp add: Libp2pGateway_Infer_def Let_def try_cached_def context_roundtrip)

lemma try_bootstraps_relay:
  assumes "\<And>b k. b \<in> set before \<Longrightarrow> \<exists>e. dial k ProxyProtocol (ai_ID b) = Inl e"
    and "ai_ID bp \<notin> {[], self, pid}" "\<And>k. tryProxy lib wire dial k (ai_ID bp) pid req = Inr res"
  shows "try_bootstraps lib wire dial self pid req k le (before @ bp # after) c =
    (Inr res, setRoute (lp_string lib pid) (''proxy:'' @ lp_string lib (ai_ID bp)) c)"
  using assms(1)
proof (induction before arbitrary: k le)
  case Nil
  then show ?case using assms(2,3) by simp
next
  case (Cons b before)
  obtain e where "dial k ProxyProtocol (ai_ID b) = Inl e" using Cons.prems[of b k] by auto
  then have "tryProxy lib wire dial k (ai_ID b) pid req = Inl e" by (simp add: tryProxy_def)
  then show ?case using Cons by simp
qed

text \<open>C19: When the provider cannot be dialled, the request reaches it through the first bootstrap peer
  that can be: the client is told the same as over a direct stream, the provider sees the caller's
  identity and not the relay's, and the relay is remembered.\<close>

theorem relay_delivery:
  assumes pid: "parsePeerIDFromGateway lib url = Inr pid" "getRoute (lp_string lib pid) c = None"
    and down: "dial 1 InferProtocol pid = Inl e"
    and boots: "ln_bootstrapPeers node = before @ bp # after" "ai_ID bp \<notin> {[], ln_ID node, pid}"
      "\<And>b k. b \<in> set before \<Longrightarrow> \<exists>e. dial k ProxyProtocol (ai_ID b) = Inl e"
    and relay: "\<And>k. dial k ProxyProtocol (ai_ID bp) = Inr (\<lambda>b. Inr (proxy_stream lib wire dialTarget b))"
      "dialTarget pid = Inr (\<lambda>b. Inr (infer_stream wire provider b))"
    and names: "lp_decode lib (lp_string lib pid) = Inr pid" "lp_string lib pid \<noteq> []"
      "trim_space (lp_string lib pid) = lp_string lib pid"
    and wire: "proxy_codec wire \<lparr>px_TargetPeerID = lp_string lib pid, px_Request = with_context pc req\<rparr>"
      "request_codec wire (with_context pc req)" "header_codec wire (sent_header (provider (with_context pc req) pc))"
    and ids: "pc_ClientPeerID pc \<noteq> [] \<or> metadata_get req HeaderClientPeerID = []"
      "pc_ClientName pc \<noteq> [] \<or> metadata_get req HeaderClientName = []"
    and ans: "told wire (provider (with_context pc req) pc) = Inr res"
  shows "Libp2pGateway_Infer lib wire dial node url req pc c =
    (Inr res, setRoute (lp_string lib pid) (''proxy:'' @ lp_string lib (ai_ID bp)) c)"
proof -
  have ctx: "metadata_context (with_context pc req) = pc" using ids by (rule context_roundtrip)
  have "tryProxy lib wire dial k (ai_ID bp) pid (with_context pc req) = Inr res" for k
    using tryProxy_delivers[where dial = dial, OF relay wire(1,2) _ names] wire(3) ans by (simp add: ctx)
  then show ?thesis
    using try_bootstraps_relay[of before dial bp "ln_ID node" pid, OF boots(3,2)] pid down
    by (simp add: Libp2pGateway_Infer_def Let_def try_cached_def tryDirect_def boots(1))
qed

section \<open>The three properties at work\<close>

definition demo_relay_lib :: Libp2pLib where
  "demo_relay_lib = \<lparr>lp_decode = Inr, lp_string = (\<lambda>s. s), lp_multiaddr = Inr, lp_p2paddr = (\<lambda>a. Inl (ErrText a)),
     lp_encapsulate = (\<lambda>a b. a @ b)\<rparr>"

definition demo_relay_node :: Libp2pNode where
  "demo_relay_node = \<lparr>ln_ID = ''me'', ln_bootstrapPeers = [\<lparr>ai_ID = ''b1'', ai_Addrs = []\<rparr>, \<lparr>ai_ID = ''b2'', ai_Addrs = []\<rparr>],
     ln_heartbeatTTL = 90 * second, ln_heartbeats = [], ln_registry = []\<rparr>"

definition demo_chat :: ChatCompletionRequest where
  "demo_chat = \<lparr>req_Model = ''m'', req_Messages = [], req_Stream = False, req_MaxTokens = 0,
     req_Requirements = no_requirements, req_Metadata = None\<rparr>"

definition demo_caller :: PeerContext where
  "demo_caller = \<lparr>pc_ClientPeerID = ''c'', pc_ClientName = ''n'', pc_PoWNonce = 7\<rparr>"

definition demo_reply :: InferenceResult where
  "demo_reply = \<lparr>ir_StatusCode = 200, ir_ContentType = ''t'', ir_Body = ''hi''\<rparr>"

definition demo_infer :: infer_handler where
  "demo_infer req pc = (if pc = demo_caller then Inr demo_reply else Inl ErrInvalidPoW)"

definition demo_wire :: Wire where
  "demo_wire =
     \<lparr>enc_request = (\<lambda>r. Inr ''q''), dec_request = (\<lambda>b. Some (with_context demo_caller demo_chat)),
      enc_header = (\<lambda>h. Inr ''h''), dec_header = (\<lambda>b. Inr (sent_header (Inr demo_reply))),
      enc_proxy = (\<lambda>p. Inr ''p''),
      dec_proxy = (\<lambda>b. Some \<lparr>px_TargetPeerID = ''p'', px_Request = with_context demo_caller demo_chat\<rparr>),
      format_only = (\<lambda>s. s)\<rparr>"

text \<open>A network in which \<open>up\<close> peers can be dialled for inference and \<open>b2\<close> alone as a relay.\<close>

definition demo_dial :: "bool \<Rightarrow> dialer" where
  "demo_dial up k proto pid =
     (if proto = InferProtocol \<and> up then Inr (\<lambda>b. Inr (infer_stream demo_wire demo_infer b))
      else if proto = ProxyProtocol \<and> pid = ''b2''
        then Inr (\<lambda>b. Inr (proxy_stream demo_relay_lib demo_wire (\<lambda>t. Inr (\<lambda>b. Inr (infer_stream demo_wire demo_infer b))) b))
      else Inl ErrNoPeers)"

lemma demo_lines: "line_ok ''q''" "line_ok ''h''" "line_ok ''p''" "trim_space ''p'' = ''p''"
  unfolding line_ok_def by code_simp+

lemma demo_parse: "parsePeerIDFromGateway demo_relay_lib ''libp2p://p'' = Inr ''p''"
  by code_simp

lemma demo_sent: "sent_header (demo_infer r demo_caller) = sent_header (Inr demo_reply)" "demo_infer r demo_caller = Inr demo_reply"
  by (simp_all add: demo_infer_def)

lemma demo_codecs:
  "request_codec demo_wire (with_context demo_caller demo_chat)"
  "header_codec demo_wire (sent_header (demo_infer r demo_caller))"
  "proxy_codec demo_wire \<lparr>px_TargetPeerID = ''p'', px_Request = with_context demo_caller demo_chat\<rparr>"
  unfolding demo_sent by (simp_all add: request_codec_def header_codec_def proxy_codec_def demo_wire_def demo_lines)

lemma demo_told:
  "told demo_wire (demo_infer r demo_caller) = Inr \<lparr>gr_StatusCode = 200, gr_ContentType = ''t'', gr_Body = ''hi''\<rparr>"
  unfolding demo_sent by (simp add: told_def demo_reply_def ok_status_def)

theorem direct_delivery_witness:
  "Libp2pGateway_Infer demo_relay_lib demo_wire (demo_dial True) demo_relay_node ''libp2p://p'' demo_chat demo_caller \<lparr>gc_routes = []\<rparr>
    = (Inr \<lparr>gr_StatusCode = 200, gr_ContentType = ''t'', gr_Body = ''hi''\<rparr>, setRoute ''p'' ''direct'' \<lparr>gc_routes = []\<rparr>)"
proof -
  have s: "lp_string demo_relay_lib ''p'' = ''p''" by (simp add: demo_relay_lib_def)
  show ?thesis
    by (rule direct_delivery[where pid = "''p''" and lib = demo_relay_lib and provider = demo_infer, unfolded s])
      (simp_all add: demo_parse getRoute_def demo_dial_def demo_codecs demo_told, simp_all add: demo_caller_def)
qed

theorem relay_delivery_witness:
  "Libp2pGateway_Infer demo_relay_lib demo_wire (demo_dial False) demo_relay_node ''libp2p://p'' demo_chat demo_caller \<lparr>gc_routes = []\<rparr>
    = (Inr \<lparr>gr_StatusCode = 200, gr_ContentType = ''t'', gr_Body = ''hi''\<rparr>, setRoute ''p'' ''proxy:b2'' \<lparr>gc_routes = []\<rparr>)"
proof -
  have s: "lp_string demo_relay_lib x = x" for x by (simp add: demo_relay_lib_def)
  have "Libp2pGateway_Infer demo_relay_lib demo_wire (demo_dial False) demo_relay_node ''libp2p://p'' demo_chat demo_caller \<lparr>gc_routes = []\<rparr>
    = (Inr \<lparr>gr_StatusCode = 200, gr_ContentType = ''t'', gr_Body = ''hi''\<rparr>,
       setRoute ''p'' (''proxy:'' @ ai_ID \<lparr>ai_ID = ''b2'', ai_Addrs = []\<rparr>) \<lparr>gc_routes = []\<rparr>)"
    by (rule relay_delivery[where pid = "''p''" and lib = demo_relay_lib and provider = demo_infer and e = ErrNoPeers
          and dialTarget = "\<lambda>t. Inr (\<lambda>b. Inr (infer_stream demo_wire demo_infer b))"
          and before = "[\<lparr>ai_ID = ''b1'', ai_Addrs = []\<rparr>]" and after = "[]", unfolded s])
      (simp_all add: demo_parse getRoute_def demo_dial_def demo_codecs demo_told demo_lines demo_relay_node_def,
       simp_all add: demo_caller_def demo_relay_lib_def)
  then show ?thesis by simp
qed

theorem route_cache_invariant_witness:
  "routes_ok demo_relay_lib demo_relay_node (snd (Libp2pGateway_Infer demo_relay_lib demo_wire (demo_dial False)
    demo_relay_node ''libp2p://p'' demo_chat demo_caller \<lparr>gc_routes = []\<rparr>))"
  by (rule route_cache_invariant[OF surjective_pairing]) (simp add: routes_ok_def getRoute_def)

section \<open>Announcing\<close>

lemma announce_outcome:
  "AnnounceRegistry wire (Inr (fst (announce_answer t1 t2 (Some cap) n))) = None \<longleftrightarrow> trim_space (PeerID cap) \<noteq> []"
  by (auto simp: AnnounceRegistry_def announce_answer_def)

lemma QueryCapability_answer [simp]: "QueryCapability wire (Inr (capability_answer d)) = Inr d"
  by (simp add: QueryCapability_def capability_answer_def)

lemma QueryRegistry_answer:
  "QueryRegistry wire (Inr (fst (registry_answer rng now n))) = Inr (fst (RegistryCapabilities rng now n))"
  by (simp add: QueryRegistry_def registry_answer_def split: prod.splits)

end
