(* ===== verification/Api.thy ===== *)
theory Api
  imports Gateway
begin

text \<open>
  The HTTP server (\<^verbatim>\<open>internal/api/server.go\<close>): the handlers of a client node and of a provider
  node, as functions from the request (and the services' state) to the response. Decoders and
  encoders of \<open>encoding/json\<close> are arguments; header keys are in canonical form. What \<open>net/http\<close> makes
  of a request and of an answer on the way between two programs is written out: values of headers
  that survive it, bodies that are sent, the detection of a content type that was not set (an argument).
\<close>

section \<open>Requests and responses\<close>

record HttpIn =
  hi_Method :: string
  hi_Path :: string
  hi_Header :: "(string, string) gomap"
  hi_Body :: string

text \<open>\<open>ho_ContentType\<close> is \<open>None\<close> when the handler sets none (the server then detects one).\<close>

record HttpOut =
  ho_Status :: int
  ho_ContentType :: "string option"
  ho_Body :: string

definition http_Error :: "string \<Rightarrow> int \<Rightarrow> HttpOut" where
  "http_Error msg code = \<lparr>ho_Status = code, ho_ContentType = Some ''text/plain; charset=utf-8'', ho_Body = msg @ [nl]\<rparr>"

definition json_reply :: "string \<Rightarrow> HttpOut" where
  "json_reply b = \<lparr>ho_Status = 200, ho_ContentType = Some ''application/json'', ho_Body = b\<rparr>"

definition method_not_allowed :: HttpOut where
  "method_not_allowed = http_Error ''method not allowed'' 405"

definition relayResponse :: "InferenceResult \<Rightarrow> HttpOut" where
  "relayResponse res =
     \<lparr>ho_Status = (if ir_StatusCode res = 0 then 200 else ir_StatusCode res),
      ho_ContentType = (if ir_ContentType res \<noteq> [] then Some (ir_ContentType res) else None),
      ho_Body = ir_Body res\<rparr>"

section \<open>Client handlers\<close>

definition HandleClientInference ::
  "(string \<Rightarrow> ChatCompletionRequest option) \<Rightarrow> (ChatCompletionRequest \<Rightarrow> 's \<Rightarrow> (go_error + InferenceResult) \<times> 's)
    \<Rightarrow> HttpIn \<Rightarrow> 's \<Rightarrow> HttpOut \<times> 's" where
  "HandleClientInference decode inferer r s =
     (if hi_Method r \<noteq> ''POST'' then (method_not_allowed, s)
      else case decode (hi_Body r) of
          None \<Rightarrow> (http_Error ''invalid json'' 400, s)
        | Some req \<Rightarrow>
            if req_Model req = [] then (http_Error ''model required'' 400, s)
            else case inferer req s of
                (Inl e, s) \<Rightarrow> (http_Error (''inference failed: '' @ error_text e) 502, s)
              | (Inr res, s) \<Rightarrow> (relayResponse res, s))"

definition HandleClientPeerList ::
  "(CapabilityDocument list \<Rightarrow> string) \<Rightarrow> go_error + CapabilityDocument list \<Rightarrow> HttpIn \<Rightarrow> HttpOut" where
  "HandleClientPeerList encode peers r =
     (if hi_Method r \<noteq> ''GET'' then method_not_allowed
      else case peers of Inl e \<Rightarrow> http_Error (error_text e) 502 | Inr ps \<Rightarrow> json_reply (encode ps))"

definition HandleRouting ::
  "(RoutingSettings \<Rightarrow> string) \<Rightarrow> (string \<Rightarrow> RoutingSettings option) \<Rightarrow> HttpIn \<Rightarrow> ClientService \<Rightarrow> HttpOut \<times> ClientService" where
  "HandleRouting encode decode r s =
     (if hi_Method r = ''GET'' then (json_reply (encode (GetRoutingSettings s)), s)
      else if hi_Method r = ''PUT'' then
        (case decode (hi_Body r) of
           None \<Rightarrow> (http_Error ''invalid json'' 400, s)
         | Some in' \<Rightarrow> let s = UpdateRoutingSettings in' s in (json_reply (encode (GetRoutingSettings s)), s))
      else (method_not_allowed, s))"

definition select_path :: string where "select_path = ''/v1/mesh/select/''"

definition HandleSelect :: "(RoutingSettings \<Rightarrow> string) \<Rightarrow> HttpIn \<Rightarrow> ClientService \<Rightarrow> HttpOut \<times> ClientService" where
  "HandleSelect encode r s =
     (if hi_Method r \<noteq> ''POST'' then (method_not_allowed, s)
      else let peerID = trim_space (trim_prefix select_path (hi_Path r)) in
        if peerID = [] then (http_Error ''peer id required'' 400, s)
        else let s = SelectPeerManual peerID s in (json_reply (encode (GetRoutingSettings s)), s))"

section \<open>Provider handlers\<close>

definition header_context :: "HttpIn \<Rightarrow> PeerContext" where
  "header_context r =
     \<lparr>pc_ClientPeerID = header_get (hi_Header r) HeaderClientPeerID,
      pc_ClientName = header_get (hi_Header r) HeaderClientName,
      pc_PoWNonce = parse_nonce (header_get (hi_Header r) HeaderPoWNonce)\<rparr>"

definition provider_status :: "go_error \<Rightarrow> int" where
  "provider_status err =
     (let status = 429;
          status = (if errors_is err ErrTokensExceeded then 400 else status);
          status = (if errors_is err ErrOutsideServingWindow \<or> errors_is err ErrHostBusy then 503 else status);
          status = (if errors_is err ErrInvalidPoW then 403 else status);
          status = (if errors_is err ErrPeerReputationLow then 429 else status);
          status = (if \<not> errors_is err ErrRateLimited \<and> \<not> errors_is err ErrTooManyInFlight
                       \<and> \<not> errors_is err ErrTokensExceeded \<and> \<not> errors_is err ErrOutsideServingWindow
                       \<and> \<not> errors_is err ErrHostBusy \<and> \<not> errors_is err ErrInvalidPoW
                       \<and> \<not> errors_is err ErrPeerReputationLow then 502 else status)
      in status)"

definition HandleProviderInference ::
  "(string \<Rightarrow> ChatCompletionRequest option)
    \<Rightarrow> (ChatCompletionRequest \<Rightarrow> PeerContext \<Rightarrow> 's \<Rightarrow> (go_error + InferenceResult) \<times> 's)
    \<Rightarrow> HttpIn \<Rightarrow> 's \<Rightarrow> HttpOut \<times> 's" where
  "HandleProviderInference decode provider r s =
     (if hi_Method r \<noteq> ''POST'' then (method_not_allowed, s)
      else case decode (hi_Body r) of
          None \<Rightarrow> (http_Error ''invalid json'' 400, s)
        | Some req \<Rightarrow>
            if req_Model req = [] then (http_Error ''model required'' 400, s)
            else case provider req (header_context r) s of
                (Inl e, s) \<Rightarrow> (http_Error (error_text e) (provider_status e), s)
              | (Inr res, s) \<Rightarrow> (relayResponse res, s))"

definition HandleCapabilities :: "(CapabilityDocument \<Rightarrow> string) \<Rightarrow> CapabilityDocument \<Rightarrow> HttpIn \<Rightarrow> HttpOut" where
  "HandleCapabilities encode snapshot r =
     (if hi_Method r \<noteq> ''GET'' then method_not_allowed else json_reply (encode snapshot))"

section \<open>The client node's routes\<close>

text \<open>The handlers a client node registers, by path (\<open>ServeMux\<close> on clean paths; its redirect of the
  select path without the final slash is left out).\<close>

definition client_node ::
  "(string \<Rightarrow> ChatCompletionRequest option) \<Rightarrow> (ChatCompletionRequest \<Rightarrow> ClientService \<Rightarrow> (go_error + InferenceResult) \<times> ClientService)
    \<Rightarrow> (CapabilityDocument list \<Rightarrow> string) \<Rightarrow> (ClientService \<Rightarrow> go_error + CapabilityDocument list)
    \<Rightarrow> (RoutingSettings \<Rightarrow> string) \<Rightarrow> (string \<Rightarrow> RoutingSettings option) \<Rightarrow> HttpIn \<Rightarrow> ClientService \<Rightarrow> HttpOut \<times> ClientService" where
  "client_node decode inferer encPeers peers encR decR r s =
     (if hi_Path r = ''/v1/chat/completions'' then HandleClientInference decode inferer r s
      else if hi_Path r = ''/v1/mesh/peers'' then (HandleClientPeerList encPeers (peers s) r, s)
      else if hi_Path r = ''/v1/mesh/routing'' then HandleRouting encR decR r s
      else if has_prefix select_path (hi_Path r) then HandleSelect encR r s
      else (http_Error ''404 page not found'' 404, s))"

section \<open>A provider node's routes\<close>

definition provider_node ::
  "(string \<Rightarrow> ChatCompletionRequest option)
    \<Rightarrow> (ChatCompletionRequest \<Rightarrow> PeerContext \<Rightarrow> 's \<Rightarrow> (go_error + InferenceResult) \<times> 's)
    \<Rightarrow> (CapabilityDocument \<Rightarrow> string) \<Rightarrow> ('s \<Rightarrow> CapabilityDocument) \<Rightarrow> HttpIn \<Rightarrow> 's \<Rightarrow> HttpOut \<times> 's" where
  "provider_node decode provider encode snapshot r s =
     (if hi_Path r = ''/capabilities'' then (HandleCapabilities encode (snapshot s) r, s)
      else if hi_Path r = ''/v1/chat/completions'' then HandleProviderInference decode provider r s
      else (http_Error ''404 page not found'' 404, s))"

text \<open>Over libp2p the HTTP server of a provider shows its document only.\<close>

definition admin_node :: "(CapabilityDocument \<Rightarrow> string) \<Rightarrow> CapabilityDocument \<Rightarrow> HttpIn \<Rightarrow> HttpOut" where
  "admin_node encode snapshot r =
     (if hi_Path r = ''/capabilities'' then HandleCapabilities encode snapshot r else http_Error ''404 page not found'' 404)"

text \<open>\<open>withTimeout\<close>; \<open>limit\<close> is \<open>http.TimeoutHandler\<close>. The server is started without a timeout.\<close>

definition withTimeout :: "('h \<Rightarrow> duration \<Rightarrow> 'h) \<Rightarrow> 'h \<Rightarrow> duration \<Rightarrow> 'h" where
  "withTimeout limit next' timeout = (if timeout \<le> 0 then next' else limit next' timeout)"

definition served_handler :: "('h \<Rightarrow> duration \<Rightarrow> 'h) \<Rightarrow> 'h \<Rightarrow> 'h" where
  "served_handler limit mux = withTimeout limit mux 0"

lemma served_handler_mux: "served_handler limit mux = mux"
  by (simp add: served_handler_def withTimeout_def)

section \<open>Statuses\<close>

text \<open>The error at the end of the chain of wrappers decides.\<close>

fun root_cause :: "go_error \<Rightarrow> go_error" where
  "root_cause (ErrWrap p e) = root_cause e"
| "root_cause e = e"

fun is_wrapped :: "go_error \<Rightarrow> bool" where
  "is_wrapped (ErrWrap p e) = True"
| "is_wrapped e = False"

lemma errors_is_root: "\<not> is_wrapped t \<Longrightarrow> errors_is e t \<longleftrightarrow> root_cause e = t"
  by (induction e) auto

definition status_table :: "go_error \<Rightarrow> int" where
  "status_table e = (case root_cause e of
     ErrTokensExceeded \<Rightarrow> 400 | ErrOutsideServingWindow \<Rightarrow> 503 | ErrHostBusy \<Rightarrow> 503
   | ErrInvalidPoW \<Rightarrow> 403 | ErrPeerReputationLow \<Rightarrow> 429 | ErrRateLimited \<Rightarrow> 429
   | ErrTooManyInFlight \<Rightarrow> 429 | _ \<Rightarrow> 502)"

lemma provider_status_table: "provider_status e = status_table e"
  unfolding provider_status_def status_table_def Let_def
  by (cases "root_cause e") (simp_all add: errors_is_root)

lemma provider_status_error: "400 \<le> provider_status e" "provider_status e \<noteq> 200"
  unfolding provider_status_table status_table_def by (simp_all split: go_error.splits)

section \<open>Identity survives the headers\<close>

lemma content_type_other [simp]:
  "''Content-Type'' \<noteq> HeaderClientPeerID" "''Content-Type'' \<noteq> HeaderClientName" "''Content-Type'' \<noteq> HeaderPoWNonce"
  "HeaderClientPeerID \<noteq> ''Content-Type''" "HeaderClientName \<noteq> ''Content-Type''" "HeaderPoWNonce \<noteq> ''Content-Type''"
  by (simp_all add: HeaderClientPeerID_def HeaderClientName_def HeaderPoWNonce_def)

lemma header_context_roundtrip: "hi_Header r = context_headers pc \<Longrightarrow> header_context r = pc"
  by (cases "pc_ClientPeerID pc = []"; cases "pc_ClientName pc = []")
    (simp_all add: header_context_def context_headers_def Let_def header_get_def update_conv' json_headers_def parse_nonce_dec)

section \<open>Client and provider over HTTP\<close>

text \<open>
  What \<open>net/http\<close> makes of a request and of a handler's answer. A request of this program that can be
  sent is a \<open>GET\<close> without a body or a \<open>POST\<close>, and its header values are ones that arrive as they are;
  of the header, the fields that the handlers read.
\<close>

definition header_ok :: "string \<Rightarrow> bool" where
  "header_ok v = (list_all (\<lambda>c. 0x20 \<le> (of_char c :: nat) \<and> of_char c \<noteq> (0x7F :: nat)) v
     \<and> (v \<noteq> [] \<longrightarrow> hd v \<noteq> CHR '' '' \<and> last v \<noteq> CHR '' ''))"

definition sendable :: "HttpRequest \<Rightarrow> bool" where
  "sendable q = ((hq_Method q = ''POST'' \<or> hq_Method q = ''PUT'' \<or> hq_Method q = ''GET'' \<and> hq_Body q = [])
     \<and> list_all (header_ok \<circ> snd) (hq_Header q))"

text \<open>A request to \<open>url\<close> arrives at the handler with the path \<open>p\<close>.\<close>

definition posted :: "string \<Rightarrow> HttpRequest \<Rightarrow> HttpIn" where
  "posted p q = \<lparr>hi_Method = hq_Method q, hi_Path = p, hi_Header = hq_Header q, hi_Body = hq_Body q\<rparr>"

text \<open>An answer that \<open>ResponseWriter\<close> sends as it is: a final status of three digits, and a content type
  that can be a header value. No body is sent with 204 and 304, no content type with 304; when the
  handler set none, the server sends the type it detects in what is first written of the body
  (\<open>sniff\<close>), if anything is written.\<close>

definition answerable :: "HttpOut \<Rightarrow> bool" where
  "answerable o' = (200 \<le> ho_Status o' \<and> ho_Status o' \<le> 999 \<and> (\<forall>t. ho_ContentType o' = Some t \<longrightarrow> header_ok t))"

definition body_of :: "int \<Rightarrow> string \<Rightarrow> string" where
  "body_of status b = (if status = 204 \<or> status = 304 then [] else b)"

definition type_of :: "(string \<Rightarrow> string) \<Rightarrow> int \<Rightarrow> string option \<Rightarrow> string \<Rightarrow> string" where
  "type_of sniff status ct b =
     (if status = 304 then [] else case ct of Some t \<Rightarrow> t | None \<Rightarrow> if body_of status b = [] then [] else sniff b)"

definition response_of :: "(string \<Rightarrow> string) \<Rightarrow> HttpOut \<Rightarrow> HttpResponse" where
  "response_of sniff o' = \<lparr>hr_StatusCode = ho_Status o',
     hr_ContentType = type_of sniff (ho_Status o') (ho_ContentType o') (ho_Body o'),
     hr_Body = body_of (ho_Status o') (ho_Body o')\<rparr>"

text \<open>A node as the network of a client, with its state \<open>w\<close>; without one, as the network of an \<open>HttpEnv\<close>.\<close>

definition reaches_on ::
  "(string \<Rightarrow> string) \<Rightarrow> (string \<Rightarrow> go_error option) \<Rightarrow> (HttpRequest \<Rightarrow> 'w \<Rightarrow> (go_error + HttpResponse) \<times> 'w)
    \<Rightarrow> string \<Rightarrow> string \<Rightarrow> (HttpIn \<Rightarrow> 'w \<Rightarrow> HttpOut \<times> 'w) \<Rightarrow> bool" where
  "reaches_on sniff refused net url p handler =
     (refused url = None
      \<and> (\<forall>q w. hq_URL q = url \<and> sendable q \<and> answerable (fst (handler (posted p q) w))
           \<longrightarrow> net q w = (Inr (response_of sniff (fst (handler (posted p q) w))), snd (handler (posted p q) w))))"

definition reaches :: "(string \<Rightarrow> string) \<Rightarrow> HttpEnv \<Rightarrow> string \<Rightarrow> string \<Rightarrow> (HttpIn \<Rightarrow> HttpOut) \<Rightarrow> bool" where
  "reaches sniff env url p handler =
     reaches_on sniff (url_error env) (\<lambda>q w. (round_trip env q, w)) url p (\<lambda>h (w :: unit). (handler h, w))"

lemma reaches_iff:
  "reaches sniff env url p handler \<longleftrightarrow> url_error env url = None
     \<and> (\<forall>q. hq_URL q = url \<and> sendable q \<and> answerable (handler (posted p q)) \<longrightarrow> round_trip env q = Inr (response_of sniff (handler (posted p q))))"
  by (simp add: reaches_def reaches_on_def)

lemma reaches_provider:
  "reaches sniff env url ''/v1/chat/completions'' (\<lambda>h. fst (provider_node decode provider encode snapshot h s))
    = reaches sniff env url ''/v1/chat/completions'' (\<lambda>h. fst (HandleProviderInference decode provider h s))"
  by (simp add: reaches_iff provider_node_def posted_def)

lemma reaches_on_provider:
  "reaches_on sniff refused net url ''/v1/chat/completions'' (provider_node decode provider encode snapshot)
    = reaches_on sniff refused net url ''/v1/chat/completions'' (HandleProviderInference decode provider)"
  by (simp add: reaches_on_def provider_node_def posted_def)

lemma header_ok_digits: "list_all is_digit v \<Longrightarrow> header_ok v"
proof (cases "v = []")
  case False
  assume d: "list_all is_digit v"
  then have "is_digit (hd v)" "is_digit (last v)" using False by (auto simp: list_all_iff)
  then show ?thesis using d by (auto simp: header_ok_def is_digit_def list_all_iff)
qed (simp add: header_ok_def)

lemma header_ok_json [simp]: "header_ok ''application/json''"
  by (simp add: header_ok_def)

lemma json_headers_ok: "list_all (header_ok \<circ> snd) json_headers"
  by (simp add: json_headers_def)

text \<open>The identity a caller can send.\<close>

definition context_ok :: "PeerContext \<Rightarrow> bool" where
  "context_ok pc = (header_ok (pc_ClientPeerID pc) \<and> header_ok (pc_ClientName pc))"

lemma context_headers_ok: "context_ok pc \<Longrightarrow> list_all (header_ok \<circ> snd) (context_headers pc)"
  using header_ok_digits[OF nat_dec_digits]
  by (simp add: context_headers_def context_ok_def json_headers_def Let_def)

text \<open>What a provider answers that HTTP can carry: error texts always can.\<close>

definition carried :: "go_error + InferenceResult \<Rightarrow> bool" where
  "carried r = (case r of Inl e \<Rightarrow> True
     | Inr res \<Rightarrow> 200 \<le> ok_status (ir_StatusCode res) \<and> ok_status (ir_StatusCode res) \<le> 999 \<and> header_ok (ir_ContentType res))"

text \<open>What the gateway client makes of the provider's answer.\<close>

definition http_told :: "(string \<Rightarrow> string) \<Rightarrow> go_error + InferenceResult \<Rightarrow> go_error + GatewayResponse" where
  "http_told sniff r = (case r of
     Inl e \<Rightarrow> Inl (ErrText (''gateway status '' @ int_dec (provider_status e) @ '': '' @ take 65536 (error_text e @ [nl])))
   | Inr res \<Rightarrow>
       let status = ok_status (ir_StatusCode res);
           ct = (if ir_ContentType res \<noteq> [] then Some (ir_ContentType res) else None) in
       if status \<ge> 400
       then Inl (ErrText (''gateway status '' @ int_dec status @ '': '' @ take 65536 (ir_Body res)))
       else Inr \<lparr>gr_StatusCode = status, gr_ContentType = type_of sniff status ct (ir_Body res), gr_Body = body_of status (ir_Body res)\<rparr>)"

text \<open>Posting a request to a provider node over HTTP is calling its provider, once, with exactly the
  caller's identity and nonce: what the provider did is what the network has changed.\<close>

lemma provider_status_carried: "answerable (http_Error t (provider_status e))"
proof -
  have "provider_status e \<le> 999" unfolding provider_status_table status_table_def by (simp split: go_error.splits)
  then show ?thesis using provider_status_error(1)[of e] by (simp add: answerable_def http_Error_def header_ok_def)
qed

lemma HTTPGateway_posts:
  assumes "enc_request wire req = Inr b" "decode b = Some req" "req_Model req \<noteq> []" "context_ok pc"
    and net: "reaches_on sniff refused net (trim_right_char (CHR 0x2F) url @ ''/v1/chat/completions'') p
      (HandleProviderInference decode provider)"
    and ok: "carried (fst (provider req pc w))"
  shows "HTTPGateway_on refused net wire url req pc w = (http_told sniff (fst (provider req pc w)), snd (provider req pc w))"
proof -
  define q where "q = \<lparr>hq_Method = ''POST'', hq_URL = trim_right_char (CHR 0x2F) url @ ''/v1/chat/completions'',
    hq_Header = context_headers pc, hq_Body = b\<rparr>"
  have hc: "header_context (posted p q) = pc" by (rule header_context_roundtrip) (simp add: posted_def q_def)
  obtain r w' where pr: "provider req pc w = (r, w')" by force
  have qf: "hi_Method (posted p q) = ''POST''" "hi_Body (posted p q) = b" by (simp_all add: posted_def q_def)
  have out: "HandleProviderInference decode provider (posted p q) w =
      (case r of Inl e \<Rightarrow> http_Error (error_text e) (provider_status e) | Inr res \<Rightarrow> relayResponse res, w')"
    using assms(2,3) qf by (cases r) (simp_all add: HandleProviderInference_def hc pr)
  have "answerable (case r of Inl e \<Rightarrow> http_Error (error_text e) (provider_status e) | Inr res \<Rightarrow> relayResponse res)"
    using ok provider_status_carried by (cases r) (simp_all add: pr carried_def, simp add: answerable_def relayResponse_def ok_status_def)
  then have "answerable (fst (HandleProviderInference decode provider (posted p q) w))" by (simp add: out)
  moreover have "sendable q" using context_headers_ok[OF assms(4)] by (simp add: sendable_def q_def)
  moreover have url: "hq_URL q = trim_right_char (CHR 0x2F) url @ ''/v1/chat/completions''" by (simp add: q_def)
  ultimately have u: "refused (trim_right_char (CHR 0x2F) url @ ''/v1/chat/completions'') = None"
    and rt: "net q w = (Inr (response_of sniff (case r of Inl e \<Rightarrow> http_Error (error_text e) (provider_status e) | Inr res \<Rightarrow> relayResponse res)), w')"
    using net[unfolded reaches_on_def] out by (blast, metis fst_conv snd_conv url)
  have "HTTPGateway_on refused net wire url req pc w =
      (let resp = response_of sniff (case r of Inl e \<Rightarrow> http_Error (error_text e) (provider_status e) | Inr res \<Rightarrow> relayResponse res)
       in if hr_StatusCode resp \<ge> 400 then Inl (status_error ''gateway'' resp)
          else Inr \<lparr>gr_StatusCode = hr_StatusCode resp, gr_ContentType = hr_ContentType resp, gr_Body = hr_Body resp\<rparr>, w')"
    using assms(1) u rt[unfolded q_def] by (simp add: HTTPGateway_on_def Let_def)
  also have "\<dots> = (http_told sniff r, w')"
  proof (cases r)
    case (Inl e)
    have "body_of (provider_status e) t = t" for t
      using provider_status_error(1)[of e] by (simp add: body_of_def)
    then show ?thesis using Inl provider_status_error(1)[of e]
      by (simp add: http_told_def Let_def response_of_def http_Error_def status_error_def)
  next
    case (Inr res)
    then show ?thesis
      by (simp add: http_told_def Let_def response_of_def relayResponse_def status_error_def ok_status_def body_of_def)
  qed
  finally show ?thesis by (simp add: pr)
qed

text \<open>A provider whose state stands still.\<close>

definition frozen :: "(ChatCompletionRequest \<Rightarrow> PeerContext \<Rightarrow> 's \<Rightarrow> (go_error + InferenceResult) \<times> 's) \<Rightarrow> 's
    \<Rightarrow> ChatCompletionRequest \<Rightarrow> PeerContext \<Rightarrow> unit \<Rightarrow> (go_error + InferenceResult) \<times> unit" where
  "frozen provider s req pc w = (fst (provider req pc s), w)"

lemma reaches_frozen:
  "reaches sniff env url p (\<lambda>h. fst (HandleProviderInference decode provider h s)) \<longleftrightarrow>
     reaches_on sniff (url_error env) (\<lambda>q w. (round_trip env q, w)) url p (HandleProviderInference decode (frozen provider s))"
proof -
  have "(\<lambda>h w. (fst (HandleProviderInference decode provider h s), w)) = HandleProviderInference decode (frozen provider s)"
    by (auto simp: HandleProviderInference_def frozen_def fun_eq_iff split: option.split prod.split sum.split)
  then show ?thesis by (simp add: reaches_def)
qed

lemma HTTPGateway_delivers:
  assumes "enc_request wire req = Inr b" "decode b = Some req" "req_Model req \<noteq> []" "context_ok pc"
    and net: "reaches sniff env (trim_right_char (CHR 0x2F) url @ ''/v1/chat/completions'') p
      (\<lambda>h. fst (HandleProviderInference decode provider h s))"
    and ok: "carried (fst (provider req pc s))"
  shows "HTTPGateway_Infer env wire url req pc = http_told sniff (fst (provider req pc s))"
  using HTTPGateway_posts[OF assms(1-4) net[unfolded reaches_frozen], of "()"] ok by (simp add: HTTPGateway_Infer_def frozen_def)

definition demo_post :: ChatCompletionRequest where
  "demo_post = \<lparr>req_Model = ''m'', req_Messages = [], req_Stream = False, req_MaxTokens = 0,
     req_Requirements = no_requirements, req_Metadata = None\<rparr>"

definition demo_poster :: PeerContext where
  "demo_poster = \<lparr>pc_ClientPeerID = ''c'', pc_ClientName = [], pc_PoWNonce = 7\<rparr>"

text \<open>A provider that knows one caller, and counts its calls.\<close>

definition demo_service :: "ChatCompletionRequest \<Rightarrow> PeerContext \<Rightarrow> nat \<Rightarrow> (go_error + InferenceResult) \<times> nat" where
  "demo_service req pc n = (if pc = demo_poster \<and> n = 0
     then (Inr \<lparr>ir_StatusCode = 0, ir_ContentType = ''t'', ir_Body = ''hi''\<rparr>, 1) else (Inl ErrRateLimited, n))"

lemma HTTPGateway_delivers_demo:
  "HTTPGateway_Infer \<lparr>url_error = \<lambda>_. None, round_trip = (\<lambda>q. Inr (response_of id (fst
       (HandleProviderInference (\<lambda>_. Some demo_post) demo_service (posted [] q) 0))))\<rparr>
     (demo_wire\<lparr>enc_request := \<lambda>_. Inr ''q''\<rparr>) ''http://p/'' demo_post demo_poster
   = Inr \<lparr>gr_StatusCode = 200, gr_ContentType = ''t'', gr_Body = ''hi''\<rparr>"
  by (subst HTTPGateway_delivers[where b = "''q''" and decode = "\<lambda>_. Some demo_post" and provider = demo_service and s = 0 and p = "[]" and sniff = id])
    (simp_all add: reaches_iff demo_post_def demo_poster_def demo_service_def http_told_def ok_status_def carried_def context_ok_def
      header_ok_def type_of_def body_of_def)

section \<open>Only the right method changes anything\<close>

lemma handlers_refuse:
  "hi_Method r \<noteq> ''POST'' \<Longrightarrow> HandleClientInference dec inferer r s = (method_not_allowed, s)"
  "hi_Method r \<noteq> ''POST'' \<Longrightarrow> HandleProviderInference dec prov r s = (method_not_allowed, s)"
  "hi_Method r \<noteq> ''POST'' \<Longrightarrow> HandleSelect enc r c = (method_not_allowed, c)"
  "hi_Method r \<notin> {''GET'', ''PUT''} \<Longrightarrow> HandleRouting enc decS r c = (method_not_allowed, c)"
  by (simp_all add: HandleClientInference_def HandleProviderInference_def HandleSelect_def HandleRouting_def)

end
