(* ===== verification/Config.thy ===== *)
theory Config
  imports Types GoText Backend
begin

text \<open>
  The configuration (\<^verbatim>\<open>internal/config/config.go\<close>): its defaults, loading and saving, and
  \<open>ResolveAndValidate\<close>, which fills what is missing and rejects what is invalid. The host name,
  the home directory and the disk are arguments. A configuration is written and read field by field, under the
  keys of the struct's tags; what a codec (JSON or YAML) makes of such fields is an argument.
\<close>

section \<open>Paths\<close>

text \<open>\<open>filepath.Clean\<close> and \<open>filepath.Join\<close> on Unix paths; \<open>filepath.Ext\<close>.\<close>

fun clean_parts :: "bool \<Rightarrow> string list \<Rightarrow> string list \<Rightarrow> string list" where
  "clean_parts rooted acc [] = rev acc"
| "clean_parts rooted acc (p # ps) =
     (if p = [] \<or> p = ''.'' then clean_parts rooted acc ps
      else if p = ''..'' then
        (case acc of
           a # acc' \<Rightarrow> if a = ''..'' then clean_parts rooted (p # acc) ps else clean_parts rooted acc' ps
         | [] \<Rightarrow> if rooted then clean_parts rooted [] ps else clean_parts rooted [p] ps)
      else clean_parts rooted (p # acc) ps)"

definition path_clean :: "string \<Rightarrow> string" where
  "path_clean p =
     (let rooted = has_prefix ''/'' p;
          s = (if rooted then ''/'' else []) @ str_join ''/'' (clean_parts rooted [] (split_on (CHR 0x2F) p))
      in if s = [] then ''.'' else s)"

definition path_join :: "string list \<Rightarrow> string" where
  "path_join elems =
     (let es = filter (\<lambda>e. e \<noteq> []) elems in if es = [] then [] else path_clean (str_join ''/'' es))"

definition path_ext :: "string \<Rightarrow> string" where
  "path_ext p = (let base = last (split_on (CHR 0x2F) p) in
     if CHR ''.'' \<in> set base then CHR ''.'' # last (split_on (CHR ''.'') base) else [])"

section \<open>The record and its defaults\<close>

record Config =
  cfg_Mode :: string
  cfg_Transport :: string
  cfg_ClientName :: string
  cfg_ProviderName :: string
  cfg_IdentityFile :: string
  cfg_ClientAddr :: string
  cfg_ProviderAddr :: string
  cfg_ProviderPeerURLs :: "string list"
  cfg_BackendKind :: string
  cfg_BackendURL :: string
  cfg_PeerID :: string
  cfg_GPU :: string
  cfg_VRAMFreeMB :: int
  cfg_Models :: "string list"
  cfg_ModelSpecs :: "string list"
  cfg_AdvertiseURL :: string
  cfg_MaxInflight :: int
  cfg_RatePerSecond :: f64
  cfg_Burst :: int
  cfg_MaxTokensPerRequest :: int
  cfg_NightOnly :: bool
  cfg_NightStartHour :: int
  cfg_NightEndHour :: int
  cfg_IdleOnly :: bool
  cfg_MaxLoad1m :: f64
  cfg_PoWDifficulty :: int
  cfg_MinPeerReputation :: f64
  cfg_InitialCredits :: i64
  cfg_LANDiscovery :: bool
  cfg_LANListenAddr :: string
  cfg_LANBroadcastAddr :: string
  cfg_LANAnnounceInterval :: duration
  cfg_LANPeerTTL :: duration
  cfg_Libp2pListenAddrs :: "string list"
  cfg_Libp2pBootstrap :: "string list"
  cfg_Libp2pRendezvous :: string
  cfg_Libp2pAutoRelay :: bool
  cfg_Libp2pRelayService :: bool
  cfg_Libp2pNATPortMap :: bool
  cfg_Libp2pHolePunching :: bool
  cfg_RequestTimeout :: duration
  cfg_LogFile :: string
  cfg_RoutingPolicy :: string
  cfg_FavoritePeers :: "string list"
  cfg_BlockedPeers :: "string list"
  cfg_AllowedPeers :: "string list"
  cfg_StickyPeerTTL :: duration
  cfg_WeightLatency :: f64
  cfg_WeightQueueDepth :: f64
  cfg_WeightVRAMPressure :: f64
  cfg_WeightReliability :: f64
  cfg_WeightFavoriteBonus :: f64
  cfg_WeightKnownBonus :: f64

definition DefaultPath :: "string option \<Rightarrow> string" where
  "DefaultPath h = (case h of None \<Rightarrow> ''./infermeshai.config.yaml'' | Some d \<Rightarrow> path_join [d, ''.infermeshai'', ''config.yaml''])"

text \<open>\<open>hostname\<close> is what \<open>os.Hostname\<close> returns (empty on an error), \<open>homedir\<close> that of \<open>os.UserHomeDir\<close>.\<close>

definition default_host :: "string \<Rightarrow> string" where
  "default_host hostname = (let host = trim_space hostname in if host = [] then ''infermesh-node'' else host)"

definition default_home :: "string option \<Rightarrow> string" where
  "default_home homedir = (case homedir of None \<Rightarrow> ''.'' | Some h \<Rightarrow> if trim_space h = [] then ''.'' else h)"

definition DefaultConfig :: "string \<Rightarrow> string option \<Rightarrow> Config" where
  "DefaultConfig hostname homedir =
     (let host = default_host hostname; home = default_home homedir in
     \<lparr>cfg_Mode = ''both'',
      cfg_Transport = ''libp2p'',
      cfg_ClientName = host @ ''-client'',
      cfg_ProviderName = host @ ''-provider'',
      cfg_IdentityFile = path_join [home, ''.infermeshai'', ''infermeshd.identity.pem''],
      cfg_ClientAddr = '':5555'',
      cfg_ProviderAddr = '':7777'',
      cfg_ProviderPeerURLs = [],
      cfg_BackendKind = ''openai'',
      cfg_BackendURL = ''http://127.0.0.1:9000'',
      cfg_PeerID = [],
      cfg_GPU = ''mock-gpu'',
      cfg_VRAMFreeMB = 16000,
      cfg_Models = [],
      cfg_ModelSpecs = [],
      cfg_AdvertiseURL = [],
      cfg_MaxInflight = 4,
      cfg_RatePerSecond = Fin 20,
      cfg_Burst = 20,
      cfg_MaxTokensPerRequest = 0,
      cfg_NightOnly = False,
      cfg_NightStartHour = 22,
      cfg_NightEndHour = 6,
      cfg_IdleOnly = False,
      cfg_MaxLoad1m = round64 (8/10),
      cfg_PoWDifficulty = 0,
      cfg_MinPeerReputation = Fin 0,
      cfg_InitialCredits = 100,
      cfg_LANDiscovery = True,
      cfg_LANListenAddr = '':9559'',
      cfg_LANBroadcastAddr = ''255.255.255.255:9559'',
      cfg_LANAnnounceInterval = 3 * second,
      cfg_LANPeerTTL = 15 * second,
      cfg_Libp2pListenAddrs = [''/ip4/0.0.0.0/tcp/39001''],
      cfg_Libp2pBootstrap = [''/ip4/3.234.252.173/tcp/39001/p2p/12D3KooWFU1RPiGmvFcURiaph5GueGpvQ2VPkQfR2YQej6ogmpzg''],
      cfg_Libp2pRendezvous = ''infermesh-rendezvous'',
      cfg_Libp2pAutoRelay = True,
      cfg_Libp2pRelayService = False,
      cfg_Libp2pNATPortMap = True,
      cfg_Libp2pHolePunching = True,
      cfg_RequestTimeout = 300 * second,
      cfg_LogFile = path_join [home, ''.infermeshai'', ''infermeshd.log''],
      cfg_RoutingPolicy = ''auto'',
      cfg_FavoritePeers = [],
      cfg_BlockedPeers = [],
      cfg_AllowedPeers = [],
      cfg_StickyPeerTTL = 0,
      cfg_WeightLatency = Fin 1,
      cfg_WeightQueueDepth = Fin 2,
      cfg_WeightVRAMPressure = Fin 500,
      cfg_WeightReliability = Fin 100,
      cfg_WeightFavoriteBonus = Fin 10,
      cfg_WeightKnownBonus = Fin 3\<rparr>)"

section \<open>Files\<close>

text \<open>The disk, as the program uses it.\<close>

record 'f Disk =
  dk_read :: "string \<Rightarrow> 'f \<Rightarrow> go_error + string"
  dk_mkdir :: "string \<Rightarrow> 'f \<Rightarrow> go_error option \<times> 'f"
  dk_write :: "string \<Rightarrow> string \<Rightarrow> 'f \<Rightarrow> go_error option \<times> 'f"
  dk_exists :: "string \<Rightarrow> 'f \<Rightarrow> bool"

text \<open>A file that was written is there, and reads as what was written.\<close>

definition keeps_files :: "'f Disk \<Rightarrow> bool" where
  "keeps_files disk = (\<forall>p b f f'. dk_write disk p b f = (None, f') \<longrightarrow> dk_read disk p f' = Inr b \<and> dk_exists disk p f')"

text \<open>\<open>filepath.Dir\<close>.\<close>

definition path_dir :: "string \<Rightarrow> string" where
  "path_dir p = path_clean (rev (dropWhile (\<lambda>c. c \<noteq> CHR 0x2F) (rev p)))"

definition isJSON :: "string \<Rightarrow> bool" where
  "isJSON path = (to_lower (path_ext path) = ''.json'')"

text \<open>The fields of a configuration, under the keys of the struct's tags (the same for both formats), as the
  codecs read and write them.\<close>

datatype cfg_value = VStr string | VInt int | VI64 i64 | VFloat f64 | VBool bool | VDur duration | VList "string list"

record cfg_field =
  fd_key :: string
  fd_get :: "Config \<Rightarrow> cfg_value"
  fd_set :: "cfg_value \<Rightarrow> Config \<Rightarrow> Config"

definition str_field :: "string \<Rightarrow> (Config \<Rightarrow> string) \<Rightarrow> ((string \<Rightarrow> string) \<Rightarrow> Config \<Rightarrow> Config) \<Rightarrow> cfg_field" where
  "str_field k get upd = \<lparr>fd_key = k, fd_get = (\<lambda>c. VStr (get c)), fd_set = (\<lambda>v c. case v of VStr x \<Rightarrow> upd (\<lambda>_. x) c | _ \<Rightarrow> c)\<rparr>"

definition int_field :: "string \<Rightarrow> (Config \<Rightarrow> int) \<Rightarrow> ((int \<Rightarrow> int) \<Rightarrow> Config \<Rightarrow> Config) \<Rightarrow> cfg_field" where
  "int_field k get upd = \<lparr>fd_key = k, fd_get = (\<lambda>c. VInt (get c)), fd_set = (\<lambda>v c. case v of VInt x \<Rightarrow> upd (\<lambda>_. x) c | _ \<Rightarrow> c)\<rparr>"

definition i64_field :: "string \<Rightarrow> (Config \<Rightarrow> i64) \<Rightarrow> ((i64 \<Rightarrow> i64) \<Rightarrow> Config \<Rightarrow> Config) \<Rightarrow> cfg_field" where
  "i64_field k get upd = \<lparr>fd_key = k, fd_get = (\<lambda>c. VI64 (get c)), fd_set = (\<lambda>v c. case v of VI64 x \<Rightarrow> upd (\<lambda>_. x) c | _ \<Rightarrow> c)\<rparr>"

definition float_field :: "string \<Rightarrow> (Config \<Rightarrow> f64) \<Rightarrow> ((f64 \<Rightarrow> f64) \<Rightarrow> Config \<Rightarrow> Config) \<Rightarrow> cfg_field" where
  "float_field k get upd = \<lparr>fd_key = k, fd_get = (\<lambda>c. VFloat (get c)), fd_set = (\<lambda>v c. case v of VFloat x \<Rightarrow> upd (\<lambda>_. x) c | _ \<Rightarrow> c)\<rparr>"

definition bool_field :: "string \<Rightarrow> (Config \<Rightarrow> bool) \<Rightarrow> ((bool \<Rightarrow> bool) \<Rightarrow> Config \<Rightarrow> Config) \<Rightarrow> cfg_field" where
  "bool_field k get upd = \<lparr>fd_key = k, fd_get = (\<lambda>c. VBool (get c)), fd_set = (\<lambda>v c. case v of VBool x \<Rightarrow> upd (\<lambda>_. x) c | _ \<Rightarrow> c)\<rparr>"

definition dur_field :: "string \<Rightarrow> (Config \<Rightarrow> duration) \<Rightarrow> ((duration \<Rightarrow> duration) \<Rightarrow> Config \<Rightarrow> Config) \<Rightarrow> cfg_field" where
  "dur_field k get upd = \<lparr>fd_key = k, fd_get = (\<lambda>c. VDur (get c)), fd_set = (\<lambda>v c. case v of VDur x \<Rightarrow> upd (\<lambda>_. x) c | _ \<Rightarrow> c)\<rparr>"

definition list_field :: "string \<Rightarrow> (Config \<Rightarrow> string list) \<Rightarrow> ((string list \<Rightarrow> string list) \<Rightarrow> Config \<Rightarrow> Config) \<Rightarrow> cfg_field" where
  "list_field k get upd = \<lparr>fd_key = k, fd_get = (\<lambda>c. VList (get c)), fd_set = (\<lambda>v c. case v of VList x \<Rightarrow> upd (\<lambda>_. x) c | _ \<Rightarrow> c)\<rparr>"

definition config_table :: "cfg_field list" where
  "config_table =
     [
      str_field ''mode'' cfg_Mode cfg_Mode_update,
      str_field ''transport'' cfg_Transport cfg_Transport_update,
      str_field ''client_name'' cfg_ClientName cfg_ClientName_update,
      str_field ''provider_name'' cfg_ProviderName cfg_ProviderName_update,
      str_field ''identity_file'' cfg_IdentityFile cfg_IdentityFile_update,
      str_field ''client_addr'' cfg_ClientAddr cfg_ClientAddr_update,
      str_field ''provider_addr'' cfg_ProviderAddr cfg_ProviderAddr_update,
      list_field ''provider_peer_urls'' cfg_ProviderPeerURLs cfg_ProviderPeerURLs_update,
      str_field ''backend_kind'' cfg_BackendKind cfg_BackendKind_update,
      str_field ''backend_url'' cfg_BackendURL cfg_BackendURL_update,
      str_field ''peer_id'' cfg_PeerID cfg_PeerID_update,
      str_field ''gpu'' cfg_GPU cfg_GPU_update,
      int_field ''vram_free_mb'' cfg_VRAMFreeMB cfg_VRAMFreeMB_update,
      list_field ''models'' cfg_Models cfg_Models_update,
      list_field ''model_specs'' cfg_ModelSpecs cfg_ModelSpecs_update,
      str_field ''advertise_url'' cfg_AdvertiseURL cfg_AdvertiseURL_update,
      int_field ''max_inflight'' cfg_MaxInflight cfg_MaxInflight_update,
      float_field ''rate_per_second'' cfg_RatePerSecond cfg_RatePerSecond_update,
      int_field ''burst'' cfg_Burst cfg_Burst_update,
      int_field ''max_tokens_per_request'' cfg_MaxTokensPerRequest cfg_MaxTokensPerRequest_update,
      bool_field ''night_only'' cfg_NightOnly cfg_NightOnly_update,
      int_field ''night_start_hour'' cfg_NightStartHour cfg_NightStartHour_update,
      int_field ''night_end_hour'' cfg_NightEndHour cfg_NightEndHour_update,
      bool_field ''idle_only'' cfg_IdleOnly cfg_IdleOnly_update,
      float_field ''max_load1m'' cfg_MaxLoad1m cfg_MaxLoad1m_update,
      int_field ''pow_difficulty'' cfg_PoWDifficulty cfg_PoWDifficulty_update,
      float_field ''min_peer_reputation'' cfg_MinPeerReputation cfg_MinPeerReputation_update,
      i64_field ''initial_credits'' cfg_InitialCredits cfg_InitialCredits_update,
      bool_field ''lan_discovery'' cfg_LANDiscovery cfg_LANDiscovery_update,
      str_field ''lan_listen_addr'' cfg_LANListenAddr cfg_LANListenAddr_update,
      str_field ''lan_broadcast_addr'' cfg_LANBroadcastAddr cfg_LANBroadcastAddr_update,
      dur_field ''lan_announce_interval'' cfg_LANAnnounceInterval cfg_LANAnnounceInterval_update,
      dur_field ''lan_peer_ttl'' cfg_LANPeerTTL cfg_LANPeerTTL_update,
      list_field ''libp2p_listen_addrs'' cfg_Libp2pListenAddrs cfg_Libp2pListenAddrs_update,
      list_field ''libp2p_bootstrap_peers'' cfg_Libp2pBootstrap cfg_Libp2pBootstrap_update,
      str_field ''libp2p_rendezvous'' cfg_Libp2pRendezvous cfg_Libp2pRendezvous_update,
      bool_field ''libp2p_auto_relay'' cfg_Libp2pAutoRelay cfg_Libp2pAutoRelay_update,
      bool_field ''libp2p_relay_service'' cfg_Libp2pRelayService cfg_Libp2pRelayService_update,
      bool_field ''libp2p_nat_port_map'' cfg_Libp2pNATPortMap cfg_Libp2pNATPortMap_update,
      bool_field ''libp2p_hole_punching'' cfg_Libp2pHolePunching cfg_Libp2pHolePunching_update,
      dur_field ''request_timeout'' cfg_RequestTimeout cfg_RequestTimeout_update,
      str_field ''log_file'' cfg_LogFile cfg_LogFile_update,
      str_field ''routing_policy'' cfg_RoutingPolicy cfg_RoutingPolicy_update,
      list_field ''favorite_peers'' cfg_FavoritePeers cfg_FavoritePeers_update,
      list_field ''blocked_peers'' cfg_BlockedPeers cfg_BlockedPeers_update,
      list_field ''allowed_peers'' cfg_AllowedPeers cfg_AllowedPeers_update,
      dur_field ''sticky_peer_ttl'' cfg_StickyPeerTTL cfg_StickyPeerTTL_update,
      float_field ''weight_latency'' cfg_WeightLatency cfg_WeightLatency_update,
      float_field ''weight_queue_depth'' cfg_WeightQueueDepth cfg_WeightQueueDepth_update,
      float_field ''weight_vram_pressure'' cfg_WeightVRAMPressure cfg_WeightVRAMPressure_update,
      float_field ''weight_reliability'' cfg_WeightReliability cfg_WeightReliability_update,
      float_field ''weight_favorite_bonus'' cfg_WeightFavoriteBonus cfg_WeightFavoriteBonus_update,
      float_field ''weight_known_bonus'' cfg_WeightKnownBonus cfg_WeightKnownBonus_update
     ]"

definition config_fields :: "Config \<Rightarrow> (string \<times> cfg_value) list" where
  "config_fields c = map (\<lambda>f. (fd_key f, fd_get f c)) config_table"

text \<open>A decoder sets the fields it finds, one after the other; a key that is no field's is skipped.\<close>

definition set_field :: "string \<times> cfg_value \<Rightarrow> Config \<Rightarrow> Config" where
  "set_field kv c = (case find (\<lambda>f. fd_key f = fst kv) config_table of None \<Rightarrow> c | Some f \<Rightarrow> fd_set f (snd kv) c)"

text \<open>A codec (\<open>encoding/json\<close>, \<open>yaml.v3\<close>) writes fields as text and finds them in a text: those before
  the first error, and the error.\<close>

record Codec =
  cd_encode :: "(string \<times> cfg_value) list \<Rightarrow> go_error + string"
  cd_decode :: "string \<Rightarrow> (string \<times> cfg_value) list \<times> go_error option"

definition codec_for :: "Codec \<Rightarrow> Codec \<Rightarrow> string \<Rightarrow> Codec" where
  "codec_for json yaml path = (if isJSON path then json else yaml)"

definition unmarshal_config :: "Codec \<Rightarrow> string \<Rightarrow> Config \<Rightarrow> Config \<times> go_error option" where
  "unmarshal_config cd b cfg = (let (fs, err) = cd_decode cd b in (fold set_field fs cfg, err))"

definition Load :: "Codec \<Rightarrow> Codec \<Rightarrow> 'f Disk \<Rightarrow> Config \<Rightarrow> string \<Rightarrow> 'f \<Rightarrow> Config \<times> go_error option" where
  "Load json yaml disk def path f =
     (case dk_read disk path f of
        Inl e \<Rightarrow> (def, Some e)
      | Inr b \<Rightarrow> unmarshal_config (codec_for json yaml path) b def)"

definition Save :: "Codec \<Rightarrow> Codec \<Rightarrow> 'f Disk \<Rightarrow> string \<Rightarrow> Config \<Rightarrow> 'f \<Rightarrow> go_error option \<times> 'f" where
  "Save json yaml disk path cfg f =
     (case dk_mkdir disk (path_dir path) f of
        (Some e, f) \<Rightarrow> (Some e, f)
      | (None, f) \<Rightarrow>
          (case cd_encode (codec_for json yaml path) (config_fields cfg) of
             Inl e \<Rightarrow> (Some (ErrWrap ''marshal config: '' e), f)
           | Inr b \<Rightarrow> dk_write disk path b f))"

definition Exists :: "'f Disk \<Rightarrow> string \<Rightarrow> 'f \<Rightarrow> bool" where
  "Exists disk path f = dk_exists disk path f"

text \<open>No field is lost: what is written of a configuration makes it up again, whatever it is read into.\<close>

lemma config_keys: "distinct (map fd_key config_table)"
  by (simp add: config_table_def str_field_def int_field_def i64_field_def float_field_def bool_field_def dur_field_def list_field_def)

lemma find_key: "distinct (map fd_key fs) \<Longrightarrow> f \<in> set fs \<Longrightarrow> find (\<lambda>g. fd_key g = fd_key f) fs = Some f"
  by (induction fs) auto

lemma set_fields: "fold set_field (config_fields c) d = fold (\<lambda>f. fd_set f (fd_get f c)) config_table d"
proof -
  have "fold set_field (map (\<lambda>f. (fd_key f, fd_get f c)) fs) d = fold (\<lambda>f. fd_set f (fd_get f c)) fs d"
    if "set fs \<subseteq> set config_table" for fs
    using that by (induction fs arbitrary: d) (auto simp: set_field_def find_key[OF config_keys])
  then show ?thesis by (simp add: config_fields_def)
qed

lemma fields_roundtrip: "fold set_field (config_fields c) d = c"
  unfolding set_fields config_table_def
  by (simp add: str_field_def int_field_def i64_field_def float_field_def bool_field_def dur_field_def list_field_def)

text \<open>A codec that finds in a text of its own the fields that were written into it.\<close>

definition reads_back :: "Codec \<Rightarrow> Config \<Rightarrow> bool" where
  "reads_back cd c = (\<forall>b. cd_encode cd (config_fields c) = Inr b \<longrightarrow> cd_decode cd b = (config_fields c, None))"

lemma saved_loads:
  assumes "keeps_files disk" "Save json yaml disk path c f = (None, f')" "reads_back (codec_for json yaml path) c"
  shows "dk_exists disk path f'" "Load json yaml disk def path f' = (c, None)"
proof -
  obtain g b where "cd_encode (codec_for json yaml path) (config_fields c) = Inr b" "dk_write disk path b g = (None, f')"
    using assms(2) by (auto simp: Save_def split: prod.splits option.splits sum.splits)
  then have "dk_read disk path f' = Inr b" "dk_exists disk path f'" "cd_decode (codec_for json yaml path) b = (config_fields c, None)"
    using assms(1,3) by (auto simp: keeps_files_def reads_back_def)
  then show "dk_exists disk path f'" "Load json yaml disk def path f' = (c, None)"
    by (simp_all add: Load_def unmarshal_config_def fields_roundtrip)
qed

section \<open>Resolving\<close>

text \<open>\<open>if cfg.X == zero { cfg.X = def.X }\<close> as a function on the value, per kind of field.\<close>

definition fill_str :: "string \<Rightarrow> string \<Rightarrow> string" where "fill_str v d = (if v = [] then d else v)"
definition fill_blank :: "string \<Rightarrow> string \<Rightarrow> string" where "fill_blank v d = (if trim_space v = [] then d else v)"
definition fill_int :: "int \<Rightarrow> int \<Rightarrow> int" where "fill_int v d = (if v = 0 then d else v)"
definition fill_i64 :: "i64 \<Rightarrow> i64 \<Rightarrow> i64" where "fill_i64 v d = (if v = 0 then d else v)"
definition fill_f64 :: "f64 \<Rightarrow> f64 \<Rightarrow> f64" where "fill_f64 v d = (if f64_eq v (Fin 0) then d else v)"
definition fill_list :: "string list \<Rightarrow> string list \<Rightarrow> string list" where "fill_list v d = (if v = [] then d else v)"

lemmas fill_defs = fill_str_def fill_blank_def fill_int_def fill_i64_def fill_f64_def fill_list_def

definition norm_word :: "string \<Rightarrow> string" where
  "norm_word s = to_lower (trim_space s)"

definition fill_fields :: "Config \<Rightarrow> Config \<Rightarrow> Config" where
  "fill_fields def cfg =
     (let night = (cfg_NightStartHour cfg = 0 \<and> cfg_NightEndHour cfg = 0) in
     cfg\<lparr>cfg_IdentityFile := fill_str (cfg_IdentityFile cfg) (cfg_IdentityFile def),
      cfg_ClientName := fill_blank (cfg_ClientName cfg) (cfg_ClientName def),
      cfg_ProviderName := fill_blank (cfg_ProviderName cfg) (cfg_ProviderName def),
      cfg_ClientAddr := fill_str (cfg_ClientAddr cfg) (cfg_ClientAddr def),
      cfg_ProviderAddr := fill_str (cfg_ProviderAddr cfg) (cfg_ProviderAddr def),
      cfg_BackendKind := fill_str (cfg_BackendKind cfg) (cfg_BackendKind def),
      cfg_BackendURL := fill_str (cfg_BackendURL cfg) (cfg_BackendURL def),
      cfg_GPU := fill_str (cfg_GPU cfg) (cfg_GPU def),
      cfg_VRAMFreeMB := fill_int (cfg_VRAMFreeMB cfg) (cfg_VRAMFreeMB def),
      cfg_MaxInflight := fill_int (cfg_MaxInflight cfg) (cfg_MaxInflight def),
      cfg_RatePerSecond := fill_f64 (cfg_RatePerSecond cfg) (cfg_RatePerSecond def),
      cfg_Burst := fill_int (cfg_Burst cfg) (cfg_Burst def),
      cfg_NightStartHour := (if night then cfg_NightStartHour def else cfg_NightStartHour cfg),
      cfg_NightEndHour := (if night then cfg_NightEndHour def else cfg_NightEndHour cfg),
      cfg_MaxLoad1m := fill_f64 (cfg_MaxLoad1m cfg) (cfg_MaxLoad1m def),
      cfg_InitialCredits := fill_i64 (cfg_InitialCredits cfg) (cfg_InitialCredits def),
      cfg_LANListenAddr := fill_str (cfg_LANListenAddr cfg) (cfg_LANListenAddr def),
      cfg_LANBroadcastAddr := fill_str (cfg_LANBroadcastAddr cfg) (cfg_LANBroadcastAddr def),
      cfg_LANAnnounceInterval := fill_int (cfg_LANAnnounceInterval cfg) (cfg_LANAnnounceInterval def),
      cfg_LANPeerTTL := fill_int (cfg_LANPeerTTL cfg) (cfg_LANPeerTTL def),
      cfg_Libp2pListenAddrs := fill_list (cfg_Libp2pListenAddrs cfg) (cfg_Libp2pListenAddrs def),
      cfg_Libp2pBootstrap := (if cfg_Libp2pBootstrap cfg = [] \<and> cfg_Transport cfg = ''libp2p''
                              then cfg_Libp2pBootstrap def else cfg_Libp2pBootstrap cfg),
      cfg_Libp2pRendezvous := fill_str (cfg_Libp2pRendezvous cfg) (cfg_Libp2pRendezvous def),
      cfg_RequestTimeout := fill_int (cfg_RequestTimeout cfg) (cfg_RequestTimeout def),
      cfg_LogFile := fill_blank (cfg_LogFile cfg) (cfg_LogFile def),
      cfg_RoutingPolicy := norm_word (fill_blank (cfg_RoutingPolicy cfg) (cfg_RoutingPolicy def))\<rparr>)"

definition fill_weights :: "Config \<Rightarrow> Config \<Rightarrow> Config" where
  "fill_weights def cfg =
     cfg\<lparr>cfg_WeightLatency := fill_f64 (cfg_WeightLatency cfg) (cfg_WeightLatency def),
      cfg_WeightQueueDepth := fill_f64 (cfg_WeightQueueDepth cfg) (cfg_WeightQueueDepth def),
      cfg_WeightVRAMPressure := fill_f64 (cfg_WeightVRAMPressure cfg) (cfg_WeightVRAMPressure def),
      cfg_WeightReliability := fill_f64 (cfg_WeightReliability cfg) (cfg_WeightReliability def),
      cfg_WeightFavoriteBonus := fill_f64 (cfg_WeightFavoriteBonus cfg) (cfg_WeightFavoriteBonus def),
      cfg_WeightKnownBonus := fill_f64 (cfg_WeightKnownBonus cfg) (cfg_WeightKnownBonus def)\<rparr>"

definition modes :: "string list" where "modes = [''client'', ''provider'', ''both'']"
definition transports :: "string list" where "transports = [''http'', ''libp2p'']"
definition policies :: "string list" where "policies = [''auto'', ''prefer_known'', ''prefer_favorites'', ''manual'']"

definition ResolveAndValidate :: "Config \<Rightarrow> Config \<Rightarrow> Config \<times> go_error option" where
  "ResolveAndValidate def cfg =
     (let mode = fill_str (norm_word (cfg_Mode cfg)) (cfg_Mode def) in
      if mode \<notin> set modes then (cfg, Some (ErrText (''invalid mode: '' @ cfg_Mode cfg)))
      else let cfg = cfg\<lparr>cfg_Mode := mode\<rparr>;
               transport = fill_str (norm_word (cfg_Transport cfg)) (cfg_Transport def) in
        if transport \<notin> set transports then (cfg, Some (ErrText (''invalid transport: '' @ cfg_Transport cfg)))
        else let cfg = fill_fields def (cfg\<lparr>cfg_Transport := transport\<rparr>) in
          if cfg_RoutingPolicy cfg \<notin> set policies
          then (cfg, Some (ErrText (''invalid routing_policy: '' @ cfg_RoutingPolicy cfg)))
          else let cfg = fill_weights def cfg in
            if (cfg_Mode cfg = ''provider'' \<or> cfg_Mode cfg = ''both'') \<and> cfg_BackendURL cfg = []
            then (cfg, Some (ErrText ''backend_url is required in provider/both mode''))
            else if cfg_Transport cfg = ''http'' \<and> (cfg_Mode cfg = ''client'' \<or> cfg_Mode cfg = ''both'')
                    \<and> cfg_ProviderPeerURLs cfg = [] \<and> \<not> cfg_LANDiscovery cfg
            then (cfg, Some (ErrText ''http client mode requires provider_peer_urls or lan_discovery=true''))
            else (cfg, None))"

section \<open>Settled configurations\<close>

text \<open>Nothing is left to fill or to normalise, and every check passes.\<close>

definition settled :: "Config \<Rightarrow> bool" where
  "settled c \<longleftrightarrow> cfg_Mode c \<in> set modes \<and> cfg_Transport c \<in> set transports \<and> cfg_RoutingPolicy c \<in> set policies
   \<and> cfg_IdentityFile c \<noteq> [] \<and> trim_space (cfg_ClientName c) \<noteq> [] \<and> trim_space (cfg_ProviderName c) \<noteq> []
   \<and> cfg_ClientAddr c \<noteq> [] \<and> cfg_ProviderAddr c \<noteq> [] \<and> cfg_BackendKind c \<noteq> [] \<and> cfg_BackendURL c \<noteq> []
   \<and> cfg_GPU c \<noteq> [] \<and> cfg_VRAMFreeMB c \<noteq> 0 \<and> cfg_MaxInflight c \<noteq> 0 \<and> \<not> f64_eq (cfg_RatePerSecond c) (Fin 0)
   \<and> cfg_Burst c \<noteq> 0 \<and> \<not> (cfg_NightStartHour c = 0 \<and> cfg_NightEndHour c = 0)
   \<and> \<not> f64_eq (cfg_MaxLoad1m c) (Fin 0) \<and> cfg_InitialCredits c \<noteq> 0 \<and> cfg_LANListenAddr c \<noteq> []
   \<and> cfg_LANBroadcastAddr c \<noteq> [] \<and> cfg_LANAnnounceInterval c \<noteq> 0 \<and> cfg_LANPeerTTL c \<noteq> 0
   \<and> cfg_Libp2pListenAddrs c \<noteq> [] \<and> (cfg_Transport c = ''libp2p'' \<longrightarrow> cfg_Libp2pBootstrap c \<noteq> [])
   \<and> cfg_Libp2pRendezvous c \<noteq> [] \<and> cfg_RequestTimeout c \<noteq> 0 \<and> trim_space (cfg_LogFile c) \<noteq> []
   \<and> \<not> f64_eq (cfg_WeightLatency c) (Fin 0) \<and> \<not> f64_eq (cfg_WeightQueueDepth c) (Fin 0)
   \<and> \<not> f64_eq (cfg_WeightVRAMPressure c) (Fin 0) \<and> \<not> f64_eq (cfg_WeightReliability c) (Fin 0)
   \<and> \<not> f64_eq (cfg_WeightFavoriteBonus c) (Fin 0) \<and> \<not> f64_eq (cfg_WeightKnownBonus c) (Fin 0)
   \<and> \<not> (cfg_Transport c = ''http'' \<and> cfg_Mode c \<in> {''client'', ''both''}
         \<and> cfg_ProviderPeerURLs c = [] \<and> \<not> cfg_LANDiscovery c)"

section \<open>Words, blanks and paths\<close>

lemma find_SomeD: "find P xs = Some x \<Longrightarrow> x \<in> set xs \<and> P x"
  by (induction xs) (auto split: if_splits)

lemma norm_words:
  "list_all (\<lambda>w. norm_word w = w \<and> w \<noteq> []) modes" "list_all (\<lambda>w. norm_word w = w \<and> w \<noteq> []) transports"
  "list_all (\<lambda>w. norm_word w = w \<and> trim_space w \<noteq> []) policies"
  by code_simp+

lemma norm_modes: "w \<in> set modes \<Longrightarrow> norm_word w = w \<and> w \<noteq> []"
  using norm_words(1) unfolding list_all_iff by blast

lemma norm_transports: "w \<in> set transports \<Longrightarrow> norm_word w = w \<and> w \<noteq> []"
  using norm_words(2) unfolding list_all_iff by blast

lemma norm_policies: "w \<in> set policies \<Longrightarrow> norm_word w = w \<and> trim_space w \<noteq> []"
  using norm_words(3) unfolding list_all_iff by blast

text \<open>A byte that is part of no white space survives trimming.\<close>

lemma strip_lead_keeps: "c \<in> set s \<Longrightarrow> \<forall>p\<in>set seqs. c \<notin> set p \<Longrightarrow> c \<in> set (strip_lead seqs s)"
proof (induction seqs s rule: strip_lead.induct)
  case (1 seqs s)
  show ?case
  proof (cases "lead_len seqs s = 0 \<or> s = []")
    case True
    then show ?thesis using 1 by (subst strip_lead.simps) simp
  next
    case False
    then obtain p where p: "p \<in> set seqs" "has_prefix p s" "lead_len seqs s = length p"
      by (auto simp: lead_len_def dest!: find_SomeD split: option.splits)
    then have "s = p @ drop (lead_len seqs s) s" by (metis append_take_drop_id has_prefix_def)
    then have "c \<in> set (drop (lead_len seqs s) s)" using 1 p(1) by (metis UnE set_append)
    then show ?thesis using 1 False by (subst strip_lead.simps) simp
  qed
qed

definition inked :: "char \<Rightarrow> bool" where
  "inked c = list_all (\<lambda>p. c \<notin> set p) space_seqs"

lemma trim_space_keeps: "inked c \<Longrightarrow> c \<in> set s \<Longrightarrow> trim_space s \<noteq> []"
proof -
  assume c: "inked c" "c \<in> set s"
  then have "\<forall>p\<in>set space_seqs. c \<notin> set p" by (simp add: inked_def list_all_iff)
  then have "c \<in> set (trim_left_space s)" "\<forall>p\<in>set (map rev space_seqs). c \<notin> set p"
    using c(2) strip_lead_keeps by (auto simp: trim_left_space_def)
  then have "c \<in> set (strip_lead (map rev space_seqs) (rev (trim_left_space s)))"
    by (intro strip_lead_keeps) auto
  then show ?thesis by (auto simp: trim_space_def trim_right_space_def)
qed

lemma inked_dash: "inked (CHR ''-'')" "inked (CHR ''g'')"
  by (simp_all add: inked_def space_seqs_def)

lemma split_on_sep: "split_on c (a @ c # b) = split_on c a @ split_on c b"
  by (induction a) (auto split: list.splits)

lemma clean_parts_last: "p \<notin> {[], ''.'', ''..''} \<Longrightarrow> p \<in> set (clean_parts rooted acc (ps @ [p]))"
  by (induction ps arbitrary: acc) (auto split: list.splits)

lemma str_join_mem: "w \<in> set ws \<Longrightarrow> set w \<subseteq> set (str_join sep ws)"
  by (induction sep ws rule: str_join.induct) auto

lemma path_join_ne: "\<exists>e\<in>set es. e \<noteq> [] \<Longrightarrow> path_join es \<noteq> []"
  by (auto simp: path_join_def path_clean_def Let_def filter_empty_conv)

lemma mem_if_ne: "c \<in> set s \<Longrightarrow> c \<in> set (if a @ s = [] then x else a @ s)"
  by auto

lemma path_join_log: "CHR ''g'' \<in> set (path_join [home, ''.infermeshai'', ''infermeshd.log''])"
proof -
  have s: "split_on (CHR 0x2F) (str_join ''/'' (filter (\<lambda>e. e \<noteq> []) [home, ''.infermeshai'', ''infermeshd.log'']))
    = (if home = [] then [] else split_on (CHR 0x2F) home) @ [''.infermeshai''] @ [''infermeshd.log'']"
    by (simp add: split_on_sep)
  have "''infermeshd.log'' \<in> set (clean_parts r [] (ps @ [''infermeshd.log'']))" for r ps
    by (rule clean_parts_last) simp
  then have g: "CHR ''g'' \<in> set (str_join ''/'' (clean_parts r [] (ps @ [''infermeshd.log''])))" for r ps
    using str_join_mem[of "''infermeshd.log''" "clean_parts r [] (ps @ [''infermeshd.log''])" "''/''"] by auto
  have ne: "filter (\<lambda>e. e \<noteq> []) [home, ''.infermeshai'', ''infermeshd.log''] \<noteq> []" by simp
  show ?thesis
    unfolding path_join_def path_clean_def Let_def if_not_P[OF ne] s append_assoc[symmetric]
    by (rule mem_if_ne[OF g])
qed

section \<open>Defaults settle; resolving is idempotent\<close>

lemma settled_DefaultConfig: "settled (DefaultConfig hostname homedir)"
proof -
  have "trim_space (x @ ''-client'') \<noteq> []" "trim_space (x @ ''-provider'') \<noteq> []" for x
    by (rule trim_space_keeps[OF inked_dash(1)]; simp)+
  moreover have "trim_space (path_join [home, ''.infermeshai'', ''infermeshd.log'']) \<noteq> []" for home
    by (rule trim_space_keeps[OF inked_dash(2) path_join_log])
  moreover have "\<not> f64_eq (round64 (8/10)) (Fin 0)"
  proof
    assume "f64_eq (round64 (8/10)) (Fin 0)"
    moreover obtain v where "round64 (8/10) = Fin v" "1/2 \<le> v"
      by (rule round64_between[of "1/2" 1 "8/10"]) (use wf64_dyadic[of 1 1] in auto)
    ultimately show False by (auto simp: f64_eq_def)
  qed
  ultimately show ?thesis
    by (simp add: settled_def DefaultConfig_def Let_def modes_def transports_def policies_def path_join_ne f64_eq_def second_def)
qed

lemma fills_settled [simp]:
  "v \<noteq> [] \<Longrightarrow> fill_str v d = v" "trim_space v \<noteq> [] \<Longrightarrow> fill_blank v d = v" "i \<noteq> 0 \<Longrightarrow> fill_int i j = i"
  "w \<noteq> 0 \<Longrightarrow> fill_i64 w u = w" "\<not> f64_eq x (Fin 0) \<Longrightarrow> fill_f64 x y = x" "l \<noteq> [] \<Longrightarrow> fill_list l m = l"
  by (simp_all add: fill_defs)

lemma fills_ok:
  "d \<noteq> [] \<Longrightarrow> fill_str v d \<noteq> []" "trim_space d \<noteq> [] \<Longrightarrow> trim_space (fill_blank v d) \<noteq> []" "j \<noteq> 0 \<Longrightarrow> fill_int i j \<noteq> 0"
  "u \<noteq> 0 \<Longrightarrow> fill_i64 w u \<noteq> 0" "\<not> f64_eq y (Fin 0) \<Longrightarrow> \<not> f64_eq (fill_f64 x y) (Fin 0)" "m \<noteq> [] \<Longrightarrow> fill_list l m \<noteq> []"
  by (simp_all add: fill_defs)

lemma fill_fields_settled:
  assumes "settled c" shows "fill_fields def c = c" "fill_weights def c = c"
proof -
  have pol: "norm_word (fill_blank (cfg_RoutingPolicy c) d) = cfg_RoutingPolicy c" for d
    using assms norm_policies[of "cfg_RoutingPolicy c"] by (simp add: settled_def)
  have night: "\<not> (cfg_NightStartHour c = 0 \<and> cfg_NightEndHour c = 0)"
    and boot: "\<not> (cfg_Libp2pBootstrap c = [] \<and> cfg_Transport c = ''libp2p'')"
    using assms unfolding settled_def by blast+
  have f: "fill_str (cfg_IdentityFile c) d = cfg_IdentityFile c" "fill_blank (cfg_ClientName c) d = cfg_ClientName c"
    "fill_blank (cfg_ProviderName c) d = cfg_ProviderName c" "fill_str (cfg_ClientAddr c) d = cfg_ClientAddr c"
    "fill_str (cfg_ProviderAddr c) d = cfg_ProviderAddr c" "fill_str (cfg_BackendKind c) d = cfg_BackendKind c"
    "fill_str (cfg_BackendURL c) d = cfg_BackendURL c" "fill_str (cfg_GPU c) d = cfg_GPU c"
    "fill_str (cfg_LANListenAddr c) d = cfg_LANListenAddr c" "fill_str (cfg_LANBroadcastAddr c) d = cfg_LANBroadcastAddr c"
    "fill_str (cfg_Libp2pRendezvous c) d = cfg_Libp2pRendezvous c" "fill_blank (cfg_LogFile c) d = cfg_LogFile c" for d
    using assms unfolding settled_def by (blast intro: fills_settled)+
  have g: "fill_int (cfg_VRAMFreeMB c) i = cfg_VRAMFreeMB c" "fill_int (cfg_MaxInflight c) i = cfg_MaxInflight c"
    "fill_int (cfg_Burst c) i = cfg_Burst c" "fill_int (cfg_LANAnnounceInterval c) i = cfg_LANAnnounceInterval c"
    "fill_int (cfg_LANPeerTTL c) i = cfg_LANPeerTTL c" "fill_int (cfg_RequestTimeout c) i = cfg_RequestTimeout c"
    "fill_i64 (cfg_InitialCredits c) w = cfg_InitialCredits c"
    "fill_list (cfg_Libp2pListenAddrs c) l = cfg_Libp2pListenAddrs c" for i w l
    using assms unfolding settled_def by (blast intro: fills_settled)+
  have h: "fill_f64 (cfg_RatePerSecond c) x = cfg_RatePerSecond c" "fill_f64 (cfg_MaxLoad1m c) x = cfg_MaxLoad1m c"
    "fill_f64 (cfg_WeightLatency c) x = cfg_WeightLatency c" "fill_f64 (cfg_WeightQueueDepth c) x = cfg_WeightQueueDepth c"
    "fill_f64 (cfg_WeightVRAMPressure c) x = cfg_WeightVRAMPressure c" "fill_f64 (cfg_WeightReliability c) x = cfg_WeightReliability c"
    "fill_f64 (cfg_WeightFavoriteBonus c) x = cfg_WeightFavoriteBonus c" "fill_f64 (cfg_WeightKnownBonus c) x = cfg_WeightKnownBonus c" for x
    using assms unfolding settled_def by (blast intro: fills_settled)+
  show "fill_fields def c = c"
    unfolding fill_fields_def Let_def if_not_P[OF night] if_not_P[OF boot] pol f g h by simp
  show "fill_weights def c = c" unfolding fill_weights_def h by simp
qed

lemma resolve_settled:
  assumes "settled c" shows "ResolveAndValidate def c = (c, None)"
proof -
  have m: "norm_word (cfg_Mode c) = cfg_Mode c" "cfg_Mode c \<noteq> []" "norm_word (cfg_Transport c) = cfg_Transport c"
    "cfg_Transport c \<noteq> []" "cfg_Mode c \<in> set modes" "cfg_Transport c \<in> set transports" "cfg_RoutingPolicy c \<in> set policies"
    "cfg_BackendURL c \<noteq> []" "\<not> (cfg_Transport c = ''http'' \<and> (cfg_Mode c = ''client'' \<or> cfg_Mode c = ''both'')
         \<and> cfg_ProviderPeerURLs c = [] \<and> \<not> cfg_LANDiscovery c)"
    using assms norm_modes[of "cfg_Mode c"] norm_transports[of "cfg_Transport c"] by (auto simp: settled_def)
  show ?thesis
    unfolding ResolveAndValidate_def using m fill_fields_settled[OF assms, of def] by (simp add: Let_def)
qed

text \<open>What an accepted configuration was made from.\<close>

lemma resolve_accepts:
  assumes "ResolveAndValidate def cfg = (c, None)"
  obtains mode transport where
    "mode = fill_str (norm_word (cfg_Mode cfg)) (cfg_Mode def)" "mode \<in> set modes"
    "transport = fill_str (norm_word (cfg_Transport cfg)) (cfg_Transport def)" "transport \<in> set transports"
    "c = fill_weights def (fill_fields def (cfg\<lparr>cfg_Mode := mode, cfg_Transport := transport\<rparr>))"
    "cfg_RoutingPolicy c \<in> set policies"
    "\<not> (cfg_Transport c = ''http'' \<and> (cfg_Mode c = ''client'' \<or> cfg_Mode c = ''both'')
         \<and> cfg_ProviderPeerURLs c = [] \<and> \<not> cfg_LANDiscovery c)"
proof -
  let ?m = "fill_str (norm_word (cfg_Mode cfg)) (cfg_Mode def)"
  let ?t = "fill_str (norm_word (cfg_Transport cfg)) (cfg_Transport def)"
  define f where "f = fill_fields def (cfg\<lparr>cfg_Mode := ?m, cfg_Transport := ?t\<rparr>)"
  define g where "g = fill_weights def f"
  have pol: "cfg_RoutingPolicy g = cfg_RoutingPolicy f" by (simp add: g_def fill_weights_def)
  have "?m \<in> set modes" "?t \<in> set transports" "cfg_RoutingPolicy f \<in> set policies" "c = g"
    "\<not> (cfg_Transport g = ''http'' \<and> (cfg_Mode g = ''client'' \<or> cfg_Mode g = ''both'')
         \<and> cfg_ProviderPeerURLs g = [] \<and> \<not> cfg_LANDiscovery g)"
    using assms unfolding ResolveAndValidate_def Let_def
    by (auto simp: f_def[symmetric] g_def[symmetric] split: if_splits)
  then show thesis using that[OF refl _ refl] pol unfolding f_def g_def by simp
qed

lemma resolve_settles:
  assumes "ResolveAndValidate (DefaultConfig hostname homedir) cfg = (c, None)" shows "settled c"
  using assms
proof (cases rule: resolve_accepts)
  case (1 mode transport)
  have d: "settled (DefaultConfig hostname homedir)" by (rule settled_DefaultConfig)
  have boot: "cfg_Libp2pBootstrap (DefaultConfig hostname homedir) \<noteq> []" by (simp add: DefaultConfig_def Let_def)
  show ?thesis
    using 1 d boot unfolding settled_def
    by (simp add: fill_weights_def fill_fields_def Let_def fills_ok)
qed

end
