(* ===== verification/Daemon.thy ===== *)
theory Daemon
  imports Config Client Discovery Api
begin

text \<open>
  The daemon's command (\<^verbatim>\<open>cmd/infermeshd/main.go\<close>): arguments and flags, lists as
  comma-separated text, model specifications, the advertised URL, the first-run setup dialogue,
  and how the services are put together from the configuration, with one ledger and one reputation
  tracker for both of them. A start reads its configuration from the disk and may write it there. \<open>Flags\<close> is what package
  \<open>flag\<close> parsed (the value of each flag that was set); a terminal is the text still to be read
  and the text written.
\<close>

section \<open>Lists and model specifications\<close>

fun keep_trimmed :: "string list \<Rightarrow> string list" where
  "keep_trimmed [] = []"
| "keep_trimmed (p # ps) = (let p = trim_space p in if p = [] then keep_trimmed ps else p # keep_trimmed ps)"

definition splitCSV :: "string \<Rightarrow> string list" where
  "splitCSV v = keep_trimmed (split_on (CHR '','') v)"

definition joinCSV :: "string list \<Rightarrow> string" where
  "joinCSV v = str_join '','' v"

definition nth_or :: "string list \<Rightarrow> nat \<Rightarrow> string" where
  "nth_or parts i = (if length parts > i then parts ! i else [])"

definition parse_spec :: "string list \<Rightarrow> ModelSpec" where
  "parse_spec parts =
     \<lparr>ms_Name = parts ! 0, ms_SHA256 = nth_or parts 1, ms_Tokenizer = nth_or parts 2, ms_Quant = nth_or parts 3,
      ms_Backend = nth_or parts 4,
      ms_MaxCtx = (if length parts > 5 then case atoi (parts ! 5) of Some v \<Rightarrow> v | None \<Rightarrow> 0 else 0)\<rparr>"

fun parse_encoded :: "string list \<Rightarrow> ModelSpec list" where
  "parse_encoded [] = []"
| "parse_encoded (raw # raws) =
     (let parts = split_on (CHR '':'') raw in
      if parts = [] \<or> parts ! 0 = [] then parse_encoded raws else parse_spec parts # parse_encoded raws)"

definition parseModelSpecs :: "string list \<Rightarrow> string list \<Rightarrow> ModelSpec list" where
  "parseModelSpecs baseNames encoded =
     map (\<lambda>m. zero_spec\<lparr>ms_Name := m, ms_Backend := ''openai-compatible''\<rparr>) baseNames @ parse_encoded encoded"

section \<open>Addresses\<close>

text \<open>\<open>net.SplitHostPort\<close>; only whether it fails matters, not the message.\<close>

definition SplitHostPort :: "string \<Rightarrow> (string \<times> string) option" where
  "SplitHostPort hp =
     (if CHR '':'' \<notin> set hp then None
      else let port = last (split_on (CHR '':'') hp);
               before = take (length hp - length port - 1) hp
           in if has_prefix ''['' hp then
                (if CHR '']'' \<notin> set hp then None
                 else let host = takeWhile (\<lambda>c. c \<noteq> CHR '']'') (drop 1 hp) in
                   if before \<noteq> ''['' @ host @ '']'' then None
                   else if CHR ''['' \<in> set (drop 1 hp) \<or> CHR '']'' \<in> set port then None
                   else Some (host, port))
              else if CHR '':'' \<in> set before then None
              else if CHR ''['' \<in> set hp \<or> CHR '']'' \<in> set hp then None
              else Some (before, port))"

definition buildAdvertiseURL :: "string \<Rightarrow> string \<Rightarrow> string" where
  "buildAdvertiseURL advertiseURL providerAddr =
     (if advertiseURL \<noteq> [] then trim_right_char (CHR 0x2F) advertiseURL
      else case SplitHostPort providerAddr of
          None \<Rightarrow> ''http://127.0.0.1:7777''
        | Some (host, port) \<Rightarrow>
            let host = (if host = [] \<or> host = ''0.0.0.0'' \<or> host = ''::'' then ''127.0.0.1'' else host);
                port = (if port = [] then ''7777'' else port)
            in ''http://'' @ JoinHostPort host port)"

section \<open>Arguments and flags\<close>

fun findArgValue :: "string list \<Rightarrow> string \<Rightarrow> string" where
  "findArgValue [] name = []"
| "findArgValue (a # as) name =
     (if a = name \<and> as \<noteq> [] then hd as
      else if has_prefix (name @ ''='') a then trim_prefix (name @ ''='') a
      else findArgValue as name)"

fun only_config_args :: "string list \<Rightarrow> bool" where
  "only_config_args [] = True"
| "only_config_args [a] = (a = ''-config'' \<or> has_prefix ''-config='' a)"
| "only_config_args (a # b # as) =
     (if a = ''-config'' then only_config_args as
      else if has_prefix ''-config='' a then only_config_args (b # as)
      else False)"

definition shouldRunSetupWizard :: "bool \<Rightarrow> string list \<Rightarrow> bool" where
  "shouldRunSetupWizard interactive args =
     (if \<not> interactive then False
      else let filtered = (if args \<noteq> [] \<and> hd args = ''daemon'' then tl args else args)
           in if filtered = [] then True else only_config_args filtered)"

record Flags =
  fl_string :: "string \<Rightarrow> string option"
  fl_int :: "string \<Rightarrow> int option"
  fl_int64 :: "string \<Rightarrow> i64 option"
  fl_float :: "string \<Rightarrow> f64 option"
  fl_bool :: "string \<Rightarrow> bool option"
  fl_duration :: "string \<Rightarrow> duration option"

definition flag_or :: "'a option \<Rightarrow> 'a \<Rightarrow> 'a" where
  "flag_or v def = (case v of None \<Rightarrow> def | Some x \<Rightarrow> x)"

text \<open>The configuration after \<open>flag.Parse\<close>: each flag's value, with the loaded one as default.\<close>

definition flags_config :: "Flags \<Rightarrow> Config \<Rightarrow> Config" where
  "flags_config F cfg =
     \<lparr>cfg_Mode = flag_or (fl_string F ''mode'') (cfg_Mode cfg),
      cfg_Transport = flag_or (fl_string F ''transport'') (cfg_Transport cfg),
      cfg_ClientName = flag_or (fl_string F ''client-name'') (cfg_ClientName cfg),
      cfg_ProviderName = flag_or (fl_string F ''provider-name'') (cfg_ProviderName cfg),
      cfg_IdentityFile = flag_or (fl_string F ''identity-file'') (cfg_IdentityFile cfg),
      cfg_ClientAddr = flag_or (fl_string F ''client-addr'') (cfg_ClientAddr cfg),
      cfg_ProviderAddr = flag_or (fl_string F ''provider-addr'') (cfg_ProviderAddr cfg),
      cfg_ProviderPeerURLs = splitCSV (flag_or (fl_string F ''provider-peer-urls'') (joinCSV (cfg_ProviderPeerURLs cfg))),
      cfg_BackendKind = flag_or (fl_string F ''backend-kind'') (cfg_BackendKind cfg),
      cfg_BackendURL = flag_or (fl_string F ''backend-url'') (cfg_BackendURL cfg),
      cfg_PeerID = flag_or (fl_string F ''peer-id'') (cfg_PeerID cfg),
      cfg_GPU = flag_or (fl_string F ''gpu'') (cfg_GPU cfg),
      cfg_VRAMFreeMB = flag_or (fl_int F ''vram-free-mb'') (cfg_VRAMFreeMB cfg),
      cfg_Models = splitCSV (flag_or (fl_string F ''models'') (joinCSV (cfg_Models cfg))),
      cfg_ModelSpecs = splitCSV (flag_or (fl_string F ''model-specs'') (joinCSV (cfg_ModelSpecs cfg))),
      cfg_AdvertiseURL = flag_or (fl_string F ''advertise-url'') (cfg_AdvertiseURL cfg),
      cfg_MaxInflight = flag_or (fl_int F ''max-inflight'') (cfg_MaxInflight cfg),
      cfg_RatePerSecond = flag_or (fl_float F ''rate-per-second'') (cfg_RatePerSecond cfg),
      cfg_Burst = flag_or (fl_int F ''burst'') (cfg_Burst cfg),
      cfg_MaxTokensPerRequest = flag_or (fl_int F ''max-tokens-per-request'') (cfg_MaxTokensPerRequest cfg),
      cfg_NightOnly = flag_or (fl_bool F ''night-only'') (cfg_NightOnly cfg),
      cfg_NightStartHour = flag_or (fl_int F ''night-start-hour'') (cfg_NightStartHour cfg),
      cfg_NightEndHour = flag_or (fl_int F ''night-end-hour'') (cfg_NightEndHour cfg),
      cfg_IdleOnly = flag_or (fl_bool F ''idle-only'') (cfg_IdleOnly cfg),
      cfg_MaxLoad1m = flag_or (fl_float F ''max-load1m'') (cfg_MaxLoad1m cfg),
      cfg_PoWDifficulty = flag_or (fl_int F ''pow-difficulty'') (cfg_PoWDifficulty cfg),
      cfg_MinPeerReputation = flag_or (fl_float F ''min-peer-reputation'') (cfg_MinPeerReputation cfg),
      cfg_InitialCredits = flag_or (fl_int64 F ''initial-credits'') (cfg_InitialCredits cfg),
      cfg_LANDiscovery = flag_or (fl_bool F ''lan-discovery'') (cfg_LANDiscovery cfg),
      cfg_LANListenAddr = flag_or (fl_string F ''lan-listen-addr'') (cfg_LANListenAddr cfg),
      cfg_LANBroadcastAddr = flag_or (fl_string F ''lan-broadcast-addr'') (cfg_LANBroadcastAddr cfg),
      cfg_LANAnnounceInterval = flag_or (fl_duration F ''lan-announce-interval'') (cfg_LANAnnounceInterval cfg),
      cfg_LANPeerTTL = flag_or (fl_duration F ''lan-peer-ttl'') (cfg_LANPeerTTL cfg),
      cfg_Libp2pListenAddrs = splitCSV (flag_or (fl_string F ''libp2p-listen-addrs'') (joinCSV (cfg_Libp2pListenAddrs cfg))),
      cfg_Libp2pBootstrap = splitCSV (flag_or (fl_string F ''libp2p-bootstrap-peers'') (joinCSV (cfg_Libp2pBootstrap cfg))),
      cfg_Libp2pRendezvous = flag_or (fl_string F ''libp2p-rendezvous'') (cfg_Libp2pRendezvous cfg),
      cfg_Libp2pAutoRelay = flag_or (fl_bool F ''libp2p-auto-relay'') (cfg_Libp2pAutoRelay cfg),
      cfg_Libp2pRelayService = flag_or (fl_bool F ''libp2p-relay-service'') (cfg_Libp2pRelayService cfg),
      cfg_Libp2pNATPortMap = flag_or (fl_bool F ''libp2p-nat-port-map'') (cfg_Libp2pNATPortMap cfg),
      cfg_Libp2pHolePunching = flag_or (fl_bool F ''libp2p-hole-punching'') (cfg_Libp2pHolePunching cfg),
      cfg_RequestTimeout = flag_or (fl_duration F ''request-timeout'') (cfg_RequestTimeout cfg),
      cfg_LogFile = flag_or (fl_string F ''log-file'') (cfg_LogFile cfg),
      cfg_RoutingPolicy = flag_or (fl_string F ''routing-policy'') (cfg_RoutingPolicy cfg),
      cfg_FavoritePeers = splitCSV (flag_or (fl_string F ''favorite-peers'') (joinCSV (cfg_FavoritePeers cfg))),
      cfg_BlockedPeers = splitCSV (flag_or (fl_string F ''blocked-peers'') (joinCSV (cfg_BlockedPeers cfg))),
      cfg_AllowedPeers = splitCSV (flag_or (fl_string F ''allowed-peers'') (joinCSV (cfg_AllowedPeers cfg))),
      cfg_StickyPeerTTL = flag_or (fl_duration F ''sticky-peer-ttl'') (cfg_StickyPeerTTL cfg),
      cfg_WeightLatency = flag_or (fl_float F ''weight-latency'') (cfg_WeightLatency cfg),
      cfg_WeightQueueDepth = flag_or (fl_float F ''weight-queue-depth'') (cfg_WeightQueueDepth cfg),
      cfg_WeightVRAMPressure = flag_or (fl_float F ''weight-vram-pressure'') (cfg_WeightVRAMPressure cfg),
      cfg_WeightReliability = flag_or (fl_float F ''weight-reliability'') (cfg_WeightReliability cfg),
      cfg_WeightFavoriteBonus = flag_or (fl_float F ''weight-favorite-bonus'') (cfg_WeightFavoriteBonus cfg),
      cfg_WeightKnownBonus = flag_or (fl_float F ''weight-known-bonus'') (cfg_WeightKnownBonus cfg)\<rparr>"

definition no_flags :: Flags where
  "no_flags = \<lparr>fl_string = (\<lambda>_. None), fl_int = (\<lambda>_. None), fl_int64 = (\<lambda>_. None), fl_float = (\<lambda>_. None),
     fl_bool = (\<lambda>_. None), fl_duration = (\<lambda>_. None)\<rparr>"

section \<open>The setup dialogue\<close>

record Terminal =
  tm_in :: string
  tm_out :: string

definition say :: "string \<Rightarrow> Terminal \<Rightarrow> Terminal" where
  "say s t = t\<lparr>tm_out := tm_out t @ s\<rparr>"

text \<open>\<open>ReadString('\n')\<close> with its error ignored: at the end of input what is left.\<close>

definition read_answer :: "Terminal \<Rightarrow> string \<times> Terminal" where
  "read_answer t =
     (case read_line (tm_in t) of
        None \<Rightarrow> (trim_space (tm_in t), t\<lparr>tm_in := []\<rparr>)
      | Some (line, rest) \<Rightarrow> (trim_space line, t\<lparr>tm_in := rest\<rparr>))"

definition promptChoice :: "string \<Rightarrow> string list \<Rightarrow> string \<Rightarrow> Terminal \<Rightarrow> string \<times> Terminal" where
  "promptChoice label options defaultValue t =
     (let t = say (label @ '' ['' @ str_join ''/'' options @ ''] (default: '' @ defaultValue @ ''): '') t;
          (line, t) = read_answer t
      in (if line = [] then defaultValue
          else case find (\<lambda>o'. equal_fold line o') options of
              Some o' \<Rightarrow> o'
            | None \<Rightarrow>
                (case atoi line of
                   Some idx \<Rightarrow> if idx \<ge> 1 \<and> idx \<le> int (length options) then options ! nat (idx - 1) else defaultValue
                 | None \<Rightarrow> defaultValue), t))"

definition promptDefault :: "string \<Rightarrow> string \<Rightarrow> Terminal \<Rightarrow> string \<times> Terminal" where
  "promptDefault label defaultValue t =
     (let (line, t) = read_answer (say (label @ '' (default: '' @ defaultValue @ ''): '') t)
      in (if line = [] then defaultValue else line, t))"

definition promptYesNo :: "string \<Rightarrow> bool \<Rightarrow> Terminal \<Rightarrow> bool \<times> Terminal" where
  "promptYesNo label defaultYes t =
     (let def = (if defaultYes then ''Y/n'' else ''y/N'');
          (line, t) = read_answer (say (label @ '' ['' @ def @ '']: '') t);
          line = to_lower line
      in (if line = [] then defaultYes else line = ''y'' \<or> line = ''yes'', t))"

record backendDetection =
  bd_Label :: string
  bd_Kind :: string
  bd_URL :: string
  bd_Models :: "string list"

definition detection :: "string \<Rightarrow> string \<Rightarrow> string \<Rightarrow> string list \<Rightarrow> backendDetection" where
  "detection label kind url models = \<lparr>bd_Label = label, bd_Kind = kind, bd_URL = url, bd_Models = models\<rparr>"

definition promptManualBackend :: "Terminal \<Rightarrow> backendDetection \<times> Terminal" where
  "promptManualBackend t =
     (let (choice, t) = promptChoice ''Backend type'' [''Ollama'', ''LM Studio'', ''OpenAI Compatible''] ''Ollama'' t
      in (if choice = ''LM Studio'' then detection ''LM Studio'' ''openai'' ''http://127.0.0.1:1234'' []
          else if choice = ''OpenAI Compatible'' then detection ''OpenAI Compatible'' ''openai'' ''http://127.0.0.1:9000'' []
          else detection ''Ollama'' ''ollama'' ''http://127.0.0.1:11434'' [], t))"

text \<open>A probe of a local backend: \<open>get\<close> is \<open>client.Get\<close>, \<open>decode\<close> yields the model names of the body.\<close>

definition detect_models ::
  "(string \<Rightarrow> go_error + HttpResponse) \<Rightarrow> (string \<Rightarrow> string list option) \<Rightarrow> string \<Rightarrow> string list option" where
  "detect_models get decode url =
     (case get url of
        Inl e \<Rightarrow> None
      | Inr resp \<Rightarrow>
          if go_quot (hr_StatusCode resp) 100 \<noteq> 2 then None
          else (case decode (hr_Body resp) of None \<Rightarrow> None | Some names \<Rightarrow> Some (keep_trimmed names)))"

definition detectOllamaModels :: "(string \<Rightarrow> go_error + HttpResponse) \<Rightarrow> (string \<Rightarrow> string list option) \<Rightarrow> string list option" where
  "detectOllamaModels get decodeTags = detect_models get decodeTags ''http://127.0.0.1:11434/api/tags''"

definition detectLMStudioModels :: "(string \<Rightarrow> go_error + HttpResponse) \<Rightarrow> (string \<Rightarrow> string list option) \<Rightarrow> string list option" where
  "detectLMStudioModels get decodeModels = detect_models get decodeModels ''http://127.0.0.1:1234/v1/models''"

definition detectBackends ::
  "(string \<Rightarrow> go_error + HttpResponse) \<Rightarrow> (string \<Rightarrow> string list option) \<Rightarrow> (string \<Rightarrow> string list option) \<Rightarrow> backendDetection list" where
  "detectBackends get decodeTags decodeModels =
     (case detectOllamaModels get decodeTags of
        Some ms \<Rightarrow> [detection ''Ollama'' ''ollama'' ''http://127.0.0.1:11434'' ms] | None \<Rightarrow> [])
     @ (case detectLMStudioModels get decodeModels of
          Some ms \<Rightarrow> [detection ''LM Studio'' ''openai'' ''http://127.0.0.1:1234'' ms] | None \<Rightarrow> [])"

definition say_detected :: "backendDetection list \<Rightarrow> Terminal \<Rightarrow> Terminal" where
  "say_detected detected t =
     fold (\<lambda>(i, d). say (''  ['' @ int_dec (int i + 1) @ ''] '' @ bd_Label d @ '' ('' @ bd_URL d @ '') models=''
          @ int_dec (int (length (bd_Models d))) @ [nl])) (enumerate 0 detected) t"

definition choose_backend :: "backendDetection list \<Rightarrow> Terminal \<Rightarrow> backendDetection \<times> Terminal" where
  "choose_backend detected t =
     (if detected \<noteq> [] then
        let t = say_detected detected (say (''Detected local backends:'' @ [nl]) t);
            choices = map bd_Label detected @ [''Manual''];
            (chosen, t) = promptChoice ''Select provider backend'' choices (choices ! 0) t
        in if chosen = ''Manual'' then promptManualBackend t
           else (case find (\<lambda>d. bd_Label d = chosen) detected of
                   Some d \<Rightarrow> d | None \<Rightarrow> detection ''Ollama'' ''ollama'' ''http://127.0.0.1:11434'' [], t)
      else promptManualBackend (say (''No local backend auto-detected. Using manual setup.'' @ [nl]) t))"

definition configureProviderBackend :: "backendDetection list \<Rightarrow> Config \<Rightarrow> Terminal \<Rightarrow> Config \<times> Terminal" where
  "configureProviderBackend detected cfg t =
     (let (selected, t) = choose_backend detected t;
          (url, t) = promptDefault ''Backend URL'' (bd_URL selected) t;
          cfg = cfg\<lparr>cfg_BackendKind := bd_Kind selected, cfg_BackendURL := url\<rparr>;
          modelsDefault = (if bd_Models selected \<noteq> [] then bd_Models selected else cfg_Models cfg);
          (exposeAll, t) =
            (if modelsDefault \<noteq> []
             then promptYesNo ''Expose all detected models?'' True
                    (say (''Detected models: '' @ str_join '','' modelsDefault @ [nl]) t)
             else (False, t))
      in if exposeAll then (cfg\<lparr>cfg_Models := modelsDefault\<rparr>, t)
         else let (input, t) = promptDefault ''Models to expose (comma-separated)'' (str_join '','' modelsDefault) t;
                  models = splitCSV input
              in (cfg\<lparr>cfg_Models := (if models = [] \<and> modelsDefault \<noteq> [] then modelsDefault else models)\<rparr>, t))"

text \<open>The steps of the dialogue after the mode was chosen.\<close>

definition setup_client :: "Config \<Rightarrow> Terminal \<Rightarrow> Config \<times> Terminal" where
  "setup_client cfg t =
     (if cfg_Mode cfg = ''client'' \<or> cfg_Mode cfg = ''both''
      then let (name, t) = promptDefault ''Client name'' (cfg_ClientName cfg) t in (cfg\<lparr>cfg_ClientName := name\<rparr>, t)
      else (cfg, t))"

definition setup_provider :: "backendDetection list \<Rightarrow> Config \<Rightarrow> Terminal \<Rightarrow> Config \<times> Terminal" where
  "setup_provider detected cfg t =
     (if cfg_Mode cfg = ''provider'' \<or> cfg_Mode cfg = ''both''
      then let (name, t) = promptDefault ''Provider name'' (cfg_ProviderName cfg) t
           in configureProviderBackend detected (cfg\<lparr>cfg_ProviderName := name\<rparr>) t
      else (cfg, t))"

definition setup_network :: "Config \<Rightarrow> Config \<Rightarrow> Config" where
  "setup_network def cfg =
     (let cfg = (if cfg_Libp2pBootstrap cfg = [] then cfg\<lparr>cfg_Libp2pBootstrap := cfg_Libp2pBootstrap def\<rparr> else cfg);
          cfg = (if trim_space (cfg_Libp2pRendezvous cfg) = [] then cfg\<lparr>cfg_Libp2pRendezvous := cfg_Libp2pRendezvous def\<rparr> else cfg)
      in cfg\<lparr>cfg_Libp2pAutoRelay := True, cfg_Libp2pNATPortMap := True, cfg_Libp2pHolePunching := True\<rparr>)"

definition runSetupWizard :: "Config \<Rightarrow> backendDetection list \<Rightarrow> Config \<Rightarrow> Terminal \<Rightarrow> Config \<times> Terminal" where
  "runSetupWizard def detected cfg t =
     (let t = say (''GPUSwarm first-run setup'' @ [nl]) t;
          t = say (''Press Enter to accept defaults.'' @ [nl]) t;
          cfg = cfg\<lparr>cfg_Transport := ''libp2p''\<rparr>;
          (modeChoice, t) = promptChoice ''Select mode'' [''client'', ''provider'', ''both''] (cfg_Mode cfg) t;
          (cfg, t) = setup_client (cfg\<lparr>cfg_Mode := modeChoice\<rparr>) t;
          (cfg, t) = setup_provider detected cfg t;
          cfg = setup_network def cfg
      in (cfg, say (''Configured mode='' @ cfg_Mode cfg @ '' transport='' @ cfg_Transport cfg @ [nl]) t))"

section \<open>Starting\<close>

text \<open>The configuration before the flags: \<open>loaded\<close> is what \<open>Load\<close> returned, if the file exists;
  \<open>simple\<close> says whether the dialogue may be held.\<close>

definition initial_config ::
  "Config \<Rightarrow> backendDetection list \<Rightarrow> bool \<Rightarrow> string \<Rightarrow> (Config \<times> go_error option) option \<Rightarrow> Terminal
    \<Rightarrow> (go_error + Config) \<times> Terminal" where
  "initial_config def detected simple cfgPath loaded t =
     (case loaded of
        Some (_, Some e) \<Rightarrow> (Inl e, t)
      | Some (cfg, None) \<Rightarrow>
          if simple then
            let modeHint = trim_space (cfg_Mode cfg);
                modeHint = (if modeHint = [] then ''both'' else modeHint);
                (use, t) = promptYesNo (''Use saved config (mode='' @ modeHint @ '') from '' @ cfgPath @ ''?'') True t
            in if use then (Inr cfg, t)
               else let (cfg, t) = runSetupWizard def detected cfg t in (Inr cfg, t)
          else (Inr cfg, t)
      | None \<Rightarrow>
          if simple then let (cfg, t) = runSetupWizard def detected def t in (Inr cfg, t)
          else (Inr def, t))"

text \<open>How \<open>main\<close> goes on: it exits with an error, it saves and returns, or it starts the node.\<close>

datatype startup_result = Refused go_error | SavedOnly Config | Started Config

definition resolve_and_save ::
  "Config \<Rightarrow> bool \<Rightarrow> bool \<Rightarrow> (Config \<Rightarrow> 'f \<Rightarrow> go_error option \<times> 'f) \<Rightarrow> Config \<Rightarrow> 'f \<Rightarrow> startup_result \<times> 'f" where
  "resolve_and_save def saveConfig cfgExists save cfg f =
     (case ResolveAndValidate def cfg of
        (c, Some e) \<Rightarrow> (Refused e, f)
      | (c, None) \<Rightarrow>
          if saveConfig \<or> \<not> cfgExists then
            (case save c f of
               (Some e, f) \<Rightarrow> (Refused e, f)
             | (None, f) \<Rightarrow> (if saveConfig then SavedOnly c else Started c, f))
          else (Started c, f))"

text \<open>\<open>cfgPath\<close> is where the configuration is looked for before the flags are parsed, \<open>-config\<close> where it
  is saved to. (The log file, opened before the saving, is left out.)\<close>

definition config_path :: "Flags \<Rightarrow> string \<Rightarrow> string" where
  "config_path F cfgPath = flag_or (fl_string F ''config'') cfgPath"

definition save_config :: "Flags \<Rightarrow> bool" where
  "save_config F = flag_or (fl_bool F ''save-config'') False"

definition startup ::
  "Codec \<Rightarrow> Codec \<Rightarrow> 'f Disk \<Rightarrow> Config \<Rightarrow> backendDetection list \<Rightarrow> bool \<Rightarrow> string \<Rightarrow> Flags \<Rightarrow> Terminal \<Rightarrow> 'f
    \<Rightarrow> (startup_result \<times> Terminal) \<times> 'f" where
  "startup json yaml disk def detected simple cfgPath F t f =
     (let loaded = (if Exists disk cfgPath f then Some (Load json yaml disk def cfgPath f) else None) in
      case initial_config def detected simple cfgPath loaded t of
        (Inl e, t) \<Rightarrow> ((Refused e, t), f)
      | (Inr cfg, t) \<Rightarrow>
          let path = config_path F cfgPath;
              (r, f) = resolve_and_save def (save_config F) (Exists disk path f) (Save json yaml disk path) (flags_config F cfg) f
          in ((r, t), f))"

section \<open>Putting the services together\<close>

definition routing_weights :: "Config \<Rightarrow> RoutingWeights" where
  "routing_weights cfg =
     \<lparr>w_Latency = cfg_WeightLatency cfg, w_QueueDepth = cfg_WeightQueueDepth cfg,
      w_VRAMPressure = cfg_WeightVRAMPressure cfg, w_Reliability = cfg_WeightReliability cfg,
      w_FavoriteBonus = cfg_WeightFavoriteBonus cfg, w_KnownBonus = cfg_WeightKnownBonus cfg\<rparr>"

definition node_config :: "Config \<Rightarrow> Libp2pConfig" where
  "node_config cfg =
     \<lparr>lc_ListenAddrs = cfg_Libp2pListenAddrs cfg, lc_BootstrapPeers = cfg_Libp2pBootstrap cfg,
      lc_Rendezvous = cfg_Libp2pRendezvous cfg, lc_EnableMDNS = True, lc_EnableNATPortMap = cfg_Libp2pNATPortMap cfg,
      lc_EnableHolePunching = cfg_Libp2pHolePunching cfg, lc_EnableAutoRelay = cfg_Libp2pAutoRelay cfg,
      lc_EnableRelayService = cfg_Libp2pRelayService cfg\<rparr>"

text \<open>The node's identity: derived from the key, overridden by the configuration, and over libp2p
  always that of the libp2p host.\<close>

definition effectivePeerID :: "Config \<Rightarrow> string \<Rightarrow> string option \<Rightarrow> string" where
  "effectivePeerID cfg derived libp2pID =
     (case libp2pID of
        Some hostID \<Rightarrow> hostID
      | None \<Rightarrow> if cfg_PeerID cfg \<noteq> [] then cfg_PeerID cfg else derived)"

definition client_options :: "Config \<Rightarrow> string \<Rightarrow> ClientOptions" where
  "client_options cfg peerID =
     \<lparr>co_PeerID = peerID, co_PeerName = cfg_ClientName cfg, co_RoutingPolicy = cfg_RoutingPolicy cfg,
      co_FavoritePeers = cfg_FavoritePeers cfg, co_BlockedPeers = cfg_BlockedPeers cfg,
      co_AllowedPeers = cfg_AllowedPeers cfg, co_StickyPeerTTL = cfg_StickyPeerTTL cfg,
      co_PoWDifficulty = cfg_PoWDifficulty cfg, co_PoWMaxIters = 0, co_CreditCost = 0\<rparr>"

definition provider_policy :: "Config \<Rightarrow> ProviderPolicy" where
  "provider_policy cfg =
     \<lparr>MaxTokensPerRequest = cfg_MaxTokensPerRequest cfg, NightOnly = cfg_NightOnly cfg,
      NightStartHour = cfg_NightStartHour cfg, NightEndHour = cfg_NightEndHour cfg, IdleOnly = cfg_IdleOnly cfg,
      MaxLoad1m = cfg_MaxLoad1m cfg, PoWDifficulty = cfg_PoWDifficulty cfg, MinPeerReputation = cfg_MinPeerReputation cfg\<rparr>"

definition initial_capability :: "Config \<Rightarrow> string \<Rightarrow> string list option \<Rightarrow> CapabilityDocument" where
  "initial_capability cfg peerID libp2pAddrs =
     (let gatewayURL = (case libp2pAddrs of
            None \<Rightarrow> buildAdvertiseURL (cfg_AdvertiseURL cfg) (cfg_ProviderAddr cfg)
          | Some addrs \<Rightarrow> ''libp2p://'' @ peerID);
          cap = zero_doc\<lparr>PeerID := peerID, NodeName := cfg_ProviderName cfg,
            Models := parseModelSpecs (cfg_Models cfg) (cfg_ModelSpecs cfg), GPU := cfg_GPU cfg,
            VRAMFreeMB := cfg_VRAMFreeMB cfg, QueueDepth := 0, AvgLatencyMS := 50, Reliability := Fin 1,
            GatewayURL := gatewayURL\<rparr>
      in case libp2pAddrs of None \<Rightarrow> cap | Some addrs \<Rightarrow> cap\<lparr>AnnounceAddrs := addrs\<rparr>)"

text \<open>The ledger and the tracker are made by the caller: in mode \<open>both\<close> the client and the provider of a
  node get the same two objects.\<close>

definition start_client :: "Config \<Rightarrow> string \<Rightarrow> CreditLedger \<Rightarrow> ReputationTracker \<Rightarrow> ClientService" where
  "start_client cfg peerID creditLedger reputation =
     NewClientService (routing_weights cfg) (client_options cfg peerID) (Some creditLedger) (Some reputation)"

definition start_provider ::
  "Config \<Rightarrow> string \<Rightarrow> string list option \<Rightarrow> gtime \<Rightarrow> CreditLedger \<Rightarrow> ReputationTracker \<Rightarrow> ProviderService" where
  "start_provider cfg peerID libp2pAddrs now creditLedger reputation =
     NewProviderService (NewLimiter (cfg_MaxInflight cfg) (cfg_RatePerSecond cfg) (cfg_Burst cfg) now)
       (NewCapabilityState (initial_capability cfg peerID libp2pAddrs) now) (provider_policy cfg)
       (Some creditLedger) (Some reputation)"

text \<open>The services right after the start.\<close>

abbreviation fresh_client :: "Config \<Rightarrow> string \<Rightarrow> ClientService" where
  "fresh_client cfg peerID \<equiv> start_client cfg peerID (NewCreditLedger (cfg_InitialCredits cfg)) NewReputationTracker"

abbreviation fresh_provider :: "Config \<Rightarrow> string \<Rightarrow> string list option \<Rightarrow> gtime \<Rightarrow> ProviderService" where
  "fresh_provider cfg peerID libp2pAddrs now \<equiv>
     start_provider cfg peerID libp2pAddrs now (NewCreditLedger (cfg_InitialCredits cfg)) NewReputationTracker"

definition use_ollama :: "Config \<Rightarrow> bool" where
  "use_ollama cfg = (norm_word (cfg_BackendKind cfg) = ''ollama'')"

text \<open>The document a libp2p provider publishes on each tick, and the state it keeps.\<close>

definition publish_doc :: "Libp2pLib \<Rightarrow> string list \<Rightarrow> gtime \<Rightarrow> gtime \<Rightarrow> Libp2pNode \<Rightarrow> CapabilityState \<Rightarrow> CapabilityDocument \<times> CapabilityState" where
  "publish_doc lib hostAddrs now1 now2 node s =
     (let capDoc = (Snapshot now1 s)\<lparr>PeerID := lp_string lib (ln_ID node), GatewayURL := ''libp2p://'' @ lp_string lib (ln_ID node),
            AnnounceAddrs := AdvertiseAddrs lib hostAddrs node\<rparr>
      in (capDoc, SetAnnounceAddrs (AnnounceAddrs capDoc) now2 s))"

text \<open>The sources of discovery of a client node, by what each would answer.\<close>

definition client_sources ::
  "Config \<Rightarrow> go_error + CapabilityDocument list \<Rightarrow> go_error + CapabilityDocument list
    \<Rightarrow> (go_error + CapabilityDocument list) option \<Rightarrow> (go_error + CapabilityDocument list) list" where
  "client_sources cfg http lan libp2p =
     (if cfg_ProviderPeerURLs cfg \<noteq> [] then [http] else []) @ (if cfg_LANDiscovery cfg then [lan] else [])
     @ (case libp2p of None \<Rightarrow> [] | Some l \<Rightarrow> [l])"

text \<open>The adapter that hands a libp2p request to the provider service.\<close>

definition p2pProviderAdapter ::
  "CallEnv \<Rightarrow> CallEnv \<Rightarrow> ProviderService \<Rightarrow> infer_handler" where
  "p2pProviderAdapter env env2 s req peerCtx = fst (serve env env2 req peerCtx s)"

section \<open>Lists as text\<close>

text \<open>The entries comma-separated text gives back unchanged.\<close>

definition csv_entry :: "string \<Rightarrow> bool" where
  "csv_entry w = (w \<noteq> [] \<and> trim_space w = w \<and> CHR '','' \<notin> set w)"

lemma keep_trimmed_clean: "list_all csv_entry xs \<Longrightarrow> keep_trimmed xs = xs"
  by (induction xs) (auto simp: csv_entry_def Let_def)

lemma keep_trimmed_entries: "\<forall>w\<in>set ps. CHR '','' \<notin> set w \<Longrightarrow> list_all csv_entry (keep_trimmed ps)"
  by (induction ps) (use set_trim_space in \<open>auto simp: csv_entry_def Let_def\<close>)

lemma splitCSV_entries: "list_all csv_entry (splitCSV v)"
  unfolding splitCSV_def by (intro keep_trimmed_entries) (auto dest: split_on_no_sep)

lemma split_join_CSV: "list_all csv_entry xs \<Longrightarrow> splitCSV (joinCSV xs) = xs"
proof (cases "xs = []")
  case True
  then show ?thesis by (simp add: splitCSV_def joinCSV_def Let_def)
next
  case False
  assume "list_all csv_entry xs"
  then have "split_on (CHR '','') (joinCSV xs) = xs" "keep_trimmed xs = xs"
    using False unfolding joinCSV_def by (auto simp: list_all_iff csv_entry_def intro!: split_on_join keep_trimmed_clean)
  then show ?thesis by (simp add: splitCSV_def)
qed

lemma split_join_split [simp]: "splitCSV (joinCSV (splitCSV v)) = splitCSV v"
  by (rule split_join_CSV[OF splitCSV_entries])

text \<open>The lists of a configuration survive their journey through the flags.\<close>

definition lists_clean :: "Config \<Rightarrow> bool" where
  "lists_clean c = list_all (\<lambda>l. list_all csv_entry (l c))
     [cfg_ProviderPeerURLs, cfg_Models, cfg_ModelSpecs, cfg_Libp2pListenAddrs, cfg_Libp2pBootstrap,
      cfg_FavoritePeers, cfg_BlockedPeers, cfg_AllowedPeers]"

lemma no_flags_keep: "lists_clean c \<Longrightarrow> flags_config no_flags c = c"
  by (simp add: flags_config_def no_flags_def flag_or_def split_join_CSV lists_clean_def)

lemma no_flags_paths: "config_path no_flags p = p" "\<not> save_config no_flags"
  by (simp_all add: config_path_def save_config_def no_flags_def flag_or_def)

lemma flags_lists_clean: "lists_clean (flags_config F c)"
  by (simp add: lists_clean_def flags_config_def splitCSV_entries)

section \<open>Resolving what the flags gave\<close>

lemma fill_weights_lists: "lists_clean (fill_weights def c) = lists_clean c"
  by (simp add: lists_clean_def fill_weights_def)

lemma fill_fields_lists: "lists_clean c \<Longrightarrow> lists_clean def \<Longrightarrow> lists_clean (fill_fields def c)"
  by (simp add: lists_clean_def fill_fields_def fill_list_def Let_def)

lemma resolve_lists: "ResolveAndValidate def cfg = (c, None) \<Longrightarrow> lists_clean cfg \<Longrightarrow> lists_clean def \<Longrightarrow> lists_clean c"
  by (erule resolve_accepts) (simp add: fill_weights_lists fill_fields_lists, simp add: lists_clean_def fill_fields_def fill_list_def Let_def)

lemma default_lists: "lists_clean (DefaultConfig hostname homedir)"
proof -
  have "list_all csv_entry [''/ip4/0.0.0.0/tcp/39001'',
    ''/ip4/3.234.252.173/tcp/39001/p2p/12D3KooWFU1RPiGmvFcURiaph5GueGpvQ2VPkQfR2YQej6ogmpzg'']"
    by code_simp
  then show ?thesis by (simp add: lists_clean_def DefaultConfig_def Let_def)
qed

lemma resolve_accepts_if:
  assumes "cfg_Mode cfg \<in> set modes" "cfg_Transport cfg = ''libp2p''" "trim_space (cfg_RoutingPolicy cfg) \<noteq> []"
    "norm_word (cfg_RoutingPolicy cfg) \<in> set policies" "cfg_BackendURL def \<noteq> []"
  obtains c where "ResolveAndValidate def cfg = (c, None)"
proof -
  have t: "''libp2p'' \<in> set transports" by (simp add: transports_def)
  have m: "norm_word (cfg_Mode cfg) = cfg_Mode cfg" "cfg_Mode cfg \<noteq> []" using norm_modes[OF assms(1)] by auto
  have n: "norm_word ''libp2p'' = ''libp2p''" using norm_transports[OF t] by simp
  define f where "f = fill_fields def (cfg\<lparr>cfg_Transport := ''libp2p''\<rparr>)"
  have p: "cfg_RoutingPolicy f = norm_word (cfg_RoutingPolicy cfg)" "cfg_BackendURL f \<noteq> []" "cfg_Transport f = ''libp2p''"
    using assms(3,5) by (simp_all add: f_def fill_fields_def fill_defs Let_def)
  have "ResolveAndValidate def cfg = (fill_weights def f, None)"
    unfolding ResolveAndValidate_def
    using m n t assms(1,2,4) p by (simp add: Let_def f_def[symmetric] fill_weights_def)
  then show thesis by (rule that)
qed

section \<open>What the dialogue leaves\<close>

lemma promptChoice_among: "fst (promptChoice label options def t) \<in> insert def (set options)"
  unfolding promptChoice_def Let_def
  by (auto split: prod.splits if_splits option.splits dest!: find_SomeD)

lemma configureProviderBackend_keeps [simp]:
  "cfg_Mode (fst (configureProviderBackend detected cfg t)) = cfg_Mode cfg"
  "cfg_Transport (fst (configureProviderBackend detected cfg t)) = cfg_Transport cfg"
  "cfg_RoutingPolicy (fst (configureProviderBackend detected cfg t)) = cfg_RoutingPolicy cfg"
  unfolding configureProviderBackend_def Let_def by (simp_all add: case_prod_unfold)

lemma setup_keeps [simp]:
  "cfg_Mode (fst (setup_client cfg t)) = cfg_Mode cfg" "cfg_Mode (fst (setup_provider detected cfg t)) = cfg_Mode cfg"
  "cfg_Mode (setup_network def cfg) = cfg_Mode cfg"
  "cfg_Transport (fst (setup_client cfg t)) = cfg_Transport cfg" "cfg_Transport (fst (setup_provider detected cfg t)) = cfg_Transport cfg"
  "cfg_Transport (setup_network def cfg) = cfg_Transport cfg"
  "cfg_RoutingPolicy (fst (setup_client cfg t)) = cfg_RoutingPolicy cfg"
  "cfg_RoutingPolicy (fst (setup_provider detected cfg t)) = cfg_RoutingPolicy cfg"
  "cfg_RoutingPolicy (setup_network def cfg) = cfg_RoutingPolicy cfg"
  by (simp_all add: setup_client_def setup_provider_def setup_network_def Let_def case_prod_unfold)

lemma wizard_keeps:
  "cfg_Transport (fst (runSetupWizard def detected cfg t)) = ''libp2p''"
  "cfg_RoutingPolicy (fst (runSetupWizard def detected cfg t)) = cfg_RoutingPolicy cfg"
  "cfg_Mode (fst (runSetupWizard def detected cfg t)) \<in> {cfg_Mode cfg, ''client'', ''provider'', ''both''}"
  using promptChoice_among[of "''Select mode''" "[''client'', ''provider'', ''both'']" "cfg_Mode cfg"]
  by (simp_all add: runSetupWizard_def Let_def case_prod_unfold)

lemma flags_keep:
  "cfg_Mode (flags_config no_flags c) = cfg_Mode c" "cfg_Transport (flags_config no_flags c) = cfg_Transport c"
  "cfg_RoutingPolicy (flags_config no_flags c) = cfg_RoutingPolicy c"
  by (simp_all add: flags_config_def no_flags_def flag_or_def)

text \<open>C38: The first start of a node, with no file and no flags, holds the setup dialogue and never
  ends in a configuration error: whatever is typed (and whatever backends are found), the
  configuration is accepted and settled, over libp2p, it is saved, and the node starts with it unless the
  saving fails.\<close>

theorem first_setup_starts:
  assumes "\<not> dk_exists disk path f"
  shows "\<exists>c t'. startup json yaml disk (DefaultConfig hostname homedir) detected True path no_flags t f
        = ((case fst (Save json yaml disk path c f) of None \<Rightarrow> Started c | Some e \<Rightarrow> Refused e, t'), snd (Save json yaml disk path c f))
     \<and> cfg_Transport c = ''libp2p'' \<and> settled c"
proof -
  let ?d = "DefaultConfig hostname homedir"
  obtain w t' where w: "runSetupWizard ?d detected ?d t = (w, t')" by force
  let ?f = "flags_config no_flags w"
  have d: "cfg_Mode ?d = ''both''" "cfg_RoutingPolicy ?d = ''auto''" "cfg_BackendURL ?d \<noteq> []"
    by (simp_all add: DefaultConfig_def Let_def)
  have "''auto'' \<in> set policies" by (simp add: policies_def)
  note pol = norm_policies[OF this]
  have "cfg_Mode ?f \<in> set modes" "cfg_Transport ?f = ''libp2p''" "cfg_RoutingPolicy ?f = ''auto''"
    using wizard_keeps[of ?d detected ?d t] by (auto simp: flags_keep d modes_def w)
  then obtain c where c: "ResolveAndValidate ?d ?f = (c, None)"
    by (rule_tac resolve_accepts_if[of ?f ?d]) (use pol d(3) in \<open>auto simp: policies_def\<close>)
  have "cfg_Transport c = ''libp2p''"
    using c by (cases rule: resolve_accepts)
      (use \<open>cfg_Transport ?f = ''libp2p''\<close> in \<open>simp add: fill_weights_def fill_fields_def fill_str_def Let_def norm_transports transports_def\<close>)
  moreover have "startup json yaml disk ?d detected True path no_flags t f
      = ((case fst (Save json yaml disk path c f) of None \<Rightarrow> Started c | Some e \<Rightarrow> Refused e, t'), snd (Save json yaml disk path c f))"
  proof -
    obtain e g where e: "Save json yaml disk path c f = (e, g)" by force
    show ?thesis using assms
      by (cases e) (simp_all add: startup_def initial_config_def w c e resolve_and_save_def Exists_def no_flags_paths Let_def)
  qed
  ultimately show ?thesis using resolve_settles[OF c] by blast
qed


text \<open>A disk of one file, and a codec that has a text for the fields of one configuration only and refuses all others.\<close>

definition one_file :: "string option Disk" where
  "one_file = \<lparr>dk_read = (\<lambda>p f. case f of None \<Rightarrow> Inl ErrNoPeers | Some b \<Rightarrow> Inr b), dk_mkdir = (\<lambda>p f. (None, f)),
     dk_write = (\<lambda>p b f. (None, Some b)), dk_exists = (\<lambda>p f. f \<noteq> None)\<rparr>"

definition default_codec :: Codec where
  "default_codec =
     (let fields = config_fields (DefaultConfig ''h'' None) in
      \<lparr>cd_encode = (\<lambda>fs. if fs = fields then Inr ''defaults'' else Inl (ErrText ''unsupported'')),
       cd_decode = (\<lambda>b. if b = ''defaults'' then (fields, None) else ([], Some (ErrText ''unsupported'')))\<rparr>)"

lemma default_codec_reads_back: "reads_back default_codec (DefaultConfig ''h'' None)"
  by (simp add: reads_back_def default_codec_def Let_def)

lemma one_file_keeps: "keeps_files one_file"
  by (simp add: keeps_files_def one_file_def)

theorem first_setup_starts_witness:
  "\<exists>c r t' f'. startup default_codec default_codec one_file (DefaultConfig ''h'' None) [] True ''p'' no_flags \<lparr>tm_in = [], tm_out = []\<rparr> None
     = ((r, t'), f') \<and> (r = Started c \<or> (\<exists>e. r = Refused e \<and> fst (Save default_codec default_codec one_file ''p'' c None) = Some e)) \<and> settled c"
  using first_setup_starts[of one_file "''p''" None default_codec default_codec "''h''" None "[]" "\<lparr>tm_in = [], tm_out = []\<rparr>"]
  by (fastforce simp: one_file_def split: option.splits)


section \<open>Addresses\<close>

lemma last_split_on: "c \<notin> set w \<Longrightarrow> last (split_on c (s @ c # w)) = w"
  by (simp add: split_on_sep split_on_single)

lemma has_prefix_head: "has_prefix [a] s \<longleftrightarrow> s \<noteq> [] \<and> hd s = a"
  by (cases s) (auto simp: has_prefix_def)

lemma takeWhile_bracket: "c \<notin> set h \<Longrightarrow> takeWhile (\<lambda>x. x \<noteq> c) (h @ c # r) = h"
  by (induction h) auto

text \<open>Splitting what was joined gives the host and the port back, for names, IPv4 and IPv6
  addresses alike, so the address a provider advertises leads to the port it listens on: a
  wildcard host is replaced by the loopback address, any other host is kept.\<close>

theorem advertised_address:
  assumes "set host \<inter> {CHR ''['', CHR '']''} = {}" "set port \<inter> {CHR '':'', CHR ''['', CHR '']''} = {}"
  shows "SplitHostPort (JoinHostPort host port) = Some (host, port) \<and>
    buildAdvertiseURL [] (JoinHostPort host port) = ''http://'' @ JoinHostPort
       (if host \<in> {[], ''0.0.0.0'', ''::''} then ''127.0.0.1'' else host) (if port = [] then ''7777'' else port)"
proof -
  have p: "CHR '':'' \<notin> set port" "CHR ''['' \<notin> set port" "CHR '']'' \<notin> set port" and
    h: "CHR ''['' \<notin> set host" "CHR '']'' \<notin> set host" using assms by auto
  have s: "SplitHostPort (JoinHostPort host port) = Some (host, port)"
  proof (cases "CHR '':'' \<in> set host")
    case True
    have "JoinHostPort host port = (''['' @ host @ '']'') @ CHR '':'' # port" using True by (simp add: JoinHostPort_def)
    then show ?thesis
      using p h last_split_on[OF p(1), of "''['' @ host @ '']''"] takeWhile_bracket[OF h(2), of "CHR '':'' # port"]
      by (simp add: SplitHostPort_def has_prefix_head)
  next
    case False
    have j: "JoinHostPort host port = host @ CHR '':'' # port" using False by (simp add: JoinHostPort_def)
    have "\<not> has_prefix ''['' (host @ CHR '':'' # port)"
      using h(1) by (cases host) (auto simp: has_prefix_head)
    then show ?thesis
      using p h False last_split_on[OF p(1), of host] by (simp add: SplitHostPort_def j)
  qed
  then show ?thesis
    by (simp add: buildAdvertiseURL_def s Let_def)
qed

theorem advertised_address_witness:
  "SplitHostPort ''[::1]:80'' = Some (''::1'', ''80'')
   \<and> buildAdvertiseURL [] ''[::1]:80'' = ''http://[::1]:80'' \<and> buildAdvertiseURL [] ''[::]:80'' = ''http://127.0.0.1:80''"
proof -
  have a: "JoinHostPort ''::1'' ''80'' = ''[::1]:80''" "JoinHostPort ''::'' ''80'' = ''[::]:80''"
    "JoinHostPort ''127.0.0.1'' ''80'' = ''127.0.0.1:80''" by (simp_all add: JoinHostPort_def)
  show ?thesis
    using advertised_address[where host = "''::1''" and port = "''80''"] advertised_address[where host = "''::''" and port = "''80''"]
    by (simp add: a)
qed

end
