(* ===== verification/Chat.thy ===== *)
theory Chat
  imports Api Config
begin

text \<open>
  The interactive chat (\<^verbatim>\<open>internal/cli/chat.go\<close> and \<^verbatim>\<open>cmd/infermeshd/chat_cmd.go\<close>). A session holds the
  runner's options, the daemon it talks to (a state behind \<open>ch_serve\<close>), the input lines that the
  scanner still delivers (a line of 1 MiB or more would end the input for it), and what was written to the two outputs. The network, URL joining, the codecs, the
  clock, the menus of \<open>promptui\<close>, sorting and map enumeration are the environment \<open>ChatEnv\<close>.
\<close>

section \<open>State and environment\<close>

record ChatOptions =
  op_BaseURL :: string
  op_Model :: string

record sendStats =
  ss_TotalLatency :: duration
  ss_FirstTokenLatency :: duration
  ss_CharsStreamed :: int

record modelChoice =
  mc_Name :: string
  mc_Providers :: "CapabilityDocument list"

record routingSettings =
  cr_RoutingPolicy :: string
  cr_AllowedPeers :: "string list"

text \<open>\<open>ch_menu\<close>: the index chosen in a menu, told apart by the number of the menu; \<open>None\<close> when it is
  left with an error. \<open>ch_chunk\<close>: the contents of the choices of a chunk, if it decodes.\<close>

record 'd ChatEnv =
  ch_join :: "string \<Rightarrow> string list \<Rightarrow> go_error + string"
  ch_url_error :: "string \<Rightarrow> go_error option"
  ch_serve :: "HttpRequest \<Rightarrow> 'd \<Rightarrow> (go_error + HttpResponse) \<times> 'd"
  ch_prompt_body :: "ChatCompletionRequest \<Rightarrow> string"
  ch_policy_body :: "string \<Rightarrow> string"
  ch_chunk :: "string \<Rightarrow> string list option"
  ch_peers :: "string \<Rightarrow> go_error + CapabilityDocument list"
  ch_settings :: "string \<Rightarrow> go_error + routingSettings"
  ch_clock :: "nat \<Rightarrow> gtime"
  ch_menu :: "nat \<Rightarrow> string \<Rightarrow> string list \<Rightarrow> nat option"
  ch_dur :: "duration \<Rightarrow> string"
  ch_float2 :: "f64 \<Rightarrow> string"
  ch_range :: "(string \<times> CapabilityDocument list) list \<Rightarrow> (string \<times> CapabilityDocument list) list"
  ch_sortDocs :: "(CapabilityDocument \<Rightarrow> CapabilityDocument \<Rightarrow> bool) \<Rightarrow> CapabilityDocument list \<Rightarrow> CapabilityDocument list"
  ch_sortChoices :: "(modelChoice \<Rightarrow> modelChoice \<Rightarrow> bool) \<Rightarrow> modelChoice list \<Rightarrow> modelChoice list"

record 'd Chat =
  ch_opts :: ChatOptions
  ch_daemon :: 'd
  ch_lines :: "string list"
  ch_ticks :: nat
  ch_menus :: nat
  ch_out :: string
  ch_err :: string

definition clean_options :: "ChatOptions \<Rightarrow> ChatOptions" where
  "clean_options opts =
     (let base = trim_right_char (CHR 0x2F) (trim_space (op_BaseURL opts));
          base = (if base = [] then ''http://127.0.0.1:5555'' else base);
          modelName = trim_space (op_Model opts);
          modelName = (if modelName = [] then ''llama3-8b'' else modelName)
      in \<lparr>op_BaseURL = base, op_Model = modelName\<rparr>)"

definition NewChatRunner :: "ChatOptions \<Rightarrow> string list \<Rightarrow> 'd \<Rightarrow> 'd Chat" where
  "NewChatRunner opts input daemon =
     \<lparr>ch_opts = clean_options opts, ch_daemon = daemon, ch_lines = input, ch_ticks = 0, ch_menus = 0,
      ch_out = [], ch_err = []\<rparr>"

definition chat_model :: "'d Chat \<Rightarrow> string" where
  "chat_model s = op_Model (ch_opts s)"

definition set_model :: "string \<Rightarrow> 'd Chat \<Rightarrow> 'd Chat" where
  "set_model m s = s\<lparr>ch_opts := (ch_opts s)\<lparr>op_Model := m\<rparr>\<rparr>"

definition put :: "string \<Rightarrow> 'd Chat \<Rightarrow> 'd Chat" where
  "put t s = s\<lparr>ch_out := ch_out s @ t\<rparr>"

definition puts :: "string \<Rightarrow> 'd Chat \<Rightarrow> 'd Chat" where
  "puts t s = put (t @ [nl]) s"

definition warns :: "string \<Rightarrow> 'd Chat \<Rightarrow> 'd Chat" where
  "warns t s = s\<lparr>ch_err := ch_err s @ t @ [nl]\<rparr>"

definition time_now :: "'d ChatEnv \<Rightarrow> 'd Chat \<Rightarrow> gtime \<times> 'd Chat" where
  "time_now E s = (ch_clock E (ch_ticks s), s\<lparr>ch_ticks := Suc (ch_ticks s)\<rparr>)"

definition run_menu :: "'d ChatEnv \<Rightarrow> string \<Rightarrow> string list \<Rightarrow> 'd Chat \<Rightarrow> nat option \<times> 'd Chat" where
  "run_menu E label items s = (ch_menu E (ch_menus s) label items, s\<lparr>ch_menus := Suc (ch_menus s)\<rparr>)"

text \<open>A step that may fail, and then stops.\<close>

definition and_then :: "(go_error + 'a) \<times> 's \<Rightarrow> ('a \<Rightarrow> 's \<Rightarrow> (go_error + 'b) \<times> 's) \<Rightarrow> (go_error + 'b) \<times> 's" where
  "and_then m f = (case m of (Inl e, s) \<Rightarrow> (Inl e, s) | (Inr x, s) \<Rightarrow> f x s)"

section \<open>Talking to the daemon\<close>

definition chat_do ::
  "'d ChatEnv \<Rightarrow> string \<Rightarrow> string list \<Rightarrow> (string, string) gomap \<Rightarrow> string \<Rightarrow> 'd Chat \<Rightarrow> (go_error + HttpResponse) \<times> 'd Chat" where
  "chat_do E verb path header body s =
     (case ch_join E (op_BaseURL (ch_opts s)) path of
        Inl e \<Rightarrow> (Inl e, s)
      | Inr u \<Rightarrow>
          (case ch_url_error E u of
             Some e \<Rightarrow> (Inl e, s)
           | None \<Rightarrow>
               let (r, d) = ch_serve E \<lparr>hq_Method = verb, hq_URL = u, hq_Header = header, hq_Body = body\<rparr> (ch_daemon s)
               in (r, s\<lparr>ch_daemon := d\<rparr>)))"

definition refusal :: "string \<Rightarrow> HttpResponse \<Rightarrow> go_error" where
  "refusal what r = ErrText (what @ '' failed: status='' @ int_dec (hr_StatusCode r) @ '' body='' @ trim_space (hr_Body r))"

definition expect_2xx :: "string \<Rightarrow> HttpResponse \<Rightarrow> 's \<Rightarrow> (go_error + HttpResponse) \<times> 's" where
  "expect_2xx what r s = (if go_quot (hr_StatusCode r) 100 \<noteq> 2 then Inl (refusal what r) else Inr r, s)"

definition fetchRoutingSettings :: "'d ChatEnv \<Rightarrow> 'd Chat \<Rightarrow> (go_error + routingSettings) \<times> 'd Chat" where
  "fetchRoutingSettings E s =
     and_then (and_then (chat_do E ''GET'' [''/v1/mesh/routing''] [] [] s) (expect_2xx ''routing request''))
       (\<lambda>r s. (ch_settings E (hr_Body r), s))"

definition fetchPeers :: "'d ChatEnv \<Rightarrow> 'd Chat \<Rightarrow> (go_error + CapabilityDocument list) \<times> 'd Chat" where
  "fetchPeers E s =
     and_then (and_then (chat_do E ''GET'' [''/v1/mesh/peers''] [] [] s) (expect_2xx ''peers request''))
       (\<lambda>r s. (ch_peers E (hr_Body r), s))"

definition selectPeer :: "'d ChatEnv \<Rightarrow> string \<Rightarrow> 'd Chat \<Rightarrow> (go_error + unit) \<times> 'd Chat" where
  "selectPeer E peerID s =
     and_then (and_then (chat_do E ''POST'' [''/v1/mesh/select'', peerID] [] [] s) (expect_2xx ''select peer''))
       (\<lambda>r s. (Inr (), puts (''selected peer: '' @ peerID) s))"

text \<open>\<open>loud\<close>: the output is the session's, not \<open>io.Discard\<close>.\<close>

definition setRouting :: "'d ChatEnv \<Rightarrow> bool \<Rightarrow> string \<Rightarrow> 'd Chat \<Rightarrow> (go_error + unit) \<times> 'd Chat" where
  "setRouting E loud policy s =
     and_then (and_then (chat_do E ''PUT'' [''/v1/mesh/routing''] json_headers (ch_policy_body E policy) s)
         (expect_2xx ''routing update''))
       (\<lambda>r s. (Inr (), if loud then puts (''routing policy: '' @ policy) s else s))"

section \<open>Sending a prompt\<close>

text \<open>\<open>bufio.Scanner\<close> with a buffer of up to 1 MB: the lines, and whether one was too long.\<close>

fun scan_wide :: "string list \<Rightarrow> string list \<times> bool" where
  "scan_wide [] = ([], False)"
| "scan_wide (p # ps) =
     (if length p \<ge> 1024 * 1024 then ([], True)
      else if ps = [] \<and> p = [] then ([], False)
      else let (ls, long) = scan_wide ps in (drop_cr p # ls, long))"

text \<open>The payload of a server-sent event line, if it has one.\<close>

definition data_payload :: "string \<Rightarrow> string option" where
  "data_payload l =
     (let line = trim_space l in
      if \<not> has_prefix ''data:'' line then None
      else let payload = trim_space (trim_prefix ''data:'' line) in
        if payload = [] then None else Some payload)"

text \<open>The loop over the lines: the contents written, and whether the end marker was seen.\<close>

fun chat_contents :: "(string \<Rightarrow> string list option) \<Rightarrow> string list \<Rightarrow> string list \<times> bool" where
  "chat_contents chunk [] = ([], False)"
| "chat_contents chunk (l # ls) =
     (case data_payload l of
        None \<Rightarrow> chat_contents chunk ls
      | Some payload \<Rightarrow>
          if payload = ''[DONE]'' then ([], True)
          else case chunk payload of
              None \<Rightarrow> chat_contents chunk ls
            | Some cs \<Rightarrow> let (ws, done') = chat_contents chunk ls in (filter (\<lambda>c. c \<noteq> []) cs @ ws, done'))"

definition prompt_request :: "string \<Rightarrow> string \<Rightarrow> ChatCompletionRequest" where
  "prompt_request m prompt =
     zero_request\<lparr>req_Model := m, req_Messages := [\<lparr>msg_Role = ''user'', msg_Content = prompt\<rparr>], req_Stream := True\<rparr>"

definition sendPromptWithStats :: "'d ChatEnv \<Rightarrow> string \<Rightarrow> 'd Chat \<Rightarrow> (go_error + sendStats) \<times> 'd Chat" where
  "sendPromptWithStats E prompt s =
     (let (start, s) = time_now E s in
      and_then (and_then (chat_do E ''POST'' [''/v1/chat/completions''] json_headers (ch_prompt_body E (prompt_request (chat_model s) prompt)) s)
          (expect_2xx ''chat request''))
        (\<lambda>r s.
          let (ls, long) = scan_wide (split_on nl (hr_Body r));
              (ws, finished) = chat_contents (ch_chunk E) ls;
              (first, s) = (if ws \<noteq> [] then let (t, s) = time_now E s in (time_sub t start, s) else (0, s));
              s = put (concat ws) s
          in if long \<and> \<not> finished then (Inl (ErrText ''bufio.Scanner: token too long''), s)
             else let (t, s) = time_now E (put [nl] s)
               in (Inr \<lparr>ss_TotalLatency = time_sub t start, ss_FirstTokenLatency = first,
                        ss_CharsStreamed = int (length (concat ws))\<rparr>, s)))"

definition SendPrompt :: "'d ChatEnv \<Rightarrow> string \<Rightarrow> 'd Chat \<Rightarrow> go_error option \<times> 'd Chat" where
  "SendPrompt E prompt s =
     (case sendPromptWithStats E prompt s of (Inl e, s) \<Rightarrow> (Some e, s) | (Inr st, s) \<Rightarrow> (None, s))"

text \<open>\<open>Truncate(time.Millisecond)\<close>.\<close>

definition truncate_ms :: "duration \<Rightarrow> duration" where
  "truncate_ms d = d - go_rem d 1000000"

text \<open>A turn of the conversation, as both loops take it.\<close>

definition prompt_turn :: "'d ChatEnv \<Rightarrow> string \<Rightarrow> 'd Chat \<Rightarrow> 'd Chat" where
  "prompt_turn E line s =
     (case sendPromptWithStats E line (puts (''[sending model='' @ chat_model s @ '']'') s) of
        (Inl e, s) \<Rightarrow> warns (''chat error: '' @ error_text e) s
      | (Inr st, s) \<Rightarrow> puts (''[done total='' @ ch_dur E (truncate_ms (ss_TotalLatency st))
          @ '' first_token='' @ ch_dur E (truncate_ms (ss_FirstTokenLatency st))
          @ '' chars='' @ int_dec (ss_CharsStreamed st) @ '']'') s)"

section \<open>Names\<close>

definition shortPeerID :: "string \<Rightarrow> string" where
  "shortPeerID p = (if length p \<le> 12 then p else take 12 p)"

definition compactPeerID :: "string \<Rightarrow> string" where
  "compactPeerID p = (if length p \<le> 7 then p else take 3 p @ ''...'' @ drop (length p - 3) p)"

fun peerLabel :: "string \<Rightarrow> CapabilityDocument list \<Rightarrow> string" where
  "peerLabel peerID [] = compactPeerID peerID"
| "peerLabel peerID (p # ps) =
     (if PeerID p = peerID then
        let name = trim_space (NodeName p) in
        if name = [] then compactPeerID peerID else name @ '' ('' @ compactPeerID peerID @ '')''
      else peerLabel peerID ps)"

fun model_names :: "ModelSpec list \<Rightarrow> string list" where
  "model_names [] = []"
| "model_names (m # ms) = (let n = trim_space (ms_Name m) in if n \<noteq> [] then n # model_names ms else model_names ms)"

definition joinModelNames :: "ModelSpec list \<Rightarrow> string" where
  "joinModelNames ms = (let names = model_names ms in if names = [] then ''-'' else str_join '','' (sort names))"

section \<open>Choosing a provider for a model\<close>

definition betterProvider :: "CapabilityDocument \<Rightarrow> CapabilityDocument \<Rightarrow> bool" where
  "betterProvider a b =
     (if \<not> f64_eq (Reliability a) (Reliability b) then Reliability b < Reliability a
      else if QueueDepth a \<noteq> QueueDepth b then QueueDepth a < QueueDepth b
      else if AvgLatencyMS a \<noteq> AvgLatencyMS b then AvgLatencyMS a < AvgLatencyMS b
      else PeerID a < PeerID b)"

fun best_from :: "CapabilityDocument \<Rightarrow> CapabilityDocument list \<Rightarrow> CapabilityDocument" where
  "best_from best [] = best"
| "best_from best (p # ps) = best_from (if betterProvider p best then p else best) ps"

definition bestProviderForModel :: "CapabilityDocument list \<Rightarrow> CapabilityDocument" where
  "bestProviderForModel providers = (case providers of [] \<Rightarrow> zero_doc | p # ps \<Rightarrow> best_from p ps)"

definition bestProviderForCurrentModel :: "string \<Rightarrow> CapabilityDocument list \<Rightarrow> CapabilityDocument option" where
  "bestProviderForCurrentModel m peers =
     (let providers = filter (\<lambda>p. \<not> Self p \<and> SupportsModel p m) peers
      in if providers = [] then None else Some (bestProviderForModel providers))"

definition file_under :: "CapabilityDocument \<Rightarrow> string \<Rightarrow> (string, CapabilityDocument list) gomap \<Rightarrow> (string, CapabilityDocument list) gomap" where
  "file_under p name m = map_put name ((case map_get m name of None \<Rightarrow> [] | Some ps \<Rightarrow> ps) @ [p]) m"

definition file_peer :: "CapabilityDocument \<Rightarrow> (string, CapabilityDocument list) gomap \<Rightarrow> (string, CapabilityDocument list) gomap" where
  "file_peer p m = (if Self p then m else fold (file_under p) (model_names (Models p)) m)"

definition model_choices :: "'d ChatEnv \<Rightarrow> CapabilityDocument list \<Rightarrow> modelChoice list" where
  "model_choices E peers =
     ch_sortChoices E (\<lambda>a b. mc_Name a < mc_Name b)
       (map (\<lambda>(name, ps). \<lparr>mc_Name = name, mc_Providers = ps\<rparr>) (ch_range E (fold file_peer peers [])))"

definition buildModelChoices :: "'d ChatEnv \<Rightarrow> 'd Chat \<Rightarrow> (go_error + modelChoice list) \<times> 'd Chat" where
  "buildModelChoices E s = and_then (fetchPeers E s) (\<lambda>peers s. (Inr (model_choices E peers), s))"

section \<open>What is printed\<close>

definition printHelp :: "'d Chat \<Rightarrow> 'd Chat" where
  "printHelp s = fold puts
     [''commands:'',
      ''  /help or /       show this help'',
      ''  /status          show current model/peer/routing'',
      ''  /models          list available models across peers'',
      ''  /model [name|#]  select model (no arg opens picker)'',
      ''  /peers           list peers (* marks self)'',
      ''  /use [peer_id|#] select manual peer (no arg opens picker)'',
      ''  /routing <auto|manual|prefer_known|prefer_favorites>'',
      ''  /quit            exit chat''] s"

definition printSlashMenu :: "'d Chat \<Rightarrow> 'd Chat" where
  "printSlashMenu s = fold puts
     [''slash menu:'',
      ''  selection: /status  /models  /model [name|#]  /peers  /use [peer_id|#]'',
      ''  routing:   /routing <auto|manual|prefer_known|prefer_favorites>'',
      ''  session:   /help  /quit''] s"

definition selected_label :: "'d Chat \<Rightarrow> routingSettings \<Rightarrow> CapabilityDocument list \<Rightarrow> string" where
  "selected_label s rs peers =
     (if equal_fold (trim_space (cr_RoutingPolicy rs)) ''manual'' \<and> cr_AllowedPeers rs \<noteq> []
      then peerLabel (hd (cr_AllowedPeers rs)) peers
      else case bestProviderForCurrentModel (chat_model s) peers of
          Some best \<Rightarrow> peerLabel (PeerID best) peers
        | None \<Rightarrow> ''<auto>'')"

definition printStatus :: "'d ChatEnv \<Rightarrow> 'd Chat \<Rightarrow> (go_error + unit) \<times> 'd Chat" where
  "printStatus E s =
     and_then (fetchRoutingSettings E s) (\<lambda>rs s.
       let (r, s) = fetchPeers E s;
           peers = (case r of Inl e \<Rightarrow> [] | Inr ps \<Rightarrow> ps);
           s = puts (''model: '' @ chat_model s) s;
           s = puts (''routing: '' @ cr_RoutingPolicy rs) s
       in (Inr (), puts (''selected_peer: '' @ selected_label s rs peers) s))"

definition index_tag :: "nat \<Rightarrow> string" where
  "index_tag i = ''['' @ nat_dec (Suc i) @ '']''"

definition load_text :: "CapabilityDocument \<Rightarrow> string" where
  "load_text p = '' latency='' @ int_dec (AvgLatencyMS p) @ ''ms queue='' @ int_dec (QueueDepth p)"

definition peer_line :: "nat \<times> CapabilityDocument \<Rightarrow> string" where
  "peer_line ip = (case ip of (i, p) \<Rightarrow>
     (if Self p then ''*'' else '' '') @ '' '' @ index_tag i @ '' '' @ PeerID p @ '' '' @ NodeName p @ '' models=''
     @ nat_dec (length (Models p)) @ '' ['' @ joinModelNames (Models p) @ '']'' @ load_text p)"

definition printPeers :: "'d ChatEnv \<Rightarrow> 'd Chat \<Rightarrow> (go_error + unit) \<times> 'd Chat" where
  "printPeers E s = and_then (fetchPeers E s) (\<lambda>peers s.
     (Inr (), if peers = [] then puts ''no peers'' s else fold (\<lambda>ip. puts (peer_line ip)) (enumerate 0 peers) s))"

definition choice_line :: "nat \<times> modelChoice \<Rightarrow> string" where
  "choice_line im = (case im of (i, m) \<Rightarrow>
     let best = bestProviderForModel (mc_Providers m) in
     index_tag i @ '' '' @ mc_Name m @ '' providers='' @ nat_dec (length (mc_Providers m)) @ '' best='' @ NodeName best
     @ ''/'' @ shortPeerID (PeerID best))"

definition printModels :: "'d ChatEnv \<Rightarrow> 'd Chat \<Rightarrow> (go_error + unit) \<times> 'd Chat" where
  "printModels E s = and_then (buildModelChoices E s) (\<lambda>ms s.
     (Inr (), if ms = [] then puts ''no models discovered'' s
              else fold (\<lambda>im. puts (choice_line im)) (enumerate 0 ms) s))"

section \<open>Selecting a peer\<close>

definition scan_line :: "'d Chat \<Rightarrow> string option \<times> 'd Chat" where
  "scan_line s = (case ch_lines s of [] \<Rightarrow> (None, s) | l # ls \<Rightarrow> (Some (trim_space l), s\<lparr>ch_lines := ls\<rparr>))"

definition take_model :: "string \<Rightarrow> 'd Chat \<Rightarrow> (go_error + unit) \<times> 'd Chat" where
  "take_model m s = (Inr (), puts (''model: '' @ m) (set_model m s))"

text \<open>Which of several models of the selected peer: by menu, by a line of input, or the first.
  \<open>sc\<close> says whether there is a scanner.\<close>

definition ask_model :: "'d ChatEnv \<Rightarrow> bool \<Rightarrow> bool \<Rightarrow> string list \<Rightarrow> 'd Chat \<Rightarrow> nat \<times> 'd Chat" where
  "ask_model E sc useArrow models s =
     (if useArrow then
        let (idx, s) = run_menu E ''Selected peer models (arrow keys + Enter)''
              (map (\<lambda>(i, m). index_tag i @ '' '' @ m) (enumerate 0 models)) s
        in (case idx of Some i \<Rightarrow> i | None \<Rightarrow> 0, s)
      else if sc then
        let s = puts ''selected peer exposes multiple models:'' s;
            s = fold (\<lambda>(i, m). puts (''  '' @ index_tag i @ '' '' @ m)) (enumerate 0 models) s;
            (raw, s) = scan_line (put ''select model number (default: 1): '' s)
        in (case raw of
              None \<Rightarrow> (0, s)
            | Some r \<Rightarrow>
                if r = [] then (0, s)
                else case atoi r of
                    Some idx \<Rightarrow> if idx \<ge> 1 \<and> idx \<le> int (length models) then (nat (idx - 1), s)
                                else (0, warns ''invalid model selection, using first model'' s)
                  | None \<Rightarrow> (0, warns ''invalid model selection, using first model'' s))
      else (0, s))"

definition selectPeerAndModel :: "'d ChatEnv \<Rightarrow> CapabilityDocument \<Rightarrow> bool \<Rightarrow> bool \<Rightarrow> 'd Chat \<Rightarrow> (go_error + unit) \<times> 'd Chat" where
  "selectPeerAndModel E peerDoc sc useArrow s =
     and_then (selectPeer E (PeerID peerDoc) s) (\<lambda>_ s.
       let models = model_names (Models peerDoc) in
       if models = [] then (Inr (), s)
       else if length models = 1 then take_model (hd models) s
       else let (choice, s) = ask_model E sc useArrow models s in take_model (models ! choice) s)"

definition selectPeerByArg :: "'d ChatEnv \<Rightarrow> string \<Rightarrow> bool \<Rightarrow> bool \<Rightarrow> 'd Chat \<Rightarrow> (go_error + unit) \<times> 'd Chat" where
  "selectPeerByArg E peerArg sc useArrow s =
     (let peerArg = trim_space peerArg in
      case atoi peerArg of
        Some idx \<Rightarrow>
          and_then (fetchPeers E s) (\<lambda>peers s.
            if idx < 1 \<or> idx > int (length peers) then (Inl (ErrText (''peer index out of range: '' @ int_dec idx)), s)
            else selectPeerAndModel E (peers ! nat (idx - 1)) sc useArrow s)
      | None \<Rightarrow>
          let (r, s) = fetchPeers E s in
          (case find (\<lambda>p. PeerID p = peerArg) (case r of Inl e \<Rightarrow> [] | Inr ps \<Rightarrow> ps) of
             Some p \<Rightarrow> selectPeerAndModel E p sc useArrow s
           | None \<Rightarrow> selectPeer E peerArg s))"

definition warn_of :: "string \<Rightarrow> (go_error + unit) \<times> 'd Chat \<Rightarrow> (go_error + unit) \<times> 'd Chat" where
  "warn_of what m = (case m of (Inl e, s) \<Rightarrow> (Inr (), warns (what @ '' selection error: '' @ error_text e) s) | (Inr u, s) \<Rightarrow> (Inr u, s))"

definition pickPeerInteractive :: "'d ChatEnv \<Rightarrow> 'd Chat \<Rightarrow> (go_error + unit) \<times> 'd Chat" where
  "pickPeerInteractive E s = and_then (fetchPeers E s) (\<lambda>peers s.
     if peers = [] then (Inr (), puts ''no peers'' s)
     else let (_, s) = printPeers E s;
              (choice, s) = scan_line (put ''select peer number: '' s)
       in (case choice of
             None \<Rightarrow> (Inr (), s)
           | Some c \<Rightarrow>
               if c = [] then (Inr (), puts ''peer selection cancelled'' s)
               else warn_of ''peer'' (selectPeerByArg E c True False s)))"

definition peer_item :: "nat \<times> CapabilityDocument \<Rightarrow> string" where
  "peer_item ip = (case ip of (i, p) \<Rightarrow>
     index_tag i @ '' '' @ PeerID p @ '' '' @ NodeName p @ '' models='' @ nat_dec (length (Models p)) @ load_text p)"

definition pickPeerArrow :: "'d ChatEnv \<Rightarrow> 'd Chat \<Rightarrow> (go_error + unit) \<times> 'd Chat" where
  "pickPeerArrow E s = and_then (fetchPeers E s) (\<lambda>peers s.
     if peers = [] then (Inr (), puts ''no peers'' s)
     else let (idx, s) = run_menu E ''Select peer (arrow keys + Enter)'' (map peer_item (enumerate 0 peers)) s
       in (case idx of None \<Rightarrow> (Inr (), s) | Some i \<Rightarrow> selectPeerAndModel E (peers ! i) False True s))"

section \<open>Selecting a model\<close>

text \<open>Pin a provider: manual routing, then the peer.\<close>

definition pin_peer :: "'d ChatEnv \<Rightarrow> string \<Rightarrow> 'd Chat \<Rightarrow> (go_error + unit) \<times> 'd Chat" where
  "pin_peer E peerID s = and_then (setRouting E False ''manual'' s) (\<lambda>_ s. selectPeer E peerID s)"

definition provider_item :: "'d ChatEnv \<Rightarrow> nat \<times> CapabilityDocument \<Rightarrow> string" where
  "provider_item E ip = (case ip of (i, p) \<Rightarrow>
     index_tag i @ '' '' @ NodeName p @ ''/'' @ shortPeerID (PeerID p) @ load_text p @ '' reliability='' @ ch_float2 E (Reliability p))"

definition pick_provider_menu :: "'d ChatEnv \<Rightarrow> CapabilityDocument list \<Rightarrow> 'd Chat \<Rightarrow> (go_error + unit) \<times> 'd Chat" where
  "pick_provider_menu E ranked s =
     (let (idx, s) = run_menu E ''Select provider (arrow keys + Enter)''
            (''[auto-best] choose best provider'' # map (provider_item E) (enumerate 0 ranked)) s
      in case idx of
          None \<Rightarrow> (Inr (), s)
        | Some 0 \<Rightarrow> pin_peer E (PeerID (bestProviderForModel ranked)) s
        | Some (Suc i) \<Rightarrow> pin_peer E (PeerID (ranked ! i)) s)"

definition pick_provider_line :: "'d ChatEnv \<Rightarrow> CapabilityDocument list \<Rightarrow> 'd Chat \<Rightarrow> (go_error + unit) \<times> 'd Chat" where
  "pick_provider_line E ranked s =
     (let s = fold (\<lambda>ip. puts (''  '' @ provider_item E ip)) (enumerate 0 ranked) s;
          (choice, s) = scan_line (put (''choose provider number or '' @ [CHR 0x27, CHR ''a'', CHR 0x27] @ '' for auto-best: '') s)
      in case choice of
          None \<Rightarrow> (Inr (), s)
        | Some c \<Rightarrow>
            if c = [] then (Inr (), puts ''keeping current routing policy'' s)
            else if equal_fold c ''a'' then pin_peer E (PeerID (bestProviderForModel ranked)) s
            else case atoi c of
                Some idx \<Rightarrow>
                  if idx < 1 \<or> idx > int (length ranked) then (Inr (), warns ''invalid provider selection'' s)
                  else pin_peer E (PeerID (ranked ! nat (idx - 1))) s
              | None \<Rightarrow> (Inr (), warns ''invalid provider selection'' s))"

text \<open>After a model was found: its one provider is pinned; of several one is chosen.\<close>

definition use_choice :: "'d ChatEnv \<Rightarrow> bool \<Rightarrow> modelChoice \<Rightarrow> 'd Chat \<Rightarrow> (go_error + unit) \<times> 'd Chat" where
  "use_choice E sc selected s =
     (let s = puts (''model: '' @ mc_Name selected) (set_model (mc_Name selected) s) in
      if length (mc_Providers selected) = 1 then pin_peer E (PeerID (hd (mc_Providers selected))) s
      else if length (mc_Providers selected) > 1 then
        let s = puts ''multiple providers found:'' s;
            ranked = ch_sortDocs E betterProvider (mc_Providers selected)
        in (if sc then pick_provider_line E ranked s else pick_provider_menu E ranked s)
      else (Inr (), s))"

definition manual_model :: "string \<Rightarrow> 'd Chat \<Rightarrow> (go_error + unit) \<times> 'd Chat" where
  "manual_model name s = (Inr (), puts (''model: '' @ name @ '' (manual)'') (set_model name s))"

definition selectModel :: "'d ChatEnv \<Rightarrow> string \<Rightarrow> bool \<Rightarrow> 'd Chat \<Rightarrow> (go_error + unit) \<times> 'd Chat" where
  "selectModel E nameOrIndex sc s =
     and_then (buildModelChoices E s) (\<lambda>choices s.
       let nameOrIndex = trim_space nameOrIndex in
       if choices = [] then
         (case atoi nameOrIndex of
            Some _ \<Rightarrow> (Inl (ErrText ''no models discovered''), s)
          | None \<Rightarrow> manual_model nameOrIndex s)
       else case atoi nameOrIndex of
           Some idx \<Rightarrow>
             if idx < 1 \<or> idx > int (length choices) then (Inl (ErrText (''model index out of range: '' @ int_dec idx)), s)
             else use_choice E sc (choices ! nat (idx - 1)) s
         | None \<Rightarrow>
             (case find (\<lambda>m. mc_Name m = nameOrIndex) choices of
                None \<Rightarrow> manual_model nameOrIndex s
              | Some selected \<Rightarrow> use_choice E sc selected s))"

definition pickModelInteractive :: "'d ChatEnv \<Rightarrow> 'd Chat \<Rightarrow> (go_error + unit) \<times> 'd Chat" where
  "pickModelInteractive E s = and_then (printModels E s) (\<lambda>_ s.
     let (choice, s) = scan_line (put ''select model number: '' s)
     in case choice of
         None \<Rightarrow> (Inr (), s)
       | Some c \<Rightarrow>
           if c = [] then (Inr (), puts ''model selection cancelled'' s)
           else warn_of ''model'' (selectModel E c True s))"

text \<open>\<open>io.Discard\<close> as the error output: what is warned of inside is dropped.\<close>

definition discard_err :: "('d Chat \<Rightarrow> (go_error + unit) \<times> 'd Chat) \<Rightarrow> 'd Chat \<Rightarrow> (go_error + unit) \<times> 'd Chat" where
  "discard_err f s = (let (r, s2) = f s in (r, s2\<lparr>ch_err := ch_err s\<rparr>))"

definition pickModelArrow :: "'d ChatEnv \<Rightarrow> 'd Chat \<Rightarrow> (go_error + unit) \<times> 'd Chat" where
  "pickModelArrow E s = and_then (buildModelChoices E s) (\<lambda>choices s.
     if choices = [] then (Inr (), puts ''no models discovered'' s)
     else let (idx, s) = run_menu E ''Select model (arrow keys + Enter)'' (map choice_line (enumerate 0 choices)) s
       in (case idx of
             None \<Rightarrow> (Inr (), s)
           | Some i \<Rightarrow> discard_err (selectModel E (mc_Name (choices ! i)) False) s))"

section \<open>At the start of a session\<close>

definition betterChoice :: "modelChoice \<Rightarrow> modelChoice \<Rightarrow> bool" where
  "betterChoice x y =
     (let a = bestProviderForModel (mc_Providers x); b = bestProviderForModel (mc_Providers y) in
      if betterProvider a b then True else if betterProvider b a then False else mc_Name x < mc_Name y)"

definition auto_select :: "'d ChatEnv \<Rightarrow> modelChoice list \<Rightarrow> 'd Chat \<Rightarrow> modelChoice \<times> 'd Chat" where
  "auto_select E choices s =
     (case find (\<lambda>m. mc_Name m = chat_model s) choices of
        Some m \<Rightarrow> (m, s)
      | None \<Rightarrow>
          let selected = hd (ch_sortChoices E betterChoice choices);
              s = set_model (mc_Name selected) s;
              best = bestProviderForModel (mc_Providers selected)
          in (selected, puts (''auto-selected model: '' @ chat_model s
                @ (if PeerID best \<noteq> [] then '' (best peer: '' @ peerLabel (PeerID best) (mc_Providers selected) @ '')'' else [])) s))"

definition start_item :: "nat \<times> CapabilityDocument \<Rightarrow> string" where
  "start_item ip = (case ip of (i, p) \<Rightarrow>
     index_tag i @ '' '' @ NodeName p @ '' ('' @ compactPeerID (PeerID p) @ '') models=['' @ joinModelNames (Models p) @ '']'' @ load_text p)"

definition offer_peers :: "'d ChatEnv \<Rightarrow> bool \<Rightarrow> modelChoice \<Rightarrow> 'd Chat \<Rightarrow> 'd Chat" where
  "offer_peers E interactive selected s =
     (if length (mc_Providers selected) \<le> 1 then s
      else if interactive then
        let ranked = ch_sortDocs E betterProvider (mc_Providers selected);
            (idx, s) = run_menu E ''Multiple peers available for selected model''
              ((''[auto] best peer for '' @ mc_Name selected) # map start_item (enumerate 0 ranked)) s
        in (case idx of
              Some (Suc i) \<Rightarrow>
                let (_, s) = setRouting E False ''manual'' s; (_, s) = selectPeer E (PeerID (ranked ! i)) s in s
            | _ \<Rightarrow> s)
      else puts (''multiple peers available for '' @ mc_Name selected @ ''; use /use to pin one peer or keep routing auto'') s)"

definition EnsureModelAvailable :: "'d ChatEnv \<Rightarrow> bool \<Rightarrow> 'd Chat \<Rightarrow> 'd Chat" where
  "EnsureModelAvailable E interactive s =
     (let (_, s) = setRouting E False ''auto'' s in
      case buildModelChoices E s of
        (Inl e, s) \<Rightarrow> s
      | (Inr choices, s) \<Rightarrow>
          if choices = [] then s
          else let (selected, s) = auto_select E choices s in offer_peers E interactive selected s)"

section \<open>Commands\<close>

text \<open>Both handlers; \<open>sc\<close>: the line comes from a scanner (\<open>handleCommand\<close>), not from \<open>readline\<close>
  (\<open>handleInteractiveCommand\<close>). The flag of the result says whether to quit.\<close>

definition stay :: "(go_error + unit) \<times> 'd Chat \<Rightarrow> (go_error + bool) \<times> 'd Chat" where
  "stay m = and_then m (\<lambda>_ s. (Inr False, s))"

definition handle_command :: "'d ChatEnv \<Rightarrow> bool \<Rightarrow> string \<Rightarrow> 'd Chat \<Rightarrow> (go_error + bool) \<times> 'd Chat" where
  "handle_command E sc line s =
     (case str_fields line of
        [] \<Rightarrow> (Inr False, s)
      | w # args \<Rightarrow>
          if w = ''/'' then (Inr False, printSlashMenu s)
          else if w = ''/help'' \<or> w = ''/?'' then (Inr False, printHelp s)
          else if w = ''/status'' \<or> w = ''/current'' then stay (printStatus E s)
          else if w = ''/quit'' \<or> w = ''/exit'' then (Inr True, s)
          else if w = ''/models'' then stay (printModels E s)
          else if w = ''/model'' then
            stay (case args of
                [] \<Rightarrow> if sc then pickModelInteractive E s else pickModelArrow E s
              | a # _ \<Rightarrow> selectModel E (trim_space a) sc s)
          else if w = ''/peers'' then stay (printPeers E s)
          else if w = ''/use'' then
            stay (case args of
                [] \<Rightarrow> if sc then pickPeerInteractive E s else pickPeerArrow E s
              | a # _ \<Rightarrow> selectPeerByArg E a sc (\<not> sc) s)
          else if w = ''/routing'' then
            (case args of
               [] \<Rightarrow> (Inr False, warns ''usage: /routing <auto|manual|prefer_known|prefer_favorites>'' s)
             | a # _ \<Rightarrow> stay (setRouting E True a s))
          else (Inr False, warns (''unknown command: '' @ w @ '' (use /help)'') s))"

definition handleCommand :: "'d ChatEnv \<Rightarrow> string \<Rightarrow> 'd Chat \<Rightarrow> (go_error + bool) \<times> 'd Chat" where
  "handleCommand E = handle_command E True"

definition handleInteractiveCommand :: "'d ChatEnv \<Rightarrow> string \<Rightarrow> 'd Chat \<Rightarrow> (go_error + bool) \<times> 'd Chat" where
  "handleInteractiveCommand E = handle_command E False"

text \<open>A line of the session: \<open>Some r\<close> ends it with \<open>r\<close>.\<close>

definition take_line :: "'d ChatEnv \<Rightarrow> bool \<Rightarrow> string \<Rightarrow> 'd Chat \<Rightarrow> go_error option option \<times> 'd Chat" where
  "take_line E sc line s =
     (if line = [] then (None, s)
      else if has_prefix ''/'' line then
        (case handle_command E sc line s of
           (Inl e, s) \<Rightarrow> (Some (Some e), s)
         | (Inr quit, s) \<Rightarrow> (if quit then Some None else None, s))
      else (None, prompt_turn E line s))"

section \<open>A session only reads on\<close>

text \<open>\<open>onwards s0 s\<close>: since \<open>s0\<close>, input has only been taken from the front and output only been added.\<close>

definition onwards :: "'d Chat \<Rightarrow> 'd Chat \<Rightarrow> bool" where
  "onwards s0 s = ((\<exists>l. ch_lines s0 = l @ ch_lines s) \<and> (\<exists>o'. ch_out s = ch_out s0 @ o') \<and> (\<exists>e. ch_err s = ch_err s0 @ e))"

lemma onwards_refl: "onwards s s"
  by (simp add: onwards_def)

lemma onwards_trans: "onwards r s \<Longrightarrow> onwards s t \<Longrightarrow> onwards r t"
  by (auto simp: onwards_def)

named_theorems goes_on

lemma onwards_upd [goes_on]:
  "onwards s0 s \<Longrightarrow> onwards s0 (put t s)" "onwards s0 s \<Longrightarrow> onwards s0 (puts t s)"
  "onwards s0 s \<Longrightarrow> onwards s0 (warns t s)" "onwards s0 s \<Longrightarrow> onwards s0 (set_model m s)"
  "onwards s0 s \<Longrightarrow> onwards s0 (snd (time_now E s))" "onwards s0 s \<Longrightarrow> onwards s0 (snd (run_menu E a b s))"
  "onwards s0 s \<Longrightarrow> onwards s0 (snd (expect_2xx w r s))"
  by (auto simp: onwards_def put_def puts_def warns_def set_model_def time_now_def run_menu_def expect_2xx_def)

lemma onwards_fold [goes_on]: "(\<And>x s. onwards s0 s \<Longrightarrow> onwards s0 (f x s)) \<Longrightarrow> onwards s0 s \<Longrightarrow> onwards s0 (fold f xs s)"
  by (induction xs arbitrary: s) auto

lemma onwards_do [goes_on]: "onwards s0 s \<Longrightarrow> onwards s0 (snd (chat_do E v p h b s))"
  by (auto simp: chat_do_def onwards_def Let_def split: sum.splits option.splits prod.splits)

lemma onwards_and_then [goes_on]:
  assumes "onwards s0 (snd m)" "\<And>x s. onwards s0 s \<Longrightarrow> onwards s0 (snd (f x s))"
  shows "onwards s0 (snd (and_then m f))"
  using assms by (cases m) (auto simp: and_then_def split: sum.splits)

lemma onwards_scan [goes_on]: "onwards s0 s \<Longrightarrow> onwards s0 (snd (scan_line s))"
  by (auto simp: scan_line_def onwards_def split: list.splits)

lemma scan_line_shorter: "scan_line s = (Some l, t) \<Longrightarrow> length (ch_lines t) < length (ch_lines s)"
  by (auto simp: scan_line_def split: list.splits)

lemmas chat_case = Let_def case_prod_unfold

lemma onwards_fetch [goes_on]:
  assumes "onwards s0 s"
  shows "onwards s0 (snd (fetchRoutingSettings E s))" "onwards s0 (snd (fetchPeers E s))"
    "onwards s0 (snd (selectPeer E p s))" "onwards s0 (snd (setRouting E loud policy s))"
    "onwards s0 (snd (buildModelChoices E s))" "onwards s0 (snd (take_model m s))" "onwards s0 (snd (manual_model m s))"
  using assms unfolding fetchRoutingSettings_def fetchPeers_def selectPeer_def setRouting_def buildModelChoices_def
    take_model_def manual_model_def by (auto intro!: goes_on)

lemma onwards_prints [goes_on]:
  assumes "onwards s0 s"
  shows "onwards s0 (printHelp s)" "onwards s0 (printSlashMenu s)" "onwards s0 (snd (printStatus E s))"
    "onwards s0 (snd (printPeers E s))" "onwards s0 (snd (printModels E s))"
  using assms unfolding printHelp_def printSlashMenu_def printStatus_def printPeers_def printModels_def
  by (auto simp: chat_case intro!: goes_on)

lemma onwards_ask [goes_on]: "onwards s0 s \<Longrightarrow> onwards s0 (snd (ask_model E sc arrow ms s))"
  unfolding ask_model_def by (auto simp: chat_case intro!: goes_on split: option.splits)

lemma onwards_peer_model [goes_on]: "onwards s0 s \<Longrightarrow> onwards s0 (snd (selectPeerAndModel E d sc arrow s))"
  unfolding selectPeerAndModel_def by (auto simp: chat_case intro!: goes_on)

lemma onwards_by_arg [goes_on]: "onwards s0 s \<Longrightarrow> onwards s0 (snd (selectPeerByArg E a sc arrow s))"
  unfolding selectPeerByArg_def by (auto simp: chat_case intro!: goes_on split: option.splits)

lemma onwards_warn_of [goes_on]: "onwards s0 (snd m) \<Longrightarrow> onwards s0 (snd (warn_of w m))"
  by (cases m) (auto simp: warn_of_def intro!: goes_on split: sum.splits)

lemma onwards_pick_peer [goes_on]:
  assumes "onwards s0 s"
  shows "onwards s0 (snd (pickPeerInteractive E s))" "onwards s0 (snd (pickPeerArrow E s))"
  using assms unfolding pickPeerInteractive_def pickPeerArrow_def
  by (auto simp: chat_case intro!: goes_on split: option.splits)

lemma onwards_pin [goes_on]: "onwards s0 s \<Longrightarrow> onwards s0 (snd (pin_peer E p s))"
  unfolding pin_peer_def by (intro goes_on)

lemma onwards_provider [goes_on]:
  assumes "onwards s0 s"
  shows "onwards s0 (snd (pick_provider_menu E ds s))" "onwards s0 (snd (pick_provider_line E ds s))"
  using assms unfolding pick_provider_menu_def pick_provider_line_def
  by (auto simp: chat_case intro!: goes_on split: option.splits nat.splits)

lemma onwards_use_choice [goes_on]: "onwards s0 s \<Longrightarrow> onwards s0 (snd (use_choice E sc m s))"
  unfolding use_choice_def by (auto simp: chat_case intro!: goes_on)

lemma onwards_select_model [goes_on]: "onwards s0 s \<Longrightarrow> onwards s0 (snd (selectModel E n sc s))"
  unfolding selectModel_def by (auto simp: chat_case intro!: goes_on split: option.splits)

lemma onwards_discard [goes_on]: "onwards s0 s \<Longrightarrow> (\<And>s. onwards s0 s \<Longrightarrow> onwards s0 (snd (f s))) \<Longrightarrow> onwards s0 (snd (discard_err f s))"
  unfolding discard_err_def by (auto simp: chat_case onwards_def)

lemma onwards_pick_model [goes_on]:
  assumes "onwards s0 s"
  shows "onwards s0 (snd (pickModelInteractive E s))" "onwards s0 (snd (pickModelArrow E s))"
  using assms unfolding pickModelInteractive_def pickModelArrow_def
  by (auto simp: chat_case intro!: goes_on split: option.splits)

lemma onwards_stay [goes_on]: "onwards s0 (snd m) \<Longrightarrow> onwards s0 (snd (stay m))"
  unfolding stay_def by (rule onwards_and_then) auto

lemma onwards_send [goes_on]: "onwards s0 s \<Longrightarrow> onwards s0 (snd (sendPromptWithStats E p s))"
  unfolding sendPromptWithStats_def by (auto simp: chat_case intro!: goes_on)

lemma onwards_turn [goes_on]: "onwards s0 s \<Longrightarrow> onwards s0 (prompt_turn E l s)"
proof -
  assume "onwards s0 s"
  then have "onwards s0 (snd (sendPromptWithStats E l (puts (''[sending model='' @ chat_model s @ '']'') s)))" by (intro goes_on)
  then show ?thesis unfolding prompt_turn_def by (auto intro!: goes_on split: prod.splits sum.splits)
qed

lemma onwards_command [goes_on]: "onwards s0 s \<Longrightarrow> onwards s0 (snd (handle_command E sc l s))"
  unfolding handle_command_def by (auto intro!: goes_on split: list.splits)

lemma onwards_line [goes_on]:
  assumes "onwards s0 s" shows "onwards s0 (snd (take_line E sc l s))"
proof -
  have "onwards s0 (snd (handle_command E sc l s))" "onwards s0 (prompt_turn E l s)" using assms by (auto intro!: goes_on)
  then show ?thesis using assms unfolding take_line_def by (auto split: prod.splits sum.splits)
qed

lemma onwards_offer [goes_on]: "onwards s0 s \<Longrightarrow> onwards s0 (offer_peers E i m s)"
  unfolding offer_peers_def by (auto simp: chat_case intro!: goes_on split: option.splits nat.splits)

lemma onwards_auto [goes_on]: "onwards s0 s \<Longrightarrow> onwards s0 (snd (auto_select E ms s))"
  unfolding auto_select_def by (auto simp: chat_case intro!: goes_on split: option.splits)

lemma onwards_ensure [goes_on]:
  assumes "onwards s0 s" shows "onwards s0 (EnsureModelAvailable E i s)"
proof -
  obtain r t where b: "buildModelChoices E (snd (setRouting E False ''auto'' s)) = (r, t)" by force
  have "onwards s0 (snd (buildModelChoices E (snd (setRouting E False ''auto'' s))))" using assms by (intro goes_on)
  then have "onwards s0 t" by (simp add: b)
  then show ?thesis
    by (cases r) (auto simp: EnsureModelAvailable_def chat_case b intro!: goes_on)
qed

lemma take_line_shorter: "take_line E sc l s = (r, t) \<Longrightarrow> length (ch_lines t) \<le> length (ch_lines s)"
  using onwards_line[OF onwards_refl, where E = E and sc = sc and l = l and s = s] by (auto simp: onwards_def)

lemma put_lines [simp]: "ch_lines (put t s) = ch_lines s"
  by (simp add: put_def)

section \<open>The loops\<close>

text \<open>\<open>RunREPL\<close> after the help: a line per turn, until the input ends, \<open>/quit\<close> or an error.\<close>

function repl :: "'d ChatEnv \<Rightarrow> 'd Chat \<Rightarrow> go_error option \<times> 'd Chat" where
  "repl E s =
     (case scan_line (put ''> '' s) of
        (None, s) \<Rightarrow> (None, s)
      | (Some line, s) \<Rightarrow>
          (case take_line E True line s of
             (Some r, s) \<Rightarrow> (r, s)
           | (None, s) \<Rightarrow> repl E s))"
  by pat_completeness auto
termination
  by (relation "measure (\<lambda>(E, s). length (ch_lines s))") (auto dest!: scan_line_shorter[OF sym] take_line_shorter[OF sym])

declare repl.simps [simp del]

definition RunREPL :: "'d ChatEnv \<Rightarrow> 'd Chat \<Rightarrow> go_error option \<times> 'd Chat" where
  "RunREPL E s = repl E (printHelp s)"

text \<open>What \<open>readline\<close> delivers; the end of the list is the end of the input.\<close>

datatype rl_event = RlLine string | RlInterrupt

fun interactive_loop :: "'d ChatEnv \<Rightarrow> rl_event list \<Rightarrow> 'd Chat \<Rightarrow> go_error option \<times> 'd Chat" where
  "interactive_loop E [] s = (None, s)"
| "interactive_loop E (RlInterrupt # es) s = interactive_loop E es (put [nl] s)"
| "interactive_loop E (RlLine l # es) s =
     (case take_line E False (trim_space l) s of
        (Some r, s) \<Rightarrow> (r, s)
      | (None, s) \<Rightarrow> interactive_loop E es s)"

text \<open>\<open>opened\<close>: the error of \<open>readline.NewEx\<close>, if it fails.\<close>

definition RunInteractive :: "'d ChatEnv \<Rightarrow> go_error option \<Rightarrow> rl_event list \<Rightarrow> 'd Chat \<Rightarrow> go_error option \<times> 'd Chat" where
  "RunInteractive E opened es s =
     (case opened of Some e \<Rightarrow> (Some e, s) | None \<Rightarrow> interactive_loop E es (printHelp s))"

section \<open>The chat command\<close>

record chatFlags =
  cf_daemonURL :: string
  cf_modelName :: string
  cf_prompt :: string

text \<open>\<open>parsed\<close> is what \<open>fs.Parse\<close> made of the arguments; the session starts with the given input.\<close>

definition runChatCommand ::
  "'d ChatEnv \<Rightarrow> go_error + chatFlags \<Rightarrow> bool \<Rightarrow> go_error option \<Rightarrow> rl_event list \<Rightarrow> string list \<Rightarrow> 'd
    \<Rightarrow> go_error option \<times> 'd Chat option" where
  "runChatCommand E parsed interactive opened events input daemon =
     (case parsed of
        Inl e \<Rightarrow> (Some e, None)
      | Inr f \<Rightarrow>
          let s = NewChatRunner \<lparr>op_BaseURL = cf_daemonURL f, op_Model = cf_modelName f\<rparr> input daemon in
          map_prod id Some
            (if trim_space (cf_prompt f) \<noteq> [] then SendPrompt E (trim_space (cf_prompt f)) s
             else let s = puts ''interactive chat mode; /quit to exit'' s;
                      s = EnsureModelAvailable E interactive s
               in if interactive then RunInteractive E opened events s else RunREPL E s))"

section \<open>History and completion\<close>

text \<open>Where the history is kept; \<open>home\<close> is \<open>None\<close> when the home directory is unknown.\<close>

definition chatHistoryPath :: "string option \<Rightarrow> string" where
  "chatHistoryPath home =
     (case home of
        None \<Rightarrow> ''.infermeshai_chat_history''
      | Some h \<Rightarrow> if trim_space h = [] then ''.infermeshai_chat_history'' else path_join [path_join [h, ''.infermeshai''], ''chat.history''])"

datatype pc_item = PcItem string "pc_item list"

definition commandCompleter :: "pc_item list" where
  "commandCompleter =
     [PcItem ''/help'' [], PcItem ''/'' [], PcItem ''/status'' [], PcItem ''/current'' [], PcItem ''/quit'' [], PcItem ''/exit'' [],
      PcItem ''/peers'' [], PcItem ''/models'' [], PcItem ''/model'' [], PcItem ''/use'' [],
      PcItem ''/routing'' [PcItem ''auto'' [], PcItem ''manual'' [], PcItem ''prefer_known'' [], PcItem ''prefer_favorites'' []]]"

text \<open>Every completion is a command: none of them is answered with ``unknown command''.\<close>

definition known_command :: "string \<Rightarrow> bool" where
  "known_command w = (w \<in> set [''/'', ''/help'', ''/?'', ''/status'', ''/current'', ''/quit'', ''/exit'', ''/models'', ''/model'', ''/peers'', ''/use'', ''/routing''])"

lemma unknown_command:
  "str_fields line = w # args \<Longrightarrow> \<not> known_command w \<Longrightarrow>
     handle_command E sc line s = (Inr False, warns (''unknown command: '' @ w @ '' (use /help)'') s)"
  by (simp add: handle_command_def known_command_def)

lemma completions_known: "list_all (\<lambda>i. case i of PcItem w is \<Rightarrow> known_command w) commandCompleter"
  by (simp add: commandCompleter_def known_command_def)

end
