(* ===== verification/ChatSession.thy ===== *)
theory ChatSession
  imports Chat "HOL-Library.Product_Lexorder"
begin

text \<open>
  What a chat session does: it posts each prompt it reads, once and in order; the provider it
  proposes for a model is a best one and the models it lists are those on offer; pinning a peer
  through the daemon's handlers makes the router use that peer; and the text it prints of a
  streamed answer is what the backend said.
\<close>

section \<open>A session of prompts\<close>

text \<open>A daemon that keeps the requests it gets; \<open>answer\<close> is what it makes of them, errors included.\<close>

definition keeps_log :: "HttpRequest list ChatEnv \<Rightarrow> (HttpRequest \<Rightarrow> HttpRequest list \<Rightarrow> go_error + HttpResponse) \<Rightarrow> bool" where
  "keeps_log E answer = (\<forall>q d. ch_serve E q d = (answer q d, d @ [q]))"

definition prompt_post :: "HttpRequest list ChatEnv \<Rightarrow> string \<Rightarrow> string \<Rightarrow> string \<Rightarrow> HttpRequest" where
  "prompt_post E u m p = \<lparr>hq_Method = ''POST'', hq_URL = u, hq_Header = json_headers, hq_Body = ch_prompt_body E (prompt_request m p)\<rparr>"

text \<open>What a prompt leaves untouched, and what it sends.\<close>

lemma same_session [simp]:
  "ch_opts (puts t s) = ch_opts s" "ch_lines (puts t s) = ch_lines s" "ch_daemon (puts t s) = ch_daemon s"
  "ch_opts (warns t s) = ch_opts s" "ch_lines (warns t s) = ch_lines s" "ch_daemon (warns t s) = ch_daemon s"
  "ch_opts (put t s) = ch_opts s" "ch_daemon (put t s) = ch_daemon s" "chat_model (puts t s) = chat_model s"
  by (simp_all add: puts_def put_def warns_def chat_model_def)

lemma send_posts_once:
  fixes p :: string
  assumes "keeps_log E answer" "ch_join E (op_BaseURL (ch_opts s)) [''/v1/chat/completions''] = Inr u" "ch_url_error E u = None"
  defines "t \<equiv> snd (sendPromptWithStats E p s)"
  shows "ch_daemon t = ch_daemon s @ [prompt_post E u (chat_model s) p] \<and> ch_lines t = ch_lines s \<and> ch_opts t = ch_opts s"
  using assms(1-3) unfolding t_def sendPromptWithStats_def
  by (auto simp: keeps_log_def time_now_def chat_do_def chat_model_def prompt_post_def and_then_def expect_2xx_def case_prod_unfold Let_def
      split: sum.split)

lemma turn_posts_once:
  assumes "keeps_log E answer" "ch_join E (op_BaseURL (ch_opts s)) [''/v1/chat/completions''] = Inr u" "ch_url_error E u = None"
  shows "ch_daemon (prompt_turn E p s) = ch_daemon s @ [prompt_post E u (chat_model s) p]
    \<and> ch_lines (prompt_turn E p s) = ch_lines s \<and> ch_opts (prompt_turn E p s) = ch_opts s"
proof -
  let ?s = "puts (''[sending model='' @ chat_model s @ '']'') s"
  obtain r t where t: "sendPromptWithStats E p ?s = (r, t)" by force
  show ?thesis
    using send_posts_once[of E answer ?s u p] assms unfolding prompt_turn_def t by (cases r) (simp_all add: t)
qed

lemma quit_words: "str_fields ''/quit'' = [''/quit'']" "str_fields ''/exit'' = [''/exit'']"
  by code_simp+

text \<open>The prompts among the lines that were typed.\<close>

definition prompts :: "string list \<Rightarrow> string list" where
  "prompts ls = filter (\<lambda>l. l \<noteq> []) (map trim_space ls)"

lemma repl_posts:
  assumes log: "keeps_log E answer"
    and input: "ch_lines s = ls @ rest" "list_all (\<lambda>l. \<not> has_prefix ''/'' (trim_space l)) ls"
      "rest = [] \<or> trim_space (hd rest) \<in> {''/quit'', ''/exit''}"
    and url: "ch_join E (op_BaseURL (ch_opts s)) [''/v1/chat/completions''] = Inr u" "ch_url_error E u = None"
  shows "\<exists>t. repl E s = (None, t) \<and> ch_lines t = tl rest
    \<and> ch_daemon t = ch_daemon s @ map (prompt_post E u (chat_model s)) (prompts ls)"
  using input url
proof (induction ls arbitrary: s)
  case Nil
  show ?case
  proof (cases rest)
    case Nil
    then show ?thesis using Nil.prems by (subst repl.simps) (simp add: scan_line_def prompts_def)
  next
    case (Cons q qs)
    define t where "t = (put ''> '' s)\<lparr>ch_lines := qs\<rparr>"
    have "scan_line (put ''> '' s) = (Some (trim_space q), t)" using Nil.prems(1) by (simp add: scan_line_def Cons t_def)
    moreover have "take_line E True (trim_space q) t = (Some None, t)"
      using Nil.prems(3) quit_words by (auto simp: Cons take_line_def handle_command_def has_prefix_def)
    ultimately show ?thesis by (subst repl.simps) (simp add: Cons t_def prompts_def)
  qed
next
  case (Cons l ls)
  define t where "t = (put ''> '' s)\<lparr>ch_lines := ls @ rest\<rparr>"
  define v where "v = snd (take_line E True (trim_space l) t)"
  have t: "scan_line (put ''> '' s) = (Some (trim_space l), t)" using Cons.prems(1) by (simp add: scan_line_def t_def)
  have same: "ch_lines t = ls @ rest" "ch_opts t = ch_opts s" "ch_daemon t = ch_daemon s" "chat_model t = chat_model s"
    by (simp_all add: t_def chat_model_def)
  have v: "take_line E True (trim_space l) t = (None, v)"
    "ch_lines v = ls @ rest" "ch_opts v = ch_opts s" "ch_daemon v = ch_daemon s @ map (prompt_post E u (chat_model s)) (prompts [l])"
    using Cons.prems(2) turn_posts_once[OF log, of t u "trim_space l"] Cons.prems(4,5) same
    by (auto simp: v_def take_line_def prompts_def)
  have m: "chat_model v = chat_model s" by (simp add: chat_model_def v(3))
  obtain t' where "repl E v = (None, t')" "ch_lines t' = tl rest"
    "ch_daemon t' = ch_daemon v @ map (prompt_post E u (chat_model v)) (prompts ls)"
    using Cons.IH[OF v(2)] Cons.prems v(3) by auto
  moreover have "repl E s = repl E v" by (subst repl.simps) (simp add: t v(1))
  ultimately show ?case by (auto simp: v(4) m prompts_def)
qed

lemma fold_puts_same: "ch_lines (fold puts xs s) = ch_lines s \<and> ch_opts (fold puts xs s) = ch_opts s \<and> ch_daemon (fold puts xs s) = ch_daemon s"
  by (induction xs arbitrary: s) simp_all


section \<open>The best provider\<close>

lemma betterProvider_order:
  assumes "\<And>d. d \<in> A \<Longrightarrow> \<not> f64_is_nan (Reliability d)"
  shows "strict_weak betterProvider A"
proof -
  have tri: "Reliability a < Reliability b \<or> Reliability a = Reliability b \<or> Reliability b < Reliability a"
    if "a \<in> A" "b \<in> A" for a b using f64_trichotomy assms that by blast
  have lex: "betterProvider a b \<longleftrightarrow> Reliability b < Reliability a \<or> Reliability a = Reliability b
      \<and> (QueueDepth a, AvgLatencyMS a, PeerID a) < (QueueDepth b, AvgLatencyMS b, PeerID b)"
    if "a \<in> A" "b \<in> A" for a b
    using tri[OF that] assms[OF that(1)] by (auto simp: betterProvider_def f64_eq_def less_prod_def less_eq_prod_def dest: f64_less_asym)
  show ?thesis
    unfolding strict_weak_def
  proof (intro conjI ballI impI; (elim conjE)?)
    fix a assume "a \<in> A"
    then show "\<not> betterProvider a a" by (simp add: lex)
  next
    fix a b c assume m: "a \<in> A" "b \<in> A" "c \<in> A" and "betterProvider a b" "betterProvider b c"
    then show "betterProvider a c" by (auto simp: lex dest: f64_less_trans order.strict_trans)
  next
    fix a b c assume m: "a \<in> A" "b \<in> A" "c \<in> A" and n: "\<not> betterProvider a b" "\<not> betterProvider b c"
    then show "\<not> betterProvider a c"
      using tri[OF m(1,2)] tri[OF m(2,3)] by (auto simp: lex not_less dest: f64_less_trans f64_less_asym order.trans)
  qed
qed

lemma best_from_minimal:
  assumes "\<And>d. d \<in> insert b (set ps) \<Longrightarrow> \<not> f64_is_nan (Reliability d)"
  shows "best_from b ps \<in> insert b (set ps) \<and> (\<forall>p\<in>insert b (set ps). \<not> betterProvider p (best_from b ps))"
  using assms
proof (induction ps arbitrary: b)
  case Nil
  then show ?case using betterProvider_order[of "{b}"] by (auto simp: strict_weak_def)
next
  case (Cons p ps)
  define c where "c = (if betterProvider p b then p else b)"
  let ?A = "insert b (insert p (set ps))"
  have o: "strict_weak betterProvider ?A" using Cons.prems by (intro betterProvider_order) auto
  have c: "c \<in> {b, p}" by (simp add: c_def)
  then have "\<not> f64_is_nan (Reliability d)" if "d \<in> insert c (set ps)" for d using that Cons.prems[of d] by auto
  note ih = Cons.IH[OF this]
  then have in_A: "best_from c ps \<in> ?A" "c \<in> ?A" using c by auto
  have "\<not> betterProvider q c" if "q \<in> {b, p}" for q
    using that o strict_weak_asym[OF o, of p b] by (auto simp: c_def strict_weak_def)
  then have "\<not> betterProvider q (best_from c ps)" if "q \<in> {b, p}" for q
    using strict_weak_neg_trans[OF o _ in_A(2,1), of q] ih that by blast
  then show ?case using ih in_A(1) by (auto simp: c_def[symmetric])
qed



section \<open>The models on offer\<close>

text \<open>The providers of a model, in the order of the peer list: once per specification that names it.\<close>

definition offers :: "CapabilityDocument list \<Rightarrow> string \<Rightarrow> CapabilityDocument list" where
  "offers peers name = concat (map (\<lambda>p. map (\<lambda>_. p) (filter (\<lambda>n. n = name) (model_names (Models p)))) (filter (\<lambda>p. \<not> Self p) peers))"

definition filed :: "(string, CapabilityDocument list) gomap \<Rightarrow> string \<Rightarrow> CapabilityDocument list" where
  "filed m name = (case map_get m name of None \<Rightarrow> [] | Some ps \<Rightarrow> ps)"

definition no_empty :: "(string, CapabilityDocument list) gomap \<Rightarrow> bool" where
  "no_empty m = (map_wf m \<and> (\<forall>name. map_get m name \<noteq> Some []))"

lemma file_under_filed: "filed (file_under p n m) name = (if name = n then filed m n @ [p] else filed m name)"
  by (simp add: filed_def file_under_def update_conv')

lemma fold_file_under: "filed (fold (file_under p) ns m) name = filed m name @ map (\<lambda>_. p) (filter (\<lambda>n. n = name) ns)"
  by (induction ns arbitrary: m) (auto simp: file_under_filed)

lemma fold_file_peer: "filed (fold file_peer ps m) name = filed m name @ offers ps name"
  by (induction ps arbitrary: m) (auto simp: offers_def file_peer_def fold_file_under)

lemma file_peer_ok: "no_empty m \<Longrightarrow> no_empty (file_peer p m)"
proof -
  have u: "no_empty (file_under p n m)" if "no_empty m" for n m
    using that by (auto simp: no_empty_def file_under_def update_conv' map_wf_def distinct_update)
  have "no_empty (fold (file_under p) ns m)" if "no_empty m" for ns m
    using that by (induction ns arbitrary: m) (auto intro: u)
  then show "no_empty m \<Longrightarrow> no_empty (file_peer p m)" by (simp add: file_peer_def)
qed

lemma fold_file_peer_ok: "no_empty m \<Longrightarrow> no_empty (fold file_peer ps m)"
  by (induction ps arbitrary: m) (auto intro: file_peer_ok)

lemma filed_entry: "no_empty m \<Longrightarrow> (name, ps) \<in> set m \<longleftrightarrow> ps \<noteq> [] \<and> filed m name = ps"
  using gm.entries_iff[of m name ps] by (auto simp: no_empty_def filed_def split: option.splits)

text \<open>C33: The models a session lists are sorted by name, each once; each comes with exactly the peers
  other than the node itself that offer it, in the order of the peer list, and none is left out.\<close>

theorem models_on_offer:
  assumes srt: "slice_sort (ch_sortChoices E)" and rng: "permuting (ch_range E)"
  shows "sorted (map mc_Name (model_choices E peers)) \<and> distinct (map mc_Name (model_choices E peers))
    \<and> set (model_choices E peers) = (\<lambda>n. \<lparr>mc_Name = n, mc_Providers = offers peers n\<rparr>) ` {n. offers peers n \<noteq> []}"
proof -
  define m where "m = fold file_peer peers []"
  define xs where "xs = map (\<lambda>(name, ps). \<lparr>mc_Name = name, mc_Providers = ps\<rparr>) (ch_range E m)"
  define out where "out = model_choices E peers"
  have ok: "no_empty m" unfolding m_def by (rule fold_file_peer_ok) (simp add: no_empty_def map_wf_def)
  have offers: "filed m n = offers peers n" for n by (simp add: m_def fold_file_peer) (simp add: filed_def)
  have out: "out = ch_sortChoices E (\<lambda>a b. mc_Name a < mc_Name b) xs"
    by (simp add: out_def model_choices_def m_def xs_def)
  have mset: "mset out = mset xs" unfolding out by (rule slice_sort.srt_mset[OF srt])
  have names: "map mc_Name xs = map fst (ch_range E m)" by (auto simp: xs_def)
  have "mset (map fst (ch_range E m)) = mset (map fst m)" using permuting_mset[OF rng, of m] by simp
  then have "distinct (map mc_Name xs)"
    using ok unfolding names by (metis mset_eq_imp_distinct_iff no_empty_def map_wf_def)
  moreover have "mset (map mc_Name out) = mset (map mc_Name xs)" using mset by simp
  ultimately have d: "distinct (map mc_Name out)" by (metis mset_eq_imp_distinct_iff)
  have "strict_weak (\<lambda>a b. mc_Name a < mc_Name b) (set xs)" by (auto simp: strict_weak_def)
  from slice_sort.srt_sorted[OF srt this] have s: "sorted (map mc_Name out)"
    unfolding out by (simp add: sorted_map not_less)
  have "set out = set xs" using mset by (metis set_mset_mset)
  also have "\<dots> = (\<lambda>n. \<lparr>mc_Name = n, mc_Providers = offers peers n\<rparr>) ` {n. offers peers n \<noteq> []}"
    using filed_entry[OF ok] permuting_set[OF rng, of m] by (auto simp: xs_def offers image_iff)
  finally show ?thesis using s d unfolding out_def by blast
qed

section \<open>Pinning a peer\<close>

text \<open>The session's requests served by a node: \<open>path\<close> is the path of a URL.\<close>

definition through ::
  "(string \<Rightarrow> string) \<Rightarrow> (string \<Rightarrow> string) \<Rightarrow> (HttpIn \<Rightarrow> 'd \<Rightarrow> HttpOut \<times> 'd) \<Rightarrow> HttpRequest \<Rightarrow> 'd \<Rightarrow> (go_error + HttpResponse) \<times> 'd" where
  "through sniff path node q d =
     (let (o', d') = node (posted (path (hq_URL q)) q) d
      in (Inr (response_of sniff o'), d'))"

text \<open>A session whose daemon is that node, for all requests that can be sent and answered.\<close>

definition daemon_is :: "'d ChatEnv \<Rightarrow> (string \<Rightarrow> string) \<Rightarrow> (string \<Rightarrow> string) \<Rightarrow> (HttpIn \<Rightarrow> 'd \<Rightarrow> HttpOut \<times> 'd) \<Rightarrow> bool" where
  "daemon_is E sniff path node =
     (\<forall>q d. sendable q \<and> answerable (fst (node (posted (path (hq_URL q)) q) d)) \<longrightarrow> ch_serve E q d = through sniff path node q d)"

lemma daemon_serves:
  "daemon_is E sniff path node \<Longrightarrow> node (posted (path (hq_URL q)) q) d = (o', d') \<Longrightarrow> sendable q \<Longrightarrow> answerable o'
    \<Longrightarrow> ch_serve E q d = (Inr (response_of sniff o'), d')"
  by (simp add: daemon_is_def through_def)

definition only_policy :: "string \<Rightarrow> RoutingSettings" where
  "only_policy p = \<lparr>rs_RoutingPolicy = p, rs_FavoritePeers = None, rs_BlockedPeers = None, rs_AllowedPeers = None,
     rs_StickyPeerTTL = 0\<rparr>"

lemma json_reply_ok: "hr_StatusCode (response_of sniff (json_reply b)) = 200" "go_quot 200 100 = 2" "answerable (json_reply b)"
  by (simp_all add: response_of_def json_reply_def go_quot_def answerable_def)

lemma setRouting_through:
  assumes serve: "daemon_is E sniff path (client_node decode inferer encP peers encR decR)"
    and url: "ch_join E (op_BaseURL (ch_opts s)) [''/v1/mesh/routing''] = Inr u" "ch_url_error E u = None"
      "path u = ''/v1/mesh/routing''"
    and body: "decR (ch_policy_body E p) = Some i"
  shows "setRouting E False p s = (Inr (), s\<lparr>ch_daemon := UpdateRoutingSettings i (ch_daemon s)\<rparr>)"
  using assms(2-) json_headers_ok
  by (simp add: setRouting_def chat_do_def daemon_serves[OF serve] posted_def client_node_def HandleRouting_def and_then_def
      expect_2xx_def json_reply_ok sendable_def Let_def)

lemma selectPeer_through:
  assumes serve: "daemon_is E sniff path (client_node decode inferer encP peers encR decR)"
    and url: "ch_join E (op_BaseURL (ch_opts s)) [''/v1/mesh/select'', p] = Inr u" "ch_url_error E u = None"
      "path u = select_path @ p"
    and p: "p \<noteq> []" "trim_space p = p"
  shows "selectPeer E p s = (Inr (), puts (''selected peer: '' @ p) (s\<lparr>ch_daemon := SelectPeerManual p (ch_daemon s)\<rparr>))"
proof -
  have "path u \<noteq> ''/v1/chat/completions''" "path u \<noteq> ''/v1/mesh/peers''" "path u \<noteq> ''/v1/mesh/routing''"
    by (simp_all add: url(3) select_path_def)
  then show ?thesis
    using assms(2-) by (simp add: selectPeer_def chat_do_def daemon_serves[OF serve] posted_def client_node_def HandleSelect_def and_then_def
        expect_2xx_def json_reply_ok sendable_def Let_def)
qed

text \<open>C21: Pinning a peer from the chat, as choosing a model with one provider does, reaches the node's
  client service through its handlers: from then on the routing is manual, the peer is the only
  one allowed and every candidate for any request is that peer. The update of the policy also
  sets the sticky time to zero, whatever it was.\<close>

theorem pinned_peer_is_used:
  assumes serve: "daemon_is E sniff path (client_node decode inferer encP peers encR decR)"
    and routing: "ch_join E (op_BaseURL (ch_opts s)) [''/v1/mesh/routing''] = Inr u" "ch_url_error E u = None"
      "path u = ''/v1/mesh/routing''" "decR (ch_policy_body E ''manual'') = Some (only_policy ''manual'')"
    and select: "ch_join E (op_BaseURL (ch_opts s)) [''/v1/mesh/select'', p] = Inr v" "ch_url_error E v = None"
      "path v = select_path @ p" "p \<noteq> []" "trim_space p = p"
    and srt: "slice_sort srt"
  defines "t \<equiv> snd (pin_peer E p s)"
  shows "fst (pin_peer E p s) = Inr () \<and> co_RoutingPolicy (cs_opts (ch_daemon t)) = ''manual''
    \<and> co_AllowedPeers (cs_opts (ch_daemon t)) = [p] \<and> co_StickyPeerTTL (cs_opts (ch_daemon t)) = 0
    \<and> list_all (\<lambda>c. PeerID (ps_Capability c) = p) (candidates srt caps req (ch_daemon t))"
proof -
  define d where "d = SelectPeerManual p (UpdateRoutingSettings (only_policy ''manual'') (ch_daemon s))"
  have sel: "selectPeer E p (s\<lparr>ch_daemon := x\<rparr>) = (Inr (), puts (''selected peer: '' @ p) (s\<lparr>ch_daemon := SelectPeerManual p x\<rparr>))" for x
    using selectPeer_through[OF serve, of "s\<lparr>ch_daemon := x\<rparr>" p v] select by simp
  have pin: "pin_peer E p s = (Inr (), puts (''selected peer: '' @ p) (s\<lparr>ch_daemon := d\<rparr>))"
    by (simp add: pin_peer_def setRouting_through[OF serve routing] and_then_def sel d_def)
  then have t: "ch_daemon t = d" by (simp add: t_def puts_def put_def)
  have o: "co_RoutingPolicy (cs_opts d) = ''manual''" "co_AllowedPeers (cs_opts d) = [p]" "co_StickyPeerTTL (cs_opts d) = 0"
    by (simp_all add: d_def SelectPeerManual_def UpdateRoutingSettings_def only_policy_def Let_def)
  have "PeerID (ps_Capability c) = p" if c: "c \<in> set (candidates srt caps req d)" for c
    using candidates_eligible[OF srt c] o select(4) by (auto simp: eligible_def preferences_def toSet_def)
  then show ?thesis unfolding t by (simp add: pin o list_all_iff)
qed

section \<open>What is printed of a stream\<close>

text \<open>A byte that begins no white space, and one that ends none.\<close>

lemma trim_space_tight:
  assumes "s \<noteq> []" "list_all (\<lambda>p. hd p \<noteq> hd s \<and> last p \<noteq> last s) space_seqs"
  shows "trim_space s = s"
proof -
  have p: "p \<noteq> []" "hd p \<noteq> hd s" "last p \<noteq> last s" if "p \<in> set space_seqs" for p
    using that assms(2) nil_notin_space_seqs by (auto simp: list_all_iff simp del: nil_notin_space_seqs)
  have "\<not> has_prefix p s" if "p \<in> set space_seqs" for p
    using p[OF that] assms(1) by (cases p; cases s) (auto simp: has_prefix_def)
  then have l: "trim_left_space s = s" by (simp add: trim_left_space_def strip_lead_id lead_len_0_iff)
  have rev_seqs: "[] \<notin> set (map rev space_seqs)" by (simp add: space_seqs_def)
  have "\<not> has_prefix (rev p) (rev s)" if "p \<in> set space_seqs" for p
    using p[OF that] assms(1) by (cases p rule: rev_cases; cases s rule: rev_cases) (auto simp: has_prefix_def)
  then have "trim_right_space s = s"
    unfolding trim_right_space_def using rev_seqs by (subst strip_lead_id) (auto simp: lead_len_0_iff)
  then show ?thesis by (simp add: trim_space_def l)
qed

lemma trim_space_blank: "trim_space (CHR 0x20 # s) = trim_space s"
proof -
  have "lead_len space_seqs (CHR 0x20 # s) = 1" by (simp add: lead_len_def space_seqs_def has_prefix_def)
  then have "trim_left_space (CHR 0x20 # s) = trim_left_space s"
    unfolding trim_left_space_def by (subst strip_lead.simps) simp
  then show ?thesis by (simp add: trim_space_def)
qed

text \<open>An event of a stream whose data is a JSON object on one line of at most a megabyte.\<close>

definition event :: "string \<Rightarrow> string" where
  "event j = (''data: '' @ j) @ nl # nl # []"

definition one_line :: "string \<Rightarrow> bool" where
  "one_line j = (j \<noteq> [] \<and> hd j = CHR ''{'' \<and> last j = CHR ''}'' \<and> nl \<notin> set j \<and> length j \<le> 1048000)"

text \<open>What the session writes of an event.\<close>

definition event_contents :: "(string \<Rightarrow> string list option) \<Rightarrow> string \<Rightarrow> string list" where
  "event_contents chunk j = (case chunk j of None \<Rightarrow> [] | Some cs \<Rightarrow> filter (\<lambda>c. c \<noteq> []) cs)"

lemma tight_ends:
  "list_all (\<lambda>p. hd p \<noteq> CHR ''{'' \<and> hd p \<noteq> CHR ''d'' \<and> last p \<noteq> CHR ''}'' \<and> last p \<noteq> CHR ''n'') space_seqs"
  by (simp add: space_seqs_def)

lemma event_payload: "one_line j \<Longrightarrow> data_payload (''data: '' @ j) = Some j"
proof -
  assume "one_line j"
  then have e: "j \<noteq> []" "hd j = CHR ''{''" "last j = CHR ''}''" by (simp_all add: one_line_def)
  have j: "trim_space j = j"
    by (rule trim_space_tight) (use tight_ends e in \<open>auto simp: list_all_iff\<close>)
  have d: "trim_space (''data: '' @ j) = ''data: '' @ j"
    by (rule trim_space_tight) (use tight_ends e in \<open>auto simp: list_all_iff\<close>)
  have "trim_prefix ''data:'' (''data: '' @ j) = CHR 0x20 # j"
    using trim_prefix_append[of "''data:''" "CHR 0x20 # j"] by simp
  moreover have "has_prefix ''data:'' (''data: '' @ j)" by (simp add: has_prefix_def)
  ultimately show ?thesis unfolding data_payload_def Let_def d by (simp add: trim_space_blank j e(1))
qed

lemma event_line: "one_line j \<Longrightarrow> drop_cr (''data: '' @ j) = ''data: '' @ j"
  by (auto simp: drop_cr_def one_line_def)

lemma split_event: "one_line j \<Longrightarrow> split_on nl (event j @ rest) = (''data: '' @ j) # [] # split_on nl rest"
proof -
  assume "one_line j"
  then have n: "nl \<notin> set (''data: '' @ j)" by (simp add: one_line_def nl_def)
  have "event j @ rest = (''data: '' @ j) @ nl # ([] @ nl # rest)" by (simp add: event_def)
  then show ?thesis using split_on_append_sep[OF n] split_on_append_sep[of nl "[]"] by simp
qed

lemma data_payload_nil: "data_payload [] = None"
  by (simp add: data_payload_def has_prefix_def)

text \<open>Reading a stream of events back.\<close>

lemma read_events:
  assumes "list_all one_line js" "scan_wide (split_on nl rest) = (ls, False)" "chat_contents chunk ls = (ws, fin)"
  shows "\<exists>l. scan_wide (split_on nl (concat (map event js) @ rest)) = (l, False)
    \<and> chat_contents chunk l = (concat (map (event_contents chunk) js) @ ws, fin)"
  using assms
proof (induction js)
  case (Cons j js)
  then obtain l where l: "scan_wide (split_on nl (concat (map event js) @ rest)) = (l, False)"
    "chat_contents chunk l = (concat (map (event_contents chunk) js) @ ws, fin)" by auto
  have j: "one_line j" using Cons.prems by simp
  then have b: "\<not> 1024 * 1024 \<le> length (''data: '' @ j)" "j \<noteq> ''[DONE]''" by (auto simp: one_line_def)
  have "scan_wide (split_on nl (concat (map event (j # js)) @ rest)) = ((''data: '' @ j) # [] # l, False)"
    unfolding list.map concat.simps append_assoc split_event[OF j] scan_wide.simps event_line[OF j] if_not_P[OF b(1)]
    by (simp add: l(1) drop_cr_def)
  moreover have "chat_contents chunk ((''data: '' @ j) # [] # l) = (concat (map (event_contents chunk) (j # js)) @ ws, fin)"
    unfolding chat_contents.simps event_payload[OF j] data_payload_nil using b(2) l(2)
    by (simp add: event_contents_def split: option.split)
  ultimately show ?case by blast
qed auto

text \<open>A prompt that is answered with a readable stream.\<close>

lemma prompt_prints:
  assumes "ch_join E (op_BaseURL (ch_opts s)) [''/v1/chat/completions''] = Inr u" "ch_url_error E u = None"
    and "ch_serve E \<lparr>hq_Method = ''POST'', hq_URL = u, hq_Header = json_headers, hq_Body = ch_prompt_body E (prompt_request (chat_model s) prompt)\<rparr>
        (ch_daemon s) = (Inr r, d)"
    and "go_quot (hr_StatusCode r) 100 = 2" "scan_wide (split_on nl (hr_Body r)) = (l, False)" "chat_contents (ch_chunk E) l = (ws, fin)"
  shows "\<exists>st t. sendPromptWithStats E prompt s = (Inr st, t) \<and> ch_out t = ch_out s @ concat ws @ [nl]
    \<and> ss_CharsStreamed st = int (length (concat ws)) \<and> ch_daemon t = d"
  using assms by (simp add: sendPromptWithStats_def time_now_def chat_do_def chat_model_def and_then_def expect_2xx_def put_def Let_def)

text \<open>The JSON text of a chunk that was translated from Ollama.\<close>

definition chunk_json :: "(string \<Rightarrow> string) \<Rightarrow> string \<Rightarrow> string" where
  \<open>chunk_json quote content = ''{"id":"chatcmpl-ollama","object":"chat.completion.chunk","choices":[{"index":0,"delta":{"content":''
     @ quote content @ ''},"finish_reason":null}]}''\<close>

lemma ollama_chunk_json: "ollama_chunk quote c = event (chunk_json quote c)"
  by (simp add: ollama_chunk_def chunk_json_def event_def nl_def)

definition marker :: string where
  "marker = ''[DONE]'' @ [CHR 0x5C, CHR ''n'', CHR 0x5C, CHR ''n'']"

lemma done_line: "split_on nl ollama_done = [ollama_done]" "drop_cr ollama_done = ollama_done" "length ollama_done < 1024 * 1024"
  "ollama_done \<noteq> []" "data_payload ollama_done = Some marker"
proof -
  show "split_on nl ollama_done = [ollama_done]" by (rule split_on_single) (simp add: ollama_done_def nl_def)
  show "drop_cr ollama_done = ollama_done" "length ollama_done < 1024 * 1024" "ollama_done \<noteq> []"
    by (simp_all add: ollama_done_def drop_cr_def)
  show "data_payload ollama_done = Some marker" unfolding ollama_done_def marker_def by code_simp
qed

definition readable :: "(string \<Rightarrow> string) \<Rightarrow> (string \<Rightarrow> string list option) \<Rightarrow> string \<Rightarrow> bool" where
  "readable quote chunk c = (nl \<notin> set (quote c) \<and> length (quote c) \<le> 1000000 \<and> chunk (chunk_json quote c) = Some [c])"

lemma readable_one_line: "readable quote chunk c \<Longrightarrow> one_line (chunk_json quote c)"
  by (simp add: readable_def one_line_def chunk_json_def nl_def)

text \<open>Reading back what the adapter wrote.\<close>

lemma read_back:
  assumes "list_all (readable quote chunk) cs" "chunk marker = None" "[] \<notin> set cs"
  shows "\<exists>l. scan_wide (split_on nl (concat (map (ollama_chunk quote) cs) @ (if fin then ollama_done else []))) = (l, False)
    \<and> chat_contents chunk l = (cs, False)"
proof -
  have lines: "list_all one_line (map (chunk_json quote) cs)"
    using assms(1) readable_one_line by (auto simp: list_all_iff)
  have "concat (map (event_contents chunk) (map (chunk_json quote) cs)) = cs"
    using assms(1,3) by (induction cs) (auto simp: event_contents_def readable_def)
  moreover have "map (ollama_chunk quote) cs = map event (map (chunk_json quote) cs)"
    by (simp add: ollama_chunk_json)
  moreover obtain ls where "scan_wide (split_on nl (if fin then ollama_done else [])) = (ls, False)" "chat_contents chunk ls = ([], False)"
  proof -
    have "marker \<noteq> ''[DONE]''" by (simp add: marker_def)
    then show thesis using done_line assms(2) that by (cases fin) simp_all
  qed
  ultimately show ?thesis using read_events[OF lines] by (metis append_Nil2)
qed

lemma contents_ne: "[] \<notin> set (contents ls)"
  by (simp add: contents_def)


section \<open>The properties at work\<close>

text \<open>An environment with plain URLs, one chunk that decodes, and an update of the policy as body.\<close>

definition demo_session :: "(HttpRequest \<Rightarrow> 'd \<Rightarrow> (go_error + HttpResponse) \<times> 'd) \<Rightarrow> 'd ChatEnv" where
  "demo_session srv =
     \<lparr>ch_join = (\<lambda>base path. Inr (if length path = 1 then hd path else select_path @ path ! 1)), ch_url_error = (\<lambda>_. None),
      ch_serve = srv, ch_prompt_body = (\<lambda>r. []), ch_policy_body = (\<lambda>p. p),
      ch_chunk = (\<lambda>j. if j = chunk_json (\<lambda>c. c) ''hi'' then Some [''hi''] else None),
      ch_peers = (\<lambda>_. Inr []), ch_settings = (\<lambda>_. Inl ErrNoPeers), ch_clock = int, ch_menu = (\<lambda>_ _ _. None),
      ch_dur = int_dec, ch_float2 = (\<lambda>_. []), ch_range = (\<lambda>xs. xs), ch_sortDocs = insertion_sort, ch_sortChoices = insertion_sort\<rparr>"

definition demo_start :: "'d \<Rightarrow> 'd Chat" where
  "demo_start d = \<lparr>ch_opts = \<lparr>op_BaseURL = [], op_Model = ''m''\<rparr>, ch_daemon = d, ch_lines = [], ch_ticks = 0, ch_menus = 0,
     ch_out = [], ch_err = []\<rparr>"



theorem models_on_offer_witness:
  "map mc_Name (model_choices (demo_session (\<lambda>q d. (Inl ErrNoPeers, d)) :: unit ChatEnv)
     [zero_doc\<lparr>PeerID := ''a'', Models := [zero_spec\<lparr>ms_Name := ''x''\<rparr>]\<rparr>]) = [''x'']"
proof -
  let ?E = "demo_session (\<lambda>q d. (Inl ErrNoPeers, d)) :: unit ChatEnv"
  let ?p = "zero_doc\<lparr>PeerID := ''a'', Models := [zero_spec\<lparr>ms_Name := ''x''\<rparr>]\<rparr>"
  have x: "trim_space ''x'' = ''x''" by code_simp
  have "offers [?p] n = (if n = ''x'' then [?p] else [])" for n
    by (simp add: offers_def zero_doc_def x Let_def)
  moreover have srt: "slice_sort (ch_sortChoices ?E)" and rng: "permuting (ch_range ?E)"
    by (simp_all add: demo_session_def isort.slice_sort_axioms permuting_id)
  ultimately have "set (model_choices ?E [?p]) = {\<lparr>mc_Name = ''x'', mc_Providers = [?p]\<rparr>}" "distinct (map mc_Name (model_choices ?E [?p]))"
    using models_on_offer[OF srt rng, of "[?p]"] by auto
  then show ?thesis
    by (cases "model_choices ?E [?p]" rule: remdups_adj.cases) auto
qed

theorem pinned_peer_is_used_witness:
  "co_AllowedPeers (cs_opts (ch_daemon (snd (pin_peer (demo_session (through id (\<lambda>u. u) (client_node (\<lambda>_. None) (\<lambda>req s. (Inl ErrNoPeers, s))
     (\<lambda>_. []) (\<lambda>_. Inr []) (\<lambda>_. []) (\<lambda>b. Some (only_policy b))))) ''b'' (demo_start demo_client))))) = [''b'']"
proof -
  let ?node = "client_node (\<lambda>_. None) (\<lambda>req s. (Inl ErrNoPeers, s)) (\<lambda>_. []) (\<lambda>_. Inr []) (\<lambda>_. []) (\<lambda>b. Some (only_policy b))"
  have b: "trim_space ''b'' = ''b''" by code_simp
  have d: "daemon_is (demo_session (through id (\<lambda>u. u) ?node)) id (\<lambda>u. u) ?node" by (simp add: daemon_is_def demo_session_def)
  show ?thesis
    using pinned_peer_is_used[OF d _ _ _ _ _ _ _ _ _ keep_order, where s = "demo_start demo_client" and p = "''b''"
        and caps = "[]" and req = zero_request] b
    by (simp add: demo_session_def)
qed

end
