(* ===== verification/Identity.thy ===== *)
theory Identity
  imports Sha256 Config
begin

text \<open>
  The identity of a node (\<^verbatim>\<open>internal/p2p/identity.go\<close> and \<^verbatim>\<open>internal/p2p/libp2p_identity.go\<close>): a key
  pair that is read from its file or generated and written there, and the name made from it.
  The disk is a state behind \<open>Disk\<close> (of \<open>Config\<close>); key generation, PEM and the key codec of libp2p are arguments.
  A byte slice is a string; a result \<open>None\<close> is a panic.
\<close>

section \<open>Base64\<close>

text \<open>\<open>base64.RawURLEncoding\<close>: groups of three bytes as four digits, no padding.\<close>

definition b64_char :: "nat \<Rightarrow> char" where
  "b64_char d =
     (if d < 26 then char_of (65 + d) else if d < 52 then char_of (71 + d)
      else if d < 62 then char_of (d - 4) else if d = 62 then CHR ''-'' else CHR ''_'')"

fun b64_raw :: "nat list \<Rightarrow> nat list" where
  "b64_raw (a # b # c # bs) = [a div 4, a mod 4 * 16 + b div 16, b mod 16 * 4 + c div 64, c mod 64] @ b64_raw bs"
| "b64_raw [a, b] = [a div 4, a mod 4 * 16 + b div 16, b mod 16 * 4]"
| "b64_raw [a] = [a div 4, a mod 4 * 16]"
| "b64_raw [] = []"

definition b64url :: "byte list \<Rightarrow> string" where
  "b64url bs = map b64_char (b64_raw (map unat bs))"

section \<open>Key files\<close>

text \<open>\<open>os.MkdirAll\<close> of the directory, then \<open>os.WriteFile\<close>.\<close>

definition save_key :: "'f Disk \<Rightarrow> string \<Rightarrow> string \<Rightarrow> 'f \<Rightarrow> go_error option \<times> 'f" where
  "save_key disk path b f =
     (case dk_mkdir disk (path_dir path) f of
        (Some e, f) \<Rightarrow> (Some e, f)
      | (None, f) \<Rightarrow> dk_write disk path b f)"

section \<open>The ed25519 identity\<close>

record Identity =
  id_PeerID :: string
  id_PrivKey :: string
  id_PubKey :: string

definition peerIDFromPub :: "string \<Rightarrow> string" where
  "peerIDFromPub pub = b64url (take 16 (Sum256 pub))"

text \<open>\<open>ed25519.PrivateKey.Public\<close>: a copy of what follows the seed; slicing too short a key panics.\<close>

definition ed25519_public :: "string \<Rightarrow> string option" where
  "ed25519_public priv =
     (if length priv < 32 then None
      else let p = take 32 (drop 32 priv) in Some (p @ replicate (32 - length p) (char_of (0 :: nat))))"

definition identity_of :: "string \<times> string \<Rightarrow> Identity" where
  "identity_of kp = (case kp of (priv, pub) \<Rightarrow> \<lparr>id_PeerID = peerIDFromPub pub, id_PrivKey = priv, id_PubKey = pub\<rparr>)"

text \<open>\<open>gen\<close> is what \<open>ed25519.GenerateKey\<close> returns: public key, then private key, or its error.\<close>

definition newIdentity :: "go_error + string \<times> string \<Rightarrow> go_error + string \<times> string" where
  "newIdentity gen = (case gen of Inl e \<Rightarrow> Inl e | Inr (pub, priv) \<Rightarrow> Inr (priv, pub))"

text \<open>\<open>pem\<close> encodes a block of a type, \<open>unpem\<close> gives the bytes of the first block, if there is one.\<close>

definition LoadOrCreateIdentity ::
  "'f Disk \<Rightarrow> (string \<Rightarrow> string \<Rightarrow> string) \<Rightarrow> (string \<Rightarrow> string option) \<Rightarrow> (go_error + string \<times> string)
    \<Rightarrow> string \<Rightarrow> 'f \<Rightarrow> (go_error + Identity) option \<times> 'f" where
  "LoadOrCreateIdentity disk pem unpem gen path f =
     (if path = [] then (Some (map_sum id identity_of (newIdentity gen)), f)
      else case dk_read disk path f of
          Inr b \<Rightarrow>
            (case unpem b of
               None \<Rightarrow> (Some (Inl (ErrText ''invalid identity pem'')), f)
             | Some priv \<Rightarrow> (map_option (\<lambda>pub. Inr (identity_of (priv, pub))) (ed25519_public priv), f))
        | Inl _ \<Rightarrow>
            (case newIdentity gen of
               Inl e \<Rightarrow> (Some (Inl e), f)
             | Inr kp \<Rightarrow>
                 (case save_key disk path (pem ''INFERMESH ED25519 PRIVATE KEY'' (fst kp)) f of
                    (Some e, f) \<Rightarrow> (Some (Inl e), f)
                  | (None, f) \<Rightarrow> (Some (Inr (identity_of kp)), f))))"

section \<open>The libp2p identity\<close>

record ('k, 'p) Libp2pIdentity =
  li_PrivKey :: 'k
  li_PubKey :: 'p

text \<open>Package \<open>crypto\<close> of libp2p.\<close>

record ('k, 'p) KeyLib =
  kl_unmarshal :: "string \<Rightarrow> go_error + 'k"
  kl_marshal :: "'k \<Rightarrow> go_error + string"
  kl_public :: "'k \<Rightarrow> 'p"

definition read_key :: "'f Disk \<Rightarrow> string \<Rightarrow> 'f \<Rightarrow> string option" where
  "read_key disk path f =
     (if path = [] then None else case dk_read disk path f of Inr b \<Rightarrow> Some b | Inl _ \<Rightarrow> None)"

definition LoadOrCreateLibp2pIdentity ::
  "'f Disk \<Rightarrow> ('k, 'p) KeyLib \<Rightarrow> (go_error + 'k \<times> 'p) \<Rightarrow> string \<Rightarrow> 'f
    \<Rightarrow> (go_error + ('k, 'p) Libp2pIdentity) \<times> 'f" where
  "LoadOrCreateLibp2pIdentity disk lib gen path f =
     (case read_key disk path f of
        Some b \<Rightarrow>
          (case kl_unmarshal lib b of
             Inl e \<Rightarrow> (Inl (ErrWrap ''unmarshal libp2p key: '' e), f)
           | Inr pk \<Rightarrow> (Inr \<lparr>li_PrivKey = pk, li_PubKey = kl_public lib pk\<rparr>, f))
      | None \<Rightarrow>
          (case gen of
             Inl e \<Rightarrow> (Inl e, f)
           | Inr (pk, pub) \<Rightarrow>
               if path = [] then (Inr \<lparr>li_PrivKey = pk, li_PubKey = pub\<rparr>, f)
               else
                 (case dk_mkdir disk (path_dir path) f of
                    (Some e, f) \<Rightarrow> (Inl e, f)
                  | (None, f) \<Rightarrow>
                      (case kl_marshal lib pk of
                         Inl e \<Rightarrow> (Inl e, f)
                       | Inr enc \<Rightarrow>
                           (case dk_write disk path enc f of
                              (Some e, f) \<Rightarrow> (Inl e, f)
                            | (None, f) \<Rightarrow> (Inr \<lparr>li_PrivKey = pk, li_PubKey = pub\<rparr>, f))))))"

section \<open>Names\<close>

fun b64_digit :: "nat list \<Rightarrow> nat list" where
  "b64_digit (p # q # r # s # ds) = [p * 4 + q div 16, q mod 16 * 16 + r div 4, r mod 4 * 64 + s] @ b64_digit ds"
| "b64_digit [p, q, r] = [p * 4 + q div 16, q mod 16 * 16 + r div 4]"
| "b64_digit [p, q] = [p * 4 + q div 16]"
| "b64_digit _ = []"

lemma group_bounds:
  fixes a b c :: nat
  shows "a < 256 \<Longrightarrow> a div 4 < 64" "b < 256 \<Longrightarrow> a mod 4 * 16 + b div 16 < 64" "c < 256 \<Longrightarrow> b mod 16 * 4 + c div 64 < 64"
    "c mod 64 < 64" "a mod 4 * 16 < 64" "b mod 16 * 4 < 64"
proof -
  have m: "a mod 4 < 4" "b mod 16 < 16" by simp_all
  show "b < 256 \<Longrightarrow> a mod 4 * 16 + b div 16 < 64"
  proof -
    assume "b < 256"
    then have "b div 16 < 16" by (simp add: div_less_iff_less_mult)
    then show "a mod 4 * 16 + b div 16 < 64" using m by linarith
  qed
  show "c < 256 \<Longrightarrow> b mod 16 * 4 + c div 64 < 64"
  proof -
    assume "c < 256"
    then have "c div 64 < 4" by (simp add: div_less_iff_less_mult)
    then show "b mod 16 * 4 + c div 64 < 64" using m by linarith
  qed
qed (simp_all add: div_less_iff_less_mult)

lemma b64_raw_small: "list_all (\<lambda>a. a < 256) bs \<Longrightarrow> list_all (\<lambda>d. d < 64) (b64_raw bs)"
  by (induction bs rule: b64_raw.induct) (simp_all add: group_bounds)

lemma b64_digit_raw: "list_all (\<lambda>a. a < 256) bs \<Longrightarrow> b64_digit (b64_raw bs) = bs"
proof (induction bs rule: b64_raw.induct)
  case (1 a b c bs)
  then have s: "b div 16 < 16" "c div 64 < 4" by (simp_all add: div_less_iff_less_mult)
  have "(b mod 16 * 4 + c div 64) div 4 = b mod 16" "(b mod 16 * 4 + c div 64) mod 4 = c div 64"
    "(a mod 4 * 16 + b div 16) div 16 = a mod 4" "(a mod 4 * 16 + b div 16) mod 16 = b div 16"
    using s by (simp_all add: div_mult_self3 div_add1_eq)
  then show ?case using 1 by (simp add: div_mult_mod_eq)
next
  case (2 a b)
  then have "(a mod 4 * 16 + b div 16) div 16 = a mod 4" "(a mod 4 * 16 + b div 16) mod 16 = b div 16"
    by (simp_all add: div_less_iff_less_mult)
  then show ?case by (simp add: div_mult_mod_eq)
qed (simp_all add: div_mult_mod_eq)

lemma length_b64_raw: "length (b64_raw bs) = (4 * length bs + 2) div 3"
  by (induction bs rule: b64_raw.induct) simp_all

definition b64_alphabet :: string where
  "b64_alphabet = ''ABCDEFGHIJKLMNOPQRSTUVWXYZabcdefghijklmnopqrstuvwxyz0123456789-_''"

lemma b64_chars: "map b64_char [0..<64] = b64_alphabet"
  unfolding b64_alphabet_def by code_simp

lemma b64_char_in: "d < 64 \<Longrightarrow> b64_char d = b64_alphabet ! d"
  using b64_chars by (metis (no_types) add.left_neutral diff_zero length_upt nth_map nth_upt)

lemma b64_char_inj: "inj_on b64_char {..<64}"
proof -
  have "distinct b64_alphabet" "length b64_alphabet = 64" unfolding b64_alphabet_def by code_simp+
  then show ?thesis by (auto simp: inj_on_def b64_char_in nth_eq_iff_index_eq)
qed

lemma byte_range: "unat (z :: byte) < 256"
  using unsigned_less[of z] by simp

lemma b64url_inj:
  assumes "b64url xs = b64url ys" shows "xs = ys"
proof -
  have s: "list_all (\<lambda>a. a < 256) (map unat (zs :: byte list))" for zs
    using byte_range by (auto simp: list_all_iff)
  have "set (b64_raw (map unat (zs :: byte list))) \<subseteq> {..<64}" for zs
    using b64_raw_small[OF s] by (auto simp: list_all_iff)
  then have "b64_raw (map unat xs) = b64_raw (map unat ys)"
    using assms unfolding b64url_def
    by (intro map_inj_on[where f = b64_char]) (auto intro!: inj_on_subset[OF b64_char_inj])
  then have "map unat xs = map unat ys" using b64_digit_raw[OF s] by metis
  then show ?thesis by (rule map_injective) (simp add: inj_def unsigned_word_eqI)
qed

lemma length_b64url: "length (b64url bs) = (4 * length bs + 2) div 3"
  by (simp add: b64url_def length_b64_raw)

text \<open>The name of a node has 22 characters, all safe in an URL, and tells the first 16 bytes of the
  digest of its public key.\<close>

theorem peer_name:
  "length (peerIDFromPub pub) = 22 \<and> set (peerIDFromPub pub) \<subseteq> set b64_alphabet
    \<and> (peerIDFromPub pub = peerIDFromPub pub' \<longleftrightarrow> take 16 (Sum256 pub) = take 16 (Sum256 pub'))"
proof (intro conjI)
  show "length (peerIDFromPub pub) = 22" by (simp add: peerIDFromPub_def length_b64url)
  have "list_all (\<lambda>a. a < 256) (map unat (take 16 (Sum256 pub)))"
    using byte_range by (auto simp: list_all_iff)
  then have d: "\<forall>d\<in>set (b64_raw (map unat (take 16 (Sum256 pub)))). d < 64"
    using b64_raw_small unfolding list_all_iff by blast
  have "length b64_alphabet = 64" unfolding b64_alphabet_def by code_simp
  then have "b64_char d \<in> set b64_alphabet" if "d < 64" for d using that by (simp add: b64_char_in)
  with d show "set (peerIDFromPub pub) \<subseteq> set b64_alphabet" by (auto simp: peerIDFromPub_def b64url_def)
  show "peerIDFromPub pub = peerIDFromPub pub' \<longleftrightarrow> take 16 (Sum256 pub) = take 16 (Sum256 pub')"
    by (auto simp: peerIDFromPub_def dest: b64url_inj)
qed

section \<open>Identities last\<close>

text \<open>A key that was encoded decodes.\<close>

definition keeps_keys :: "('k, 'p) KeyLib \<Rightarrow> bool" where
  "keeps_keys lib = (\<forall>k b. kl_marshal lib k = Inr b \<longrightarrow> kl_unmarshal lib b = Inr k)"

lemma libp2p_identity_survives:
  assumes "keeps_files disk" "keeps_keys lib" "\<And>k p. gen = Inr (k, p) \<Longrightarrow> p = kl_public lib k" "path \<noteq> []"
    and first: "LoadOrCreateLibp2pIdentity disk lib gen path f = (Inr i, f')"
  shows "LoadOrCreateLibp2pIdentity disk lib gen' path f' = (Inr i, f')"
proof (cases "dk_read disk path f")
  case (Inr b)
  then show ?thesis using first assms(4)
    by (auto simp: LoadOrCreateLibp2pIdentity_def read_key_def split: sum.splits)
next
  case (Inl e)
  with first assms(4) obtain k p g enc where g: "gen = Inr (k, p)" "kl_marshal lib k = Inr enc"
    "dk_write disk path enc g = (None, f')" "i = \<lparr>li_PrivKey = k, li_PubKey = p\<rparr>"
    by (auto simp: LoadOrCreateLibp2pIdentity_def read_key_def split: sum.splits prod.splits option.splits)
  then have "dk_read disk path f' = Inr enc" "kl_unmarshal lib enc = Inr k" "p = kl_public lib k"
    using assms by (auto simp: keeps_files_def keeps_keys_def)
  then show ?thesis using assms(4) g by (simp add: LoadOrCreateLibp2pIdentity_def read_key_def)
qed

text \<open>An ed25519 identity that was created is the one that is loaded from then on.\<close>

theorem ed25519_identity_survives:
  assumes "keeps_files disk" "\<And>t b. unpem (pem t b) = Some b"
    and gen: "\<And>pub priv. gen = Inr (pub, priv) \<Longrightarrow> ed25519_public priv = Some pub" and "path \<noteq> []"
    and first: "LoadOrCreateIdentity disk pem unpem gen path f = (Some (Inr i), f')"
  shows "LoadOrCreateIdentity disk pem unpem gen' path f' = (Some (Inr i), f')"
proof (cases "dk_read disk path f")
  case (Inr b)
  then show ?thesis using first assms(4) by (auto simp: LoadOrCreateIdentity_def split: option.splits)
next
  case (Inl e)
  with first assms(4) obtain pub priv g where g: "gen = Inr (pub, priv)"
    "dk_write disk path (pem ''INFERMESH ED25519 PRIVATE KEY'' priv) g = (None, f')" "i = identity_of (priv, pub)"
    by (auto simp: LoadOrCreateIdentity_def newIdentity_def save_key_def split: sum.splits prod.splits option.splits)
  then have "dk_read disk path f' = Inr (pem ''INFERMESH ED25519 PRIVATE KEY'' priv)" "ed25519_public priv = Some pub"
    using assms(1) gen by (auto simp: keeps_files_def)
  then show ?thesis using assms(2,4) g by (simp add: LoadOrCreateIdentity_def)
qed

text \<open>Loading panics exactly on a file whose block is too short to hold a key.\<close>

lemma short_key_panics:
  "fst (LoadOrCreateIdentity disk pem unpem gen path f) = None
    \<longleftrightarrow> path \<noteq> [] \<and> (\<exists>b priv. dk_read disk path f = Inr b \<and> unpem b = Some priv \<and> length priv < 32)"
  by (auto simp: LoadOrCreateIdentity_def ed25519_public_def Let_def split: sum.splits option.splits prod.splits if_splits)

end
