(* ===== verification/Node.thy ===== *)
theory Node
  imports Daemon Identity
begin

text \<open>
  What \<^verbatim>\<open>cmd/infermeshd/main.go\<close> does with a resolved configuration: it derives the node's identity,
  starts the libp2p node, the client and the provider, and runs the loop that publishes the
  provider's document. The goroutines are the list of the tasks that are started; a fatal error
  is \<open>Inl\<close> of what is logged before the exit.
\<close>

section \<open>The identity\<close>

text \<open>\<open>idOf\<close> is \<open>peer.IDFromPublicKey\<close> and the text of the result.\<close>

definition derive_peer_id ::
  "'f Disk \<Rightarrow> ('k, 'p) KeyLib \<Rightarrow> ('p \<Rightarrow> go_error + string) \<Rightarrow> (go_error + 'k \<times> 'p) \<Rightarrow> string \<Rightarrow> 'f \<Rightarrow> (go_error + string) \<times> 'f" where
  "derive_peer_id disk keys idOf gen path f =
     (case LoadOrCreateLibp2pIdentity disk keys gen path f of
        (Inl e, f) \<Rightarrow> (Inl (ErrWrap ''failed to initialize identity: '' e), f)
      | (Inr i, f) \<Rightarrow>
          (case idOf (li_PubKey i) of
             Inl e \<Rightarrow> (Inl (ErrWrap ''failed deriving peer id: '' e), f)
           | Inr pid \<Rightarrow> (Inr pid, f)))"

section \<open>Publishing the provider's document\<close>

definition PublishHeartbeat ::
  "(CapabilityDocument \<Rightarrow> go_error + string) \<Rightarrow> (string \<Rightarrow> 'n \<Rightarrow> go_error option \<times> 'n) \<Rightarrow> CapabilityDocument \<Rightarrow> 'n
    \<Rightarrow> go_error option \<times> 'n" where
  "PublishHeartbeat encode send cap net = (case encode cap of Inl e \<Rightarrow> (Some e, net) | Inr b \<Rightarrow> send b net)"

text \<open>The closure \<open>publish\<close>: the network is a state that heartbeats and announcements change;
  their errors are only logged.\<close>

definition announce_all ::
  "(string \<Rightarrow> CapabilityDocument \<Rightarrow> 'n \<Rightarrow> go_error option \<times> 'n) \<Rightarrow> Libp2pNode \<Rightarrow> CapabilityDocument \<Rightarrow> 'n \<Rightarrow> 'n" where
  "announce_all announce node cap net =
     fold (\<lambda>bp net. if ai_ID bp = [] \<or> ai_ID bp = ln_ID node then net else snd (announce (ai_ID bp) cap net))
       (BootstrapPeers node) net"

definition publish ::
  "Libp2pLib \<Rightarrow> string list \<Rightarrow> gtime \<Rightarrow> gtime \<Rightarrow> (CapabilityDocument \<Rightarrow> 'n \<Rightarrow> go_error option \<times> 'n)
    \<Rightarrow> (string \<Rightarrow> CapabilityDocument \<Rightarrow> 'n \<Rightarrow> go_error option \<times> 'n) \<Rightarrow> Libp2pNode \<Rightarrow> CapabilityState \<Rightarrow> 'n
    \<Rightarrow> CapabilityState \<times> 'n" where
  "publish lib hostAddrs now1 now2 heartbeat announce node s net =
     (let (capDoc, s) = publish_doc lib hostAddrs now1 now2 node s;
          net = snd (heartbeat capDoc net)
      in (s, announce_all announce node capDoc net))"

section \<open>Starting the parts\<close>

text \<open>\<open>le_fresh n\<close> is the outcome of the \<open>n\<close>-th key generation of this start.\<close>

record 'p LaunchEnv =
  le_fresh :: "nat \<Rightarrow> go_error + string \<times> 'p"
  le_idOf :: "'p \<Rightarrow> go_error + string"
  le_lib :: Libp2pLib
  le_start :: StartEnv
  le_hostAddrs :: "string list"
  le_lanListen :: "go_error option"
  le_lanAnnounce :: "go_error option"

datatype task = ServeClient string | ServeProvider string | ServeAdmin string | PublishLoop | AnnounceLoop

record Running =
  rn_PeerID :: string
  rn_node :: "Libp2pNode option"
  rn_client :: "ClientService option"
  rn_provider :: "ProviderService option"
  rn_tasks :: "task list"

definition launch_node ::
  "'f Disk \<Rightarrow> (string, 'p) KeyLib \<Rightarrow> 'p LaunchEnv \<Rightarrow> Config \<Rightarrow> 'f \<Rightarrow> (go_error + Libp2pNode option) \<times> 'f" where
  "launch_node disk keys E cfg f =
     (if norm_word (cfg_Transport cfg) \<noteq> ''libp2p'' then (Inr None, f)
      else
        let (i, f) = LoadOrCreateLibp2pIdentity disk keys (le_fresh E 1) (cfg_IdentityFile cfg) f in
        (case fst (NewLibp2pNode (le_lib E) ((le_start E)\<lparr>se_identity := map_sum id li_PrivKey i\<rparr>) (node_config cfg)) of
           Inl e \<Rightarrow> (Inl (ErrWrap ''failed to initialize libp2p node: '' e), f)
         | Inr n \<Rightarrow> (Inr (Some n), f)))"

definition launch_client ::
  "'p LaunchEnv \<Rightarrow> Config \<Rightarrow> string \<Rightarrow> Libp2pNode option \<Rightarrow> CreditLedger \<Rightarrow> ReputationTracker
    \<Rightarrow> go_error + ClientService option \<times> task list" where
  "launch_client E cfg peerID node creditLedger reputation =
     (if cfg_Mode cfg \<noteq> ''client'' \<and> cfg_Mode cfg \<noteq> ''both'' then Inr (None, [])
      else
        (case (if cfg_LANDiscovery cfg then map_sum id Some (NewLANDiscovery (le_lanListen E) (cfg_LANPeerTTL cfg)) else Inr None) of
           Inl e \<Rightarrow> Inl (ErrWrap ''failed to start LAN discovery: '' e)
         | Inr lan \<Rightarrow>
             if node = None \<and> cfg_ProviderPeerURLs cfg = [] \<and> lan = None
             then Inl (ErrText ''no discovery source configured; set provider_peer_urls/lan_discovery/libp2p'')
             else Inr (Some (start_client cfg peerID creditLedger reputation), [ServeClient (cfg_ClientAddr cfg)])))"

definition launch_provider ::
  "'p LaunchEnv \<Rightarrow> Config \<Rightarrow> string \<Rightarrow> Libp2pNode option \<Rightarrow> gtime \<Rightarrow> CreditLedger \<Rightarrow> ReputationTracker
    \<Rightarrow> go_error + ProviderService option \<times> task list" where
  "launch_provider E cfg peerID node now creditLedger reputation =
     (if cfg_Mode cfg \<noteq> ''provider'' \<and> cfg_Mode cfg \<noteq> ''both'' then Inr (None, [])
      else
        let p = start_provider cfg peerID (map_option (AdvertiseAddrs (le_lib E) (le_hostAddrs E)) node) now
              creditLedger reputation;
            tasks = (case node of
                Some n \<Rightarrow> [ServeAdmin (cfg_ProviderAddr cfg), PublishLoop]
              | None \<Rightarrow> [ServeProvider (cfg_ProviderAddr cfg)])
        in if cfg_LANDiscovery cfg \<and> node = None then
             (case le_lanAnnounce E of
                Some e \<Rightarrow> Inl (ErrWrap ''failed to start LAN announcer: '' e)
              | None \<Rightarrow> Inr (Some p, tasks @ [AnnounceLoop]))
           else Inr (Some p, tasks))"

definition launch ::
  "'f Disk \<Rightarrow> (string, 'p) KeyLib \<Rightarrow> 'p LaunchEnv \<Rightarrow> Config \<Rightarrow> gtime \<Rightarrow> 'f \<Rightarrow> (go_error + Running) \<times> 'f" where
  "launch disk keys E cfg now f =
     (case derive_peer_id disk keys (le_idOf E) (le_fresh E 0) (cfg_IdentityFile cfg) f of
        (Inl e, f) \<Rightarrow> (Inl e, f)
      | (Inr derived, f) \<Rightarrow>
          let creditLedger = NewCreditLedger (cfg_InitialCredits cfg); reputation = NewReputationTracker in
          (case launch_node disk keys E cfg f of
             (Inl e, f) \<Rightarrow> (Inl e, f)
           | (Inr node, f) \<Rightarrow>
               let peerID = effectivePeerID cfg derived (map_option (\<lambda>n. lp_string (le_lib E) (ln_ID n)) node) in
               (case launch_client E cfg peerID node creditLedger reputation of
                  Inl e \<Rightarrow> (Inl e, f)
                | Inr (c, ts) \<Rightarrow>
                    (case launch_provider E cfg peerID node now creditLedger reputation of
                       Inl e \<Rightarrow> (Inl e, f)
                     | Inr (p, us) \<Rightarrow>
                         (Inr \<lparr>rn_PeerID = peerID, rn_node = node, rn_client = c, rn_provider = p, rn_tasks = ts @ us\<rparr>, f)))))"

text \<open>
  In mode \<open>both\<close> the two services hold the same ledger and the same tracker, so what one of them does
  to these is seen by the other. (How their accesses interleave is the matter of \<open>ClientRuns\<close> and
  \<open>ProviderRuns\<close>.)
\<close>

definition client_does :: "(ClientService \<Rightarrow> 'a \<times> ClientService) \<Rightarrow> Running \<Rightarrow> 'a option \<times> Running" where
  "client_does f R =
     (case rn_client R of
        None \<Rightarrow> (None, R)
      | Some c \<Rightarrow> (let (x, c) = f c in
          (Some x, R\<lparr>rn_client := Some c,
             rn_provider := map_option (\<lambda>p. p\<lparr>pv_creditLedger := cs_ledger c, pv_peerReputation := cs_reputation c\<rparr>) (rn_provider R)\<rparr>)))"

definition provider_does :: "(ProviderService \<Rightarrow> 'a \<times> ProviderService) \<Rightarrow> Running \<Rightarrow> 'a option \<times> Running" where
  "provider_does f R =
     (case rn_provider R of
        None \<Rightarrow> (None, R)
      | Some p \<Rightarrow> (let (x, p) = f p in
          (Some x, R\<lparr>rn_provider := Some p,
             rn_client := map_option (\<lambda>c. c\<lparr>cs_ledger := pv_creditLedger p, cs_reputation := pv_peerReputation p\<rparr>) (rn_client R)\<rparr>)))"

definition shared :: "Running \<Rightarrow> bool" where
  "shared R = (\<forall>c p. rn_client R = Some c \<longrightarrow> rn_provider R = Some p
     \<longrightarrow> cs_ledger c = pv_creditLedger p \<and> cs_reputation c = pv_peerReputation p)"

lemma does_shared: "shared (snd (client_does f R))" "shared (snd (provider_does g R))" if "shared R"
  using that by (auto simp: shared_def client_does_def provider_does_def split: option.splits prod.splits)

lemma launched_with:
  "launch_client E cfg peerID node l r = Inr (Some c, ts) \<Longrightarrow> cs_ledger c = Some l \<and> cs_reputation c = Some r"
  "launch_provider E cfg peerID node now l r = Inr (Some p, us) \<Longrightarrow> pv_creditLedger p = Some l \<and> pv_peerReputation p = Some r"
  by (auto simp: launch_client_def start_client_def NewClientService_def Let_def split: sum.splits if_splits)
    (auto simp: launch_provider_def start_provider_def NewProviderService_def Let_def split: option.splits if_splits)

lemma launch_shared:
  assumes "launch disk keys E cfg now f = (Inr R, f')" shows "shared R"
proof -
  obtain peerID node l r now c ts p us where
    "launch_client E cfg peerID node l r = Inr (c, ts)" "launch_provider E cfg peerID node now l r = Inr (p, us)"
    "rn_client R = c" "rn_provider R = p"
    using assms unfolding launch_def Let_def by (fastforce split: prod.splits sum.splits)
  then show ?thesis using launched_with unfolding shared_def by metis
qed

section \<open>The process\<close>

text \<open>Which command the arguments name, with the arguments it gets.\<close>

datatype command = ChatCommand "string list" | DaemonCommand "string list"

definition dispatch :: "string list \<Rightarrow> command" where
  "dispatch args =
     (case args of
        [] \<Rightarrow> DaemonCommand []
      | a # rest \<Rightarrow> if a = ''chat'' then ChatCommand rest else if a = ''daemon'' then DaemonCommand rest else DaemonCommand args)"

text \<open>\<open>os.Stdin\<close> is a terminal when its mode has the bit of a character device; \<open>st\<close> is its status.\<close>

definition isInteractiveStdin :: "go_error + 32 word \<Rightarrow> bool" where
  "isInteractiveStdin st = (case st of Inl e \<Rightarrow> False | Inr m \<Rightarrow> and m 0x200000 \<noteq> 0)"

text \<open>What ends a running daemon first, and its exit code.\<close>

datatype ending = ServerEnded "go_error option" | Signalled string

definition exit_code :: "ending \<Rightarrow> int" where
  "exit_code e = (case e of ServerEnded (Some err) \<Rightarrow> 1 | ServerEnded None \<Rightarrow> 0 | Signalled sig \<Rightarrow> 0)"

text \<open>The whole command: started, or the exit code.\<close>

definition run_daemon ::
  "'f Disk \<Rightarrow> (string, 'p) KeyLib \<Rightarrow> 'p LaunchEnv \<Rightarrow> startup_result \<Rightarrow> gtime \<Rightarrow> ending \<Rightarrow> 'f \<Rightarrow> int \<times> Running option \<times> 'f" where
  "run_daemon disk keys E started now ends f =
     (case started of
        Refused e \<Rightarrow> (1, None, f)
      | SavedOnly cfg \<Rightarrow> (0, None, f)
      | Started cfg \<Rightarrow>
          (case launch disk keys E cfg now f of
             (Inl e, f) \<Rightarrow> (1, None, f)
           | (Inr R, f) \<Rightarrow> (exit_code ends, Some R, f)))"

section \<open>The same node after a restart\<close>

text \<open>C36: A node that was launched with a key file is the same node at every later launch, whatever keys
  would be generated then: same identity, same parts, and the file stays as it is.\<close>

theorem relaunch_same_node:
  assumes "keeps_files disk" "keeps_keys keys" "cfg_IdentityFile cfg \<noteq> []"
    and gen: "\<And>n k p. le_fresh E n = Inr (k, p) \<Longrightarrow> p = kl_public keys k"
    and up: "launch disk keys E cfg now f = (Inr R, f')"
  shows "launch disk keys (E\<lparr>le_fresh := g\<rparr>) cfg now f' = (Inr R, f')"
proof -
  note again = libp2p_identity_survives[OF assms(1,2) gen assms(3)]
  obtain i f1 where i: "LoadOrCreateLibp2pIdentity disk keys (le_fresh E 0) (cfg_IdentityFile cfg) f = (Inr i, f1)"
    using up by (auto simp: launch_def derive_peer_id_def split: prod.splits sum.splits)
  have j: "LoadOrCreateLibp2pIdentity disk keys x (cfg_IdentityFile cfg) f1 = (Inr i, f1)" for x
    by (rule again[OF _ i])
  let ?E = "E\<lparr>le_fresh := g\<rparr>"
  have d: "derive_peer_id disk keys (le_idOf ?E) (le_fresh ?E 0) (cfg_IdentityFile cfg) f1
      = derive_peer_id disk keys (le_idOf E) (le_fresh E 0) (cfg_IdentityFile cfg) f"
    by (simp add: derive_peer_id_def i j)
  have n: "launch_node disk keys ?E cfg f1 = launch_node disk keys E cfg f1"
    by (simp add: launch_node_def j cong: if_cong)
  have keep: "snd (launch_node disk keys E cfg f1) = f1"
    by (simp add: launch_node_def j Let_def split: sum.split)
  have p: "launch_client ?E = launch_client E" "launch_provider ?E = launch_provider E"
    by (intro ext, simp add: launch_client_def launch_provider_def cong: if_cong sum.case_cong option.case_cong)+
  have l: "le_lib ?E = le_lib E" by simp
  obtain pid where d': "derive_peer_id disk keys (le_idOf E) (le_fresh E 0) (cfg_IdentityFile cfg) f = (Inr pid, f1)"
    using up by (auto simp: launch_def derive_peer_id_def i split: sum.splits)
  have u: "launch disk keys E cfg now f = launch disk keys ?E cfg now f1"
    unfolding launch_def d d' p l by (simp add: n)
  moreover have "f' = f1"
    using up keep unfolding launch_def d' by (auto simp: Let_def split: prod.splits sum.splits)
  ultimately show ?thesis using up by simp
qed

section \<open>A provider found over HTTP\<close>

text \<open>Probing a provider node over HTTP yields the document it has at that moment.\<close>

lemma probe_reads_snapshot:
  assumes "reaches sniff env (base @ ''/capabilities'') ''/capabilities'' (\<lambda>h. fst (provider_node decode provider encode snapshot h s))"
    and "unmarshal (encode (snapshot s)) = Inr (snapshot s)"
  shows "http_probe env unmarshal base =
    Inr (if GatewayURL (snapshot s) = [] then (snapshot s)\<lparr>GatewayURL := base\<rparr> else snapshot s)"
  using assms by (simp add: http_probe_def reaches_iff provider_node_def posted_def HandleCapabilities_def json_reply_def
      response_of_def sendable_def answerable_def type_of_def body_of_def Let_def)

text \<open>The document a provider starts with.\<close>

lemma started_snapshot:
  "Snapshot t (pv_capability (start_provider cfg peerID addrs now l rep)) = (initial_capability cfg peerID addrs)\<lparr>UpdatedAt := t\<rparr>"
  by (simp add: start_provider_def NewProviderService_def NewCapabilityState_def Snapshot_def initial_capability_def Let_def
      f64_eq_def zero_doc_def split: option.split)

section \<open>A published provider is found\<close>

text \<open>A mesh of nodes by their ids: an announcement is a stream to one of them, a heartbeat reaches
  those that hear it. Both carry the clock readings of their arrival.\<close>

type_synonym mesh = "string \<Rightarrow> Libp2pNode option"

definition deliver :: "Wire \<Rightarrow> gtime \<Rightarrow> gtime \<Rightarrow> string \<Rightarrow> CapabilityDocument \<Rightarrow> mesh \<Rightarrow> go_error option \<times> mesh" where
  "deliver wire t1 t2 b cap net =
     (case net b of
        None \<Rightarrow> (Some ErrNoPeers, net)
      | Some n \<Rightarrow> let (r, n) = announce_answer t1 t2 (Some cap) n in (AnnounceRegistry wire (Inr r), net(b \<mapsto> n)))"

definition gossip :: "(string \<Rightarrow> bool) \<Rightarrow> string \<Rightarrow> gtime \<Rightarrow> gtime \<Rightarrow> CapabilityDocument \<Rightarrow> mesh \<Rightarrow> go_error option \<times> mesh" where
  "gossip hears from t1 t2 cap net =
     (None, \<lambda>b. if hears b then map_option (consumeHeartbeat from (Some cap) t1 t2) (net b) else net b)"

lemma upsert_again [simp]:
  "UpsertRegistryCapability t1 t2 cap (UpsertRegistryCapability t1 t2 cap n) = UpsertRegistryCapability t1 t2 cap n"
  by (simp add: UpsertRegistryCapability_def Let_def)

lemma deliver_at: "trim_space (PeerID cap) \<noteq> [] \<Longrightarrow>
  snd (deliver wire t1 t2 a cap net) b = (if a = b then map_option (UpsertRegistryCapability t1 t2 cap) (net b) else net b)"
  by (auto simp: deliver_def announce_answer_def split: option.splits)

lemma announce_all_at:
  assumes "trim_space (PeerID cap) \<noteq> []" "b \<noteq> []" "b \<noteq> ln_ID node" "b \<in> ai_ID ` set (ln_bootstrapPeers node)"
  shows "announce_all (deliver wire t1 t2) node cap net b = map_option (UpsertRegistryCapability t1 t2 cap) (net b)"
proof -
  have "fold (\<lambda>bp net. if ai_ID bp = [] \<or> ai_ID bp = ln_ID node then net else snd (deliver wire t1 t2 (ai_ID bp) cap net)) bps net b
      = (if b \<in> ai_ID ` set bps then map_option (UpsertRegistryCapability t1 t2 cap) (net b) else net b)" for bps :: "AddrInfo list" and net
    using assms(2,3) by (induction bps arbitrary: net) (auto simp: deliver_at[OF assms(1)] option.map_comp comp_def)
  then show ?thesis using assms(4) by (simp add: announce_all_def BootstrapPeers_def image_image)
qed

lemma upserted:
  assumes "trim_space (PeerID cap) \<noteq> []"
  shows "map_get (ln_registry (UpsertRegistryCapability t1 t2 cap n)) (PeerID cap) = Some \<lparr>he_cap = stamp t1 cap, he_seenAt = t2\<rparr>"
  using assms by (simp add: UpsertRegistryCapability_def Let_def update_conv')

lemma leads_home:
  assumes "lp_decode lib me = Inr i" "CHR 0x2F \<notin> set me" "trim_space (''libp2p://'' @ me) = ''libp2p://'' @ me" "me \<noteq> []"
  shows "parsePeerIDFromGateway lib (''libp2p://'' @ me) = Inr i"
proof -
  have "split_on (CHR 0x2F) (''libp2p://'' @ me) = [''libp2p:'', [], me]"
    using split_on_append_sep[of "CHR 0x2F" "''libp2p:''" "CHR 0x2F # me"] split_on_append_sep[of "CHR 0x2F" "[]" me]
      split_on_single[OF assms(2)] by simp
  then show ?thesis using assms by (simp add: parsePeerIDFromGateway_def)
qed

text \<open>C35: A provider that publishes is found: whoever asks one of its bootstrap peers while the word is
  fresh gets its document, with the models it serves, the addresses it announces and a gateway URL
  that leads to the provider's own node.\<close>

theorem published_provider_is_found:
  assumes boot: "net b = Some n" "b \<in> ai_ID ` set (ln_bootstrapPeers node)" "b \<noteq> []" "b \<noteq> ln_ID node"
    and me: "lp_string lib (ln_ID node) = me" "lp_decode lib me = Inr (ln_ID node)" "CHR 0x2F \<notin> set me" "trim_space me \<noteq> []"
      "trim_space (''libp2p://'' @ me) = ''libp2p://'' @ me"
    and wf: "map_wf (ln_heartbeats n)" "map_wf (ln_registry n)" "0 \<le> ln_heartbeatTTL n" "ln_heartbeatTTL n < 2 ^ 62"
    and old: "\<And>e. map_get (ln_heartbeats n) me = Some e \<Longrightarrow> he_seenAt e < t2"
    and fresh: "now - t2 \<le> ln_heartbeatTTL n" and rng: "permuting rng"
  shows "\<exists>n' peers d.
      snd (publish lib addrs u1 u2 (gossip hears (ln_ID node) t1 t2) (deliver wire t1 t2) node s net) b = Some n'
      \<and> QueryRegistry wire (Inr (fst (registry_answer rng now n'))) = Inr peers \<and> d \<in> set peers
      \<and> PeerID d = me \<and> Models d = Models (doc s) \<and> AnnounceAddrs d = AdvertiseAddrs lib addrs node
      \<and> parsePeerIDFromGateway lib (GatewayURL d) = Inr (ln_ID node)"
proof -
  have "trim_space [] = []" by code_simp
  then have ne: "me \<noteq> []" using me(4) by auto
  define cap where "cap = fst (publish_doc lib addrs u1 u2 node s)"
  have cap: "PeerID cap = me" "Models cap = Models (doc s)" "AnnounceAddrs cap = AdvertiseAddrs lib addrs node"
    "GatewayURL cap = ''libp2p://'' @ me"
    by (simp_all add: cap_def publish_doc_def Snapshot_def me(1) Let_def)
  define h where "h = (if hears b then consumeHeartbeat (ln_ID node) (Some cap) t1 t2 n else n)"
  define n' where "n' = UpsertRegistryCapability t1 t2 cap h"
  have ok: "trim_space (PeerID cap) \<noteq> []" using cap(1) me(4) by simp
  have at: "snd (publish lib addrs u1 u2 (gossip hears (ln_ID node) t1 t2) (deliver wire t1 t2) node s net) b = Some n'"
    using boot by (simp add: publish_def gossip_def announce_all_at[OF ok] case_prod_unfold Let_def cap_def[symmetric] n'_def h_def)
  have h: "map_wf (ln_heartbeats h) \<and> map_wf (ln_registry h) \<and> ln_heartbeatTTL h = ln_heartbeatTTL n"
    using wf by (simp add: h_def consumeHeartbeat_def Let_def gm.wf_put)
  then have w: "node_wf (ln_ID n') (ln_heartbeatTTL n) n'"
    by (simp add: node_wf_def n'_def UpsertRegistryCapability_def Let_def gm.wf_put)
  define e where "e = \<lparr>he_cap = stamp t1 cap, he_seenAt = t2\<rparr>"
  have r: "map_get (ln_registry n') me = Some e"
    using upserted[OF ok, of t1 t2 h] by (simp add: n'_def e_def cap(1))
  have b: "map_get (ln_heartbeats n') me = map_get (ln_heartbeats h) me"
    by (simp add: n'_def UpsertRegistryCapability_def Let_def)
  have "map_get (ln_heartbeats h) me = Some e \<or> (\<forall>x. map_get (ln_heartbeats h) me = Some x \<longrightarrow> he_seenAt x < t2)"
    using old by (auto simp: h_def consumeHeartbeat_def Let_def e_def update_conv' cap(1) stamp_def)
  then have "newer (alive (ln_heartbeatTTL n) now (map_get (ln_heartbeats n') me)) (alive (ln_heartbeatTTL n) now (map_get (ln_registry n') me)) = Some e"
    unfolding b r using fresh by (auto simp: newer_def alive_def e_def split: option.splits)
  then obtain out where out: "map_wf out" "fst (RegistryCapabilities rng now n') = map (\<lambda>(k, v). he_cap v) (rng out)" "map_get out me = Some e"
    using RegistryCapabilities_reads[OF rng wf(3,4) w] by metis
  have "(me, e) \<in> set (rng out)" using out(3) permuting_set[OF rng] gm.entries_iff[OF out(1)] by auto
  then have "stamp t1 cap \<in> set (fst (RegistryCapabilities rng now n'))" unfolding out(2) by (force simp: e_def)
  moreover have "PeerID (stamp t1 cap) = me" "Models (stamp t1 cap) = Models (doc s)"
    "AnnounceAddrs (stamp t1 cap) = AdvertiseAddrs lib addrs node" "GatewayURL (stamp t1 cap) = ''libp2p://'' @ me"
    using cap by (simp_all add: stamp_def)
  moreover have "parsePeerIDFromGateway lib (''libp2p://'' @ me) = Inr (ln_ID node)"
    using me ne by (intro leads_home) auto
  ultimately show ?thesis using at QueryRegistry_answer by metis
qed

section \<open>The properties at work\<close>

text \<open>A disk that is a map, keys that are their own text.\<close>

definition demo_disk :: "(string \<Rightarrow> string option) Disk" where
  "demo_disk = \<lparr>dk_read = (\<lambda>p f. case f p of None \<Rightarrow> Inl ErrNoPeers | Some b \<Rightarrow> Inr b), dk_mkdir = (\<lambda>d f. (None, f)),
     dk_write = (\<lambda>p b f. (None, f(p \<mapsto> b))), dk_exists = (\<lambda>p f. p \<in> dom f)\<rparr>"

definition demo_keys :: "(string, string) KeyLib" where
  "demo_keys = \<lparr>kl_unmarshal = Inr, kl_marshal = Inr, kl_public = (\<lambda>k. k)\<rparr>"

definition demo_launch :: "string \<Rightarrow> string LaunchEnv" where
  "demo_launch key = \<lparr>le_fresh = (\<lambda>n. Inr (key, key)), le_idOf = Inr, le_lib = demo_relay_lib,
     le_start = \<lparr>se_identity = Inr [], se_newHost = (\<lambda>opts. Inr ''id''), se_dhtNew = None, se_dhtBootstrap = None,
       se_permanent = 0, se_connect = (\<lambda>a. None), se_gossipsub = None, se_join = (\<lambda>t. None), se_subscribe = None\<rparr>,
     le_hostAddrs = [], le_lanListen = None, le_lanAnnounce = None\<rparr>"

definition demo_http_node :: Config where
  "demo_http_node = (DefaultConfig ''h'' (Some ''/u''))\<lparr>cfg_Mode := ''both'', cfg_Transport := ''http'', cfg_IdentityFile := ''k'', cfg_PeerID := []\<rparr>"

lemma demo_disk_keeps: "keeps_files demo_disk" "keeps_keys demo_keys"
  by (auto simp: keeps_files_def keeps_keys_def demo_disk_def demo_keys_def)

theorem relaunch_same_node_witness:
  "map_sum id rn_PeerID (fst (launch demo_disk demo_keys (demo_launch ''new'') demo_http_node 0 [''k'' \<mapsto> ''old''])) = Inr ''old''"
proof -
  have t: "norm_word (cfg_Transport demo_http_node) \<noteq> ''libp2p''"
  proof -
    have "norm_word ''http'' = ''http''" by code_simp
    then show ?thesis by (simp add: demo_http_node_def)
  qed
  have c: "cfg_IdentityFile demo_http_node = ''k''" "cfg_PeerID demo_http_node = []" "cfg_Mode demo_http_node = ''both''"
    "cfg_LANDiscovery demo_http_node"
    by (simp_all add: demo_http_node_def DefaultConfig_def Let_def)
  obtain R where up: "launch demo_disk demo_keys (demo_launch ''old'') demo_http_node 0 Map.empty = (Inr R, [''k'' \<mapsto> ''old''])"
    "rn_PeerID R = ''old''"
    using t by (simp add: launch_def derive_peer_id_def LoadOrCreateLibp2pIdentity_def read_key_def launch_node_def launch_client_def
        launch_provider_def NewLANDiscovery_def demo_disk_def demo_keys_def demo_launch_def c effectivePeerID_def Let_def)
  have "(demo_launch ''old'')\<lparr>le_fresh := \<lambda>n. Inr (''new'', ''new'')\<rparr> = demo_launch ''new''" by (simp add: demo_launch_def)
  then have "launch demo_disk demo_keys (demo_launch ''new'') demo_http_node 0 [''k'' \<mapsto> ''old''] = (Inr R, [''k'' \<mapsto> ''old''])"
    using relaunch_same_node[OF demo_disk_keeps _ _ up(1), of "\<lambda>n. Inr (''new'', ''new'')"] c
    by (simp add: demo_launch_def demo_keys_def)
  then show ?thesis using up(2) by simp
qed

theorem published_provider_is_found_witness:
  "\<exists>n' d. snd (publish demo_relay_lib [''/ip4/1''] 10 10 (gossip (\<lambda>b. False) ''me'' 10 10) (deliver demo_wire 10 10) demo_relay_node
        (NewCapabilityState zero_doc 0) [''b1'' \<mapsto> demo_node]) ''b1'' = Some n'
    \<and> d \<in> set (fst (RegistryCapabilities (\<lambda>xs. xs) 20 n')) \<and> PeerID d = ''me'' \<and> AnnounceAddrs d = [''/ip4/1/p2p/me'']"
proof -
  have t: "trim_space ''me'' = ''me''" "trim_space ''libp2p://me'' = ''libp2p://me''" by code_simp+
  have lib: "lp_string demo_relay_lib i = i" "lp_decode demo_relay_lib i = Inr i" for i by (simp_all add: demo_relay_lib_def)
  have node: "ln_ID demo_relay_node = ''me''" "ai_ID ` set (ln_bootstrapPeers demo_relay_node) = {''b1'', ''b2''}"
    by (simp_all add: demo_relay_node_def)
  have boot: "map_wf (ln_heartbeats demo_node)" "map_wf (ln_registry demo_node)" "ln_heartbeatTTL demo_node = 90 * second"
    "map_get (ln_heartbeats demo_node) ''me'' = None"
    by (simp_all add: demo_node_def map_wf_def)
  obtain n' peers d where "snd (publish demo_relay_lib [''/ip4/1''] 10 10 (gossip (\<lambda>b. False) (ln_ID demo_relay_node) 10 10) (deliver demo_wire 10 10) demo_relay_node
        (NewCapabilityState zero_doc 0) [''b1'' \<mapsto> demo_node]) ''b1'' = Some n'"
    "QueryRegistry demo_wire (Inr (fst (registry_answer (\<lambda>xs. xs) 20 n'))) = Inr peers" "d \<in> set peers" "PeerID d = ''me''"
    "AnnounceAddrs d = AdvertiseAddrs demo_relay_lib [''/ip4/1''] demo_relay_node"
    using published_provider_is_found[where net = "[''b1'' \<mapsto> demo_node]" and b = "''b1''" and n = demo_node and node = demo_relay_node
        and lib = demo_relay_lib and me = "''me''" and ?t2.0 = 10 and ?t1.0 = 10 and ?u1.0 = 10 and ?u2.0 = 10 and now = 20 and rng = "\<lambda>xs. xs"
        and addrs = "[''/ip4/1'']" and hears = "\<lambda>b. False" and wire = demo_wire and s = "NewCapabilityState zero_doc 0"] t
    by (auto simp: lib node boot permuting_id second_def)
  moreover have "ln_ID demo_relay_node = ''me''" "AdvertiseAddrs demo_relay_lib [''/ip4/1''] demo_relay_node = [''/ip4/1/p2p/me'']"
    by (simp_all add: demo_relay_node_def AdvertiseAddrs_def demo_relay_lib_def)
  ultimately show ?thesis using QueryRegistry_answer by auto
qed

end
