(* ===== verification/Mock.thy ===== *)
theory Mock
  imports ChatSession
begin

text \<open>
  The mock backend (\<^verbatim>\<open>cmd/mock-backend/main.go\<close>): it answers a chat request with its last message,
  whole or as a stream of words, and can break off after some of them. The JSON codecs and the
  clock are arguments; what is slept between words does not show in what is written.
\<close>

section \<open>The handler\<close>

text \<open>\<open>strings.NewReplacer\<close> with the raw strings of \<open>escape\<close>: two backslashes become four, a double
  quote becomes two backslashes and the quote. The texts are tried in this order at each place.\<close>

definition bslash :: char where "bslash = CHR 0x5C"
definition dquote :: char where "dquote = CHR 0x22"

fun escape :: "string \<Rightarrow> string" where
  "escape [] = []"
| "escape [c] = (if c = dquote then [bslash, bslash, dquote] else [c])"
| "escape (c # d # s) =
     (if c = bslash \<and> d = bslash then [bslash, bslash, bslash, bslash] @ escape s
      else if c = dquote then [bslash, bslash, dquote] @ escape (d # s)
      else c # escape (d # s))"

record mockMessage =
  mm_Role :: string
  mm_Content :: string

record mockChoice =
  mk_Index :: int
  mk_Message :: mockMessage
  mk_FinishReason :: string

record chatResponse =
  mr_ID :: string
  mr_Object :: string
  mr_Created :: int
  mr_Model :: string
  mr_Choices :: "mockChoice list"

definition generated :: "ChatCompletionRequest \<Rightarrow> string" where
  "generated req =
     (let prompt = (if req_Messages req \<noteq> [] then msg_Content (last (req_Messages req)) else []);
          g = ''mock:'' @ trim_space prompt
      in if g = ''mock:'' then ''mock: hello'' else g)"

definition mock_json :: "string \<Rightarrow> string" where
  \<open>mock_json tok = ''{"id":"chatcmpl-mock","object":"chat.completion.chunk","choices":[{"index":0,"delta":{"content":"''
     @ escape tok @ '' "},"finish_reason":null}]}''\<close>

definition mock_chunk :: "string \<Rightarrow> string" where
  "mock_chunk tok = ''data: '' @ mock_json tok @ [nl, nl]"

definition mock_done :: string where
  "mock_done = ''data: [DONE]'' @ [nl, nl]"

text \<open>The loop over the words, with its index.\<close>

fun mock_stream :: "int \<Rightarrow> int \<Rightarrow> string list \<Rightarrow> string" where
  "mock_stream failAfter i [] = mock_done"
| "mock_stream failAfter i (tok # toks) =
     (if failAfter \<ge> 0 \<and> i \<ge> failAfter then [] else mock_chunk tok @ mock_stream failAfter (i + 1) toks)"

definition mock_response :: "ChatCompletionRequest \<Rightarrow> int \<Rightarrow> chatResponse" where
  "mock_response req now =
     \<lparr>mr_ID = ''chatcmpl-mock'', mr_Object = ''chat.completion'', mr_Created = now, mr_Model = req_Model req,
      mr_Choices = [\<lparr>mk_Index = 0, mk_Message = \<lparr>mm_Role = ''assistant'', mm_Content = generated req\<rparr>, mk_FinishReason = ''stop''\<rparr>]\<rparr>"

definition mock_handler ::
  "(string \<Rightarrow> ChatCompletionRequest option) \<Rightarrow> (chatResponse \<Rightarrow> string) \<Rightarrow> int \<Rightarrow> bool \<Rightarrow> int \<Rightarrow> HttpIn \<Rightarrow> HttpOut" where
  "mock_handler decode encode now flusher failAfter r =
     (if hi_Method r \<noteq> ''POST'' then method_not_allowed
      else case decode (hi_Body r) of
          None \<Rightarrow> http_Error ''invalid json'' 400
        | Some req \<Rightarrow>
            if \<not> req_Stream req then json_reply (encode (mock_response req now))
            else if \<not> flusher then http_Error ''streaming unsupported'' 500
            else \<lparr>ho_Status = 200, ho_ContentType = Some ''text/event-stream'',
                   ho_Body = mock_stream failAfter 0 (str_fields (generated req))\<rparr>)"

section \<open>What is read of a mock stream\<close>

text \<open>The words that are sent, and whether the end marker follows.\<close>

definition words_sent :: "int \<Rightarrow> string list \<Rightarrow> string list" where
  "words_sent failAfter toks = (if failAfter < 0 then toks else take (nat failAfter) toks)"

definition finished :: "int \<Rightarrow> string list \<Rightarrow> bool" where
  "finished failAfter toks = (failAfter < 0 \<or> int (length toks) \<le> failAfter)"

lemma mock_chunk_event: "mock_chunk tok = event (mock_json tok)"
  by (simp add: mock_chunk_def event_def)

lemma mock_stream_unlimited: "failAfter < 0 \<Longrightarrow> mock_stream failAfter i toks = concat (map mock_chunk toks) @ mock_done"
  by (induction toks arbitrary: i) auto

lemma mock_stream_limited:
  "mock_stream (int (k + m)) (int k) toks = concat (map mock_chunk (take m toks)) @ (if length toks \<le> m then mock_done else [])"
proof (induction toks arbitrary: k m)
  case (Cons t ts)
  then show ?case using Cons[of "Suc k"] by (cases m) (simp_all add: add.commute)
qed simp

lemma mock_stream_sent:
  "mock_stream failAfter 0 toks = concat (map event (map mock_json (words_sent failAfter toks))) @ (if finished failAfter toks then mock_done else [])"
proof -
  have e: "map mock_chunk ts = map event (map mock_json ts)" for ts by (simp add: mock_chunk_event)
  show ?thesis
  proof (cases "failAfter < 0")
    case True
    then show ?thesis by (simp add: mock_stream_unlimited words_sent_def finished_def e)
  next
    case False
    then have "mock_stream failAfter 0 toks = mock_stream (int (0 + nat failAfter)) (int 0) toks" by simp
    also have "\<dots> = concat (map mock_chunk (take (nat failAfter) toks)) @ (if length toks \<le> nat failAfter then mock_done else [])"
      by (rule mock_stream_limited)
    finally show ?thesis using False by (simp add: words_sent_def finished_def e le_nat_iff)
  qed
qed

text \<open>A word that needs no escape is written as it is: printable ASCII without quotes and backslashes.\<close>

definition plain_char :: "char \<Rightarrow> bool" where
  "plain_char c = (0x20 < (of_char c :: nat) \<and> of_char c < (0x7F :: nat) \<and> c \<noteq> dquote \<and> c \<noteq> bslash)"

definition plain :: "string \<Rightarrow> bool" where
  "plain tok = (list_all plain_char tok \<and> length tok \<le> 1000000)"

lemma plain_free: "plain tok \<Longrightarrow> bslash \<notin> set tok \<and> dquote \<notin> set tok \<and> nl \<notin> set tok"
  by (auto simp: plain_def plain_char_def list_all_iff nl_def)

lemma escape_plain: "bslash \<notin> set tok \<Longrightarrow> dquote \<notin> set tok \<Longrightarrow> escape tok = tok"
  by (induction tok rule: escape.induct) auto

lemma mock_one_line: "plain tok \<Longrightarrow> one_line (mock_json tok)"
  using plain_free[of tok] by (simp add: plain_def one_line_def mock_json_def escape_plain nl_def)

text \<open>A double quote is not escaped for JSON: the string ends there.\<close>

lemma escape_quote: "escape [dquote] = [bslash, bslash, dquote]"
  by (simp add: dquote_def bslash_def)

lemma done_read: "scan_wide (split_on nl mock_done) = ([''data: [DONE]'', []], False)" "chat_contents chunk [''data: [DONE]'', []] = ([], True)"
proof -
  have n: "nl \<notin> set ''data: [DONE]''" by (simp add: nl_def)
  have "split_on nl mock_done = [''data: [DONE]'', [], []]"
    using split_on_append_sep[OF n, of "[nl]"] split_on_append_sep[of nl "[]" "[]"] by (simp add: mock_done_def)
  then show "scan_wide (split_on nl mock_done) = ([''data: [DONE]'', []], False)" by (simp add: drop_cr_def)
  have "data_payload ''data: [DONE]'' = Some ''[DONE]''" by code_simp
  then show "chat_contents chunk [''data: [DONE]'', []] = ([], True)" by simp
qed

text \<open>Reading back what the mock backend wrote.\<close>

lemma read_mock:
  assumes "list_all plain toks" "\<And>tok. plain tok \<Longrightarrow> chunk (mock_json tok) = Some [tok @ '' '']"
  shows "\<exists>l. scan_wide (split_on nl (mock_stream failAfter 0 toks)) = (l, False)
    \<and> chat_contents chunk l = (map (\<lambda>t. t @ '' '') (words_sent failAfter toks), finished failAfter toks)"
proof -
  have p: "list_all plain (words_sent failAfter toks)"
    using assms(1) by (auto simp: words_sent_def list_all_iff dest: in_set_takeD)
  have lines: "list_all one_line (map mock_json (words_sent failAfter toks))"
    using p mock_one_line by (auto simp: list_all_iff)
  have "concat (map (event_contents chunk) (map mock_json ts)) = map (\<lambda>t. t @ '' '') ts" if "list_all plain ts" for ts
    using that assms(2) by (induction ts) (auto simp: event_contents_def)
  note c = this[OF p]
  show ?thesis
  proof (cases "finished failAfter toks")
    case True
    then show ?thesis
      using read_events[OF lines done_read(1), OF done_read(2)[where chunk = chunk]] unfolding mock_stream_sent c by simp
  next
    case False
    have "scan_wide (split_on nl []) = ([], False)" "chat_contents chunk [] = ([], False)" by simp_all
    from read_events[OF lines this] False show ?thesis unfolding mock_stream_sent c by simp
  qed
qed

end
