(* ===== verification/Spec2Isabelle.thy ===== *)
theory Spec2Isabelle
  imports Prelude Float64 GoText GoRt Types Credits Reputation Limiter Sha256 Pow PowVector Policy Routing
    Capability Backend Provider ProviderRuns Client ClientRuns Registry Discovery Gateway Api Config Daemon Chat ChatSession Identity Node Mock
begin

text \<open>
  GPUSwarm (Go module \<^verbatim>\<open>infermeshai\<close>): a peer-to-peer mesh that lends out GPUs for inference. Each
  node runs the daemon of \<^verbatim>\<open>cmd/infermeshd\<close>, as a client, a provider, or both. A chat request enters a
  client node over HTTP (\<^verbatim>\<open>internal/api\<close>); the client service discovers the providers
  (\<^verbatim>\<open>internal/p2p\<close>), ranks them (\<^verbatim>\<open>internal/routing\<close>), pays one credit, attaches a proof of work, and
  tries them in order over HTTP or libp2p streams; a provider service checks its policy, proof of
  work and the caller's reputation (\<^verbatim>\<open>internal/control\<close>), takes a slot of its limiter, asks its backend
  (\<^verbatim>\<open>internal/backend\<close>) and relays the body.

  \<^bold>\<open>Conventions.\<close> Every definition is a translation of the Go function it is named after, in the order of
  the code; a method is a function from the state of its receiver (a record) to the new state. A
  mutex-protected method is one atomic step. Go errors are the datatype \<open>go_error\<close> with \<open>errors.Is\<close>
  and the text of wrapped errors; \<open>(value, error)\<close> is a sum type. Machine integers are words where
  they can wrap (credits, counters, nonces, SHA-256); \<open>int\<close> is used for Go's \<open>int\<close> where the code
  only compares, counts below the limits of memory, or formats. \<open>float64\<close> is \<open>f64\<close>, with one rounding
  per operation. Durations and instants are nanoseconds; the subtraction of instants saturates. A
  map is an association list \<open>gomap\<close> without duplicate keys; where the code ranges over a map, an
  enumeration of the entries is an argument. The clock, the network, the file system, the terminal,
  the JSON and YAML codecs, \<open>sort.Slice\<close>, the libp2p library and the host are arguments; what the
  proofs need of them are named hypotheses or locales (\<open>slice_sort\<close>, \<open>permuting\<close>, codecs that give
  back what they encoded). Between two programs, \<open>net/http\<close> is written out in \<open>Api\<close>: which requests and
  answers it carries unchanged (\<open>sendable\<close>, \<open>answerable\<close>), no body with 204 and 304, and a content type
  detected from the body when none was set; the detection (\<open>sniff\<close>) is an argument.

  \<^bold>\<open>Theories.\<close>
  \<^item> \<open>Prelude\<close>: named theorem collections and generic lemmas; \<open>Float64\<close>: binary64 numbers with rounding to
    nearest even, infinities and NaN; \<open>GoText\<close>: package \<open>strings\<close>, \<open>strconv\<close> and \<open>bufio\<close> as the code uses
    them, and their round trips; \<open>GoRt\<close>: errors, time, maps, sorting; \<open>Types\<close>: \<^verbatim>\<open>internal/model\<close>.
  \<^item> \<open>Credits\<close>, \<open>Reputation\<close>, \<open>Limiter\<close>, \<open>Sha256\<close>, \<open>Pow\<close>, \<open>PowVector\<close>, \<open>Policy\<close>: \<^verbatim>\<open>internal/control\<close>. The
    ledger's balance is accounted for, scores stay in the unit interval, the limiter never exceeds
    its slots and its burst and never starves, a nonce is valid iff the digest is below a target and
    the solver finds the least one, the serving window is an arc of the clock.
  \<^item> \<open>Routing\<close>: \<^verbatim>\<open>internal/routing\<close>: the ranking is a sorted permutation of the eligible peers.
  \<^item> \<open>Capability\<close>, \<open>Provider\<close>, \<open>Client\<close>: \<^verbatim>\<open>internal/app\<close>; \<open>Backend\<close>: \<^verbatim>\<open>internal/backend\<close>. The provider's
    checks and its accounts; the client's failover, charging, sticky peers and peer list. A request of the
    client goes over a network with a state (\<open>try_peers_on\<close>, \<open>ClientInfer_on\<close>); \<open>ClientInfer\<close> is the case
    of a network without one. \<open>ProviderRuns\<close> runs requests as threads whose accesses to the
    shared state interleave, with the client of the same node at work on the ledger and the tracker the
    two share in mode \<open>both\<close>: the limiter's slots and the private counter are exact at all times, the
    provider drains, a banned peer stays banned until this node's own client counts an answer in its
    favour, and a thread alone computes what \<open>Provider\<close> says. (The published queue depth is a copy
    of the counter and can lag.) \<open>ClientRuns\<close> does the same for the client, with an operator
    who changes the settings and a provider that earns on the same ledger meanwhile: the books balance,
    and one snapshot of the settings decides the candidates and their ranking; only the sticky time is
    read again after it.
  \<^item> \<open>Registry\<close>, \<open>Discovery\<close>, \<open>Gateway\<close>: \<^verbatim>\<open>internal/p2p\<close>: the libp2p node, its heartbeats and registry (a
    refinement of the history of announcements), the four kinds of discovery, and the two gateway
    clients with the provider's and the relay's ends of the streams.
  \<^item> \<open>Api\<close>: \<^verbatim>\<open>internal/api\<close>; \<open>Config\<close>: \<^verbatim>\<open>internal/config\<close>, with the file as a table of keys and
    fields on a disk; \<open>Daemon\<close>: \<^verbatim>\<open>cmd/infermeshd\<close> with its flags, lists, setup dialogue, start and the
    construction of the services on one ledger and one tracker: what a start saves, later starts load.
  \<^item> \<open>Chat\<close>: \<^verbatim>\<open>internal/cli\<close> and \<^verbatim>\<open>cmd/infermeshd/chat_cmd.go\<close>: a session over its input lines, its menus and
    the daemon behind HTTP. \<open>ChatSession\<close>: it posts each prompt once and in order, proposes a best provider,
    lists the models on offer, pins a peer through the daemon's handlers, and prints what the backend
    streamed.
  \<^item> \<open>Identity\<close>: \<^verbatim>\<open>p2p/identity.go\<close> and \<^verbatim>\<open>p2p/libp2p_identity.go\<close>: key files and names. \<open>Node\<close>: the rest of
    \<^verbatim>\<open>main\<close>: what a resolved configuration starts, and the publishing of a provider; a relaunched node is
    the same node, and a published provider is found at its bootstrap peers.
  \<^item> \<open>Mock\<close>: \<^verbatim>\<open>cmd/mock-backend\<close> and what a chat reads of its stream.
  \<^item> This theory: properties that span the components: a request from one node to another on a network whose
    state is the provider, and a whole conversation.

  \<^bold>\<open>Bounds.\<close> No function takes fuel: a background loop runs over the list of its rounds (ticks, datagrams,
    messages), so its theorems hold for every number of them. Loops that are not structural are \<open>function\<close>s with a measure: the
  solver (the distance of the nonce to its bound), trimming (the length of the text), decimal
  numbers, the chat (the lines left to read). A request at a provider takes at most 17 accesses to the shared state.

  \<^bold>\<open>Not modelled.\<close> Listening sockets, timeouts and graceful shutdown; contexts (only whether one is
  already cancelled when a slot is asked for); streaming of a body as it arrives (a body is the bytes
  read to its end, flushes included); logging; the
  terminal libraries \<^verbatim>\<open>readline\<close> and \<^verbatim>\<open>promptui\<close> (arguments: the lines and choices they deliver); the redirects of \<open>ServeMux\<close> for unclean paths; package \<open>flag\<close> itself (its results are an argument).
\<close>


section \<open>The provider a daemon starts\<close>

lemma started_limiter:
  assumes "0 \<le> cfg_Burst c" "cfg_Burst c < 2 ^ 53" "Fin 0 \<le> cfg_RatePerSecond c"
  shows "limiter_inv (pv_limiter (fresh_provider c pid addrs now))"
    "inFlight (pv_limiter (fresh_provider c pid addrs now)) = 0"
    "pv_inFlightCount (fresh_provider c pid addrs now) = 0"
    "maxInFlight (pv_limiter (fresh_provider c pid addrs now)) = cfg_MaxInflight c"
proof -
  have l: "pv_limiter (fresh_provider c pid addrs now) = NewLimiter (cfg_MaxInflight c) (cfg_RatePerSecond c) (cfg_Burst c) now"
    "pv_inFlightCount (fresh_provider c pid addrs now) = 0"
    by (simp_all add: start_provider_def NewProviderService_def)
  show "limiter_inv (pv_limiter (fresh_provider c pid addrs now))"
    unfolding l using assms by (rule limiter_inv_new)
  show "inFlight (pv_limiter (fresh_provider c pid addrs now)) = 0"
    "pv_inFlightCount (fresh_provider c pid addrs now) = 0"
    "maxInFlight (pv_limiter (fresh_provider c pid addrs now)) = cfg_MaxInflight c"
    unfolding l by (simp_all add: NewLimiter_def)
qed

text \<open>A provider the daemon starts from its configuration never works on more requests at once than
  the configuration's in-flight limit allows, however requests arrive and interleave, and the
  count it keeps is the number of requests that have counted themselves in and not yet out.\<close>

lemma daemon_respects_max_inflight:
  assumes "0 \<le> cfg_Burst c" "cfg_Burst c < 2 ^ 53" "Fin 0 \<le> cfg_RatePerSecond c"
    and "reachable (fresh_provider c pid addrs now) S"
  shows "int (card (threads_at holds_slot S)) \<le> max 0 (cfg_MaxInflight c)
    \<and> pv_inFlightCount (svc S) = of_nat (card (threads_at counted S))"
proof -
  have a: "agrees (pv_limiter (fresh_provider c pid addrs now)) S"
    by (rule reachable_agrees[OF assms(4) started_limiter(1-3)[OF assms(1-3)]])
  then show ?thesis using started_limiter(4)[OF assms(1-3), of pid addrs now] by (auto simp: agrees_def limiter_inv_def)
qed

section \<open>Proof of work across the mesh\<close>

lemma zeros_upto_mono: "zeros_upto d s \<Longrightarrow> k \<le> d \<Longrightarrow> zeros_upto k s"
proof (induction d s arbitrary: k rule: zeros_upto.induct)
  case (3 n c s)
  then show ?case by (cases k) (auto split: if_splits)
qed auto

lemma ValidatePoW_mono: "ValidatePoW c n m d \<Longrightarrow> k \<le> d \<Longrightarrow> ValidatePoW c n m k"
  by (auto simp: ValidatePoW_def Let_def intro: zeros_upto_mono split: if_splits)

text \<open>C30: A nonce the client has found is accepted by every provider that asks for the same difficulty or
  less: no such provider refuses the request for its proof of work; and when the search of the
  client gives up, a provider with that difficulty refuses the nonce 0 that is sent nevertheless.\<close>

theorem solved_nonce_is_accepted:
  assumes "SolvePoW (co_PeerID o') (req_Model req) (co_PoWDifficulty o') (co_PoWMaxIters o') = (nonce, found)"
    and "PoWDifficulty (pv_policy s) \<le> co_PoWDifficulty o'" "0 < co_PoWMaxIters o'"
  shows "if found then fst (admit_checks env req (context_of req o') s) \<noteq> Some ErrInvalidPoW
    else PoWDifficulty (pv_policy s) = co_PoWDifficulty o' \<and> Validate (pv_policy s) req (ce_hour env) (Some (ce_probe env)) = None
      \<longrightarrow> fst (admit_checks env req (context_of req o') s) = Some ErrInvalidPoW"
proof (cases found)
  case True
  have "ValidatePoW (co_PeerID o') (pc_PoWNonce (context_of req o')) (req_Model req) (co_PoWDifficulty o')"
    using SolvePoW_found[of "co_PeerID o'" "req_Model req" "co_PoWDifficulty o'" "co_PoWMaxIters o'" nonce] assms(1) True
    by (cases "0 < co_PoWDifficulty o'") (simp_all add: context_of_def)
  from ValidatePoW_mono[OF this assms(2)] have "pow_ok (pv_policy s) req (context_of req o')"
    by (simp add: pow_ok_def context_of_def)
  then show ?thesis using True by (simp add: admit_checks_outcome)
next
  case False
  have d: "0 < co_PoWDifficulty o'" using assms(1) False by (auto simp: SolvePoW_def split: if_splits)
  have "nonce = 0" "\<not> ValidatePoW (co_PeerID o') 0 (req_Model req) (co_PoWDifficulty o')"
    using SolvePoW_exhausted[of "co_PeerID o'" "req_Model req" "co_PoWDifficulty o'" "co_PoWMaxIters o'" nonce] assms(1,3) False
    by auto
  then show ?thesis
    using False d assms(1) by (auto simp: admit_checks_outcome Validate_ok_iff pow_ok_def context_of_def)
qed

theorem solved_nonce_is_accepted_witness:
  "fst (admit_checks demo_env (zero_request\<lparr>req_Model := ''m''\<rparr>)
     (context_of (zero_request\<lparr>req_Model := ''m''\<rparr>) (demo_options\<lparr>co_PeerID := ''t'', co_PoWDifficulty := 1, co_PoWMaxIters := 9\<rparr>))
     ((demo_provider [])\<lparr>pv_policy := demo_policy\<lparr>PoWDifficulty := 1\<rparr>\<rparr>)) \<noteq> Some ErrInvalidPoW"
  using solved_nonce_is_accepted[of "demo_options\<lparr>co_PeerID := ''t'', co_PoWDifficulty := 1, co_PoWMaxIters := 9\<rparr>"
      "zero_request\<lparr>req_Model := ''m''\<rparr>" 0 True "(demo_provider [])\<lparr>pv_policy := demo_policy\<lparr>PoWDifficulty := 1\<rparr>\<rparr>" demo_env]
  by (simp add: SolvePoW_t0m)

section \<open>What a refusal looks like over HTTP\<close>

lemma serve_result:
  "fst (serve env env2 req p s) =
     (case fst (admit_checks env req p s) of
        Some e \<Rightarrow> Inl e
      | None \<Rightarrow>
          (case fst (Acquire (ce_ctxErr env) (ce_now env 0) (pv_limiter s)) of
             Some e \<Rightarrow> Inl e
           | None \<Rightarrow> map_sum id stream_result (ce_adapter env req)))"
proof -
  obtain r1 s1 where i: "ProviderInfer env req p s = (r1, s1)" by force
  then show ?thesis
    by (cases rule: ProviderInfer_cases) (auto simp: serve_def i stream_result_def)
qed

text \<open>C10: The HTTP status a client of a provider node sees tells why: 400 for too many tokens, 503
  outside the serving hours or on a busy host, 403 for a bad proof of work, 429 for a low
  reputation and for the limiter, 502 for the backend and anything else, in the order of the
  checks; a served request has the backend's status.\<close>

theorem provider_http_status:
  assumes "hi_Method h = ''POST''" "decode (hi_Body h) = Some req" "req_Model req \<noteq> []"
  shows "ho_Status (fst (HandleProviderInference decode (serve env env2) h s)) =
    (if \<not> tokens_ok (pv_policy s) req then 400
     else if \<not> hour_ok (pv_policy s) (ce_hour env) then 503
     else if \<not> load_ok (pv_policy s) (Some (ce_probe env)) then 503
     else if \<not> pow_ok (pv_policy s) req (header_context h) then 403
     else if \<not> trusted s (header_context h) then 429
     else case fst (Acquire (ce_ctxErr env) (ce_now env 0) (pv_limiter s)) of
         Some e \<Rightarrow> status_table e
       | None \<Rightarrow> (case ce_adapter env req of Inl e \<Rightarrow> status_table e | Inr st \<Rightarrow> ok_status (st_StatusCode st)))"
proof -
  obtain r s' where sv: "serve env env2 req (header_context h) s = (r, s')" by force
  have "ho_Status (fst (HandleProviderInference decode (serve env env2) h s)) =
      (case r of Inl e \<Rightarrow> status_table e | Inr res \<Rightarrow> ok_status (ir_StatusCode res))"
    using assms by (cases r) (simp_all add: HandleProviderInference_def sv http_Error_def relayResponse_def ok_status_def provider_status_table)
  also have "r = fst (serve env env2 req (header_context h) s)" by (simp add: sv)
  finally show ?thesis
    by (simp add: serve_result admit_checks_outcome status_table_def stream_result_def split: option.splits sum.splits)
qed

theorem provider_http_status_witness:
  "ho_Status (fst (HandleProviderInference (\<lambda>_. Some demo_post) (serve demo_env demo_env)
     \<lparr>hi_Method = ''POST'', hi_Path = [], hi_Header = [], hi_Body = []\<rparr>
     ((demo_provider [])\<lparr>pv_policy := demo_policy\<lparr>NightOnly := True\<rparr>\<rparr>))) = 503"
  by (subst provider_http_status[where req = demo_post])
    (simp_all add: demo_post_def tokens_ok_def hour_ok_def demo_policy_def demo_env_def withinWindow_def)

section \<open>A request through the mesh\<close>

text \<open>The client's view of one attempt.\<close>

definition relayed :: "go_error + GatewayResponse \<Rightarrow> go_error + InferenceResult" where
  "relayed r = (case r of Inl e \<Rightarrow> Inl (ErrWrap ''all peers failed: '' e) | Inr a \<Rightarrow> Inr (answer_of a))"

lemma single_candidate:
  assumes "slice_sort srt" "eligible req (preferences cl) [cap_reliability (cs_reputation cl) d] (cap_reliability (cs_reputation cl) d)"
  shows "\<exists>x. candidates srt [d] req cl = [\<lparr>ps_Capability = cap_reliability (cs_reputation cl) d, ps_Score = x\<rparr>]"
proof -
  have "mset (candidates srt [d] req cl) = {#\<lparr>ps_Capability = cap_reliability (cs_reputation cl) d,
      ps_Score = preferred_score (cs_weights cl) (preferences cl) (cap_reliability (cs_reputation cl) d)\<rparr>#}"
    using assms(2) by (simp add: candidates_def RankWithPreferences_mset[OF assms(1)])
  then show ?thesis by auto
qed

lemma cap_reliability_keeps [simp]:
  "PeerID (cap_reliability r d) = PeerID d" "Models (cap_reliability r d) = Models d"
  "GatewayURL (cap_reliability r d) = GatewayURL d"
  by (auto simp: cap_reliability_def split: option.splits)

lemma auto_eligible:
  assumes "pref_Policy p = ''auto''" "PeerID d \<notin> pref_Blocked p" "SupportsRequirements d (req_Model req) (req_Requirements req)"
  shows "eligible req p ds (cap_reliability r d)"
  using assms by (simp add: eligible_def SupportsRequirements_def)

lemma started_client:
  "cs_opts (fresh_client c me) = (client_options c me)\<lparr>co_PoWMaxIters := 2000000, co_CreditCost := 1\<rparr>"
  "cs_ledger (fresh_client c me) = Some \<lparr>balance = cfg_InitialCredits c\<rparr>" "cs_sticky (fresh_client c me) = []"
  by (simp_all add: start_client_def NewClientService_def client_options_def NewCreditLedger_def Let_def)

lemma started_charge:
  assumes "0 <s cfg_InitialCredits c"
  shows "charge (fresh_client c me) = (True, (fresh_client c me)\<lparr>cs_ledger := Some \<lparr>balance = cfg_InitialCredits c - 1\<rparr>\<rparr>)"
proof -
  have "\<not> cfg_InitialCredits c <s 1" using assms by (simp add: word_sless_alt)
  then show ?thesis by (simp add: charge_def started_client Spend_def word_sle_eq)
qed

lemma mesh_client:
  fixes cc :: Config and me :: string and req :: ChatCompletionRequest
  defines "cl \<equiv> fresh_client cc me" and "pc \<equiv> context_of req (cs_opts (fresh_client cc me))"
  assumes srt: "slice_sort srt" and disc: "cl_discovery env = Inr [d]"
    and route: "cfg_RoutingPolicy cc = ''auto''" "PeerID d \<notin> set (cfg_BlockedPeers cc)"
      "SupportsRequirements d (req_Model req) (req_Requirements req)"
    and pay: "0 <s cfg_InitialCredits cc" and named: "cfg_PoWDifficulty cc \<le> 0 \<or> me \<noteq> []"
    and identity: "header_ok me" "header_ok (cfg_ClientName cc)"
    and wire: "enc_request wire req = Inr b" "decode b = Some req" "req_Model req \<noteq> []"
    and net: "gw 0 = HTTPGateway_on refused net wire"
      "reaches_on sniff refused net (trim_right_char (CHR 0x2F) (GatewayURL d) @ ''/v1/chat/completions'') p
         (HandleProviderInference decode provider)"
    and answer: "carried (fst (provider req pc w))"
  shows "\<exists>cl'. ClientInfer_on srt env gw req cl w = ((relayed (http_told sniff (fst (provider req pc w))), cl'), snd (provider req pc w))
    \<and> cs_ledger cl' = Some \<lparr>balance = cfg_InitialCredits cc - 1\<rparr>"
proof -
  define cl1 where "cl1 = cl\<lparr>cs_ledger := Some \<lparr>balance = cfg_InitialCredits cc - 1\<rparr>\<rparr>"
  have paid: "charge cl = (True, cl1)" unfolding cl1_def cl_def by (rule started_charge[OF pay])
  have cl1: "cs_opts cl1 = cs_opts cl" "cs_sticky cl1 = []" "cs_ledger cl1 = Some \<lparr>balance = cfg_InitialCredits cc - 1\<rparr>"
    by (simp_all add: cl1_def cl_def started_client)
  have opts: "co_PeerID (cs_opts cl) = me" "co_PoWDifficulty (cs_opts cl) = cfg_PoWDifficulty cc" "co_PeerName (cs_opts cl) = cfg_ClientName cc"
    by (simp_all add: cl_def started_client client_options_def)
  have pc: "pc = context_of req (cs_opts cl)" by (simp add: pc_def cl_def)
  have "context_ok pc" using identity by (simp add: context_ok_def pc context_of_def opts)
  have "pref_Policy (preferences cl1) = ''auto''" "PeerID d \<notin> pref_Blocked (preferences cl1)"
    using route(1,2) by (simp_all add: preferences_def cl1(1) cl_def started_client client_options_def toSet_def)
  then obtain x where cands: "candidates srt [d] req cl1 = [\<lparr>ps_Capability = cap_reliability (cs_reputation cl1) d, ps_Score = x\<rparr>]"
    using single_candidate[OF srt auto_eligible[OF _ _ route(3)]] by blast
  have told: "gw 0 (GatewayURL d) req pc w = (http_told sniff (fst (provider req pc w)), snd (provider req pc w))"
    unfolding net(1) by (rule HTTPGateway_posts[OF wire \<open>context_ok pc\<close> net(2) answer])
  have run: "ClientInfer_on srt env gw req cl w =
      try_peers_on gw (cl_now env 1) req pc 0 None [\<lparr>ps_Capability = cap_reliability (cs_reputation cl1) d, ps_Score = x\<rparr>] cl1 w"
    using named unfolding ClientInfer_on_def Let_def paid prod.case
    by (auto simp: disc cands applyStickyPriority_def pc context_of_def opts simp del: try_peers_on.simps)
  show ?thesis
    unfolding run using told
    by (cases "http_told sniff (fst (provider req pc w))") (simp_all add: relayed_def answer_of_def Let_def keeps cl1)
qed

text \<open>C2: A client node and a provider node that know each other, both just started from their
  configurations, serve a request over HTTP end to end, on a network whose state is that of the
  provider: what the whole request has done to the provider is one run of its service, under the
  client's identity and nonce; the client returns what the provider answered, as HTTP carries it
  (no body with 204 and 304, a detected content type where none was set), or an error with the
  status of the refusal; the client pays one credit, and the provider earns one if and only if it
  answered.\<close>

theorem mesh_request:
  fixes cc cp :: Config and me pid :: string and addrs :: "string list option" and now :: gtime and req :: ChatCompletionRequest
  defines "cl \<equiv> fresh_client cc me" and "pc \<equiv> context_of req (cs_opts (fresh_client cc me))" and "s \<equiv> fresh_provider cp pid addrs now"
  assumes srt: "slice_sort srt" and disc: "cl_discovery env = Inr [d]"
    and route: "cfg_RoutingPolicy cc = ''auto''" "PeerID d \<notin> set (cfg_BlockedPeers cc)"
      "SupportsRequirements d (req_Model req) (req_Requirements req)"
    and pay: "0 <s cfg_InitialCredits cc" and named: "cfg_PoWDifficulty cc \<le> 0 \<or> me \<noteq> []"
    and identity: "header_ok me" "header_ok (cfg_ClientName cc)"
    and wire: "enc_request wire req = Inr b" "decode b = Some req" "req_Model req \<noteq> []"
    and net: "gw 0 = HTTPGateway_on refused net wire"
      "reaches_on sniff refused net (trim_right_char (CHR 0x2F) (GatewayURL d) @ ''/v1/chat/completions'') ''/v1/chat/completions''
         (provider_node decode (serve env1 env2) encode snapshot)"
    and answer: "carried (fst (serve env1 env2 req pc s))"
  shows "\<exists>cl'. ClientInfer_on srt env gw req cl s
        = ((relayed (http_told sniff (fst (serve env1 env2 req pc s))), cl'), snd (serve env1 env2 req pc s))
    \<and> cs_ledger cl' = Some \<lparr>balance = cfg_InitialCredits cc - 1\<rparr>
    \<and> pv_creditLedger (snd (serve env1 env2 req pc s)) =
        (case fst (serve env1 env2 req pc s) of Inl e \<Rightarrow> pv_creditLedger s | Inr res \<Rightarrow> map_option (Earn 1) (pv_creditLedger s))"
  using mesh_client[where cc = cc and me = me and gw = gw, OF srt disc route pay named identity wire net(1) net(2)[unfolded reaches_on_provider]]
    answer serve_earns[OF surjective_pairing, of env1 env2 req pc s]
  unfolding cl_def pc_def by blast

definition demo_mesh_doc :: CapabilityDocument where
  "demo_mesh_doc = zero_doc\<lparr>PeerID := ''p'', Models := [zero_spec\<lparr>ms_Name := ''m''\<rparr>], GatewayURL := ''http://p/''\<rparr>"

abbreviation demo_mesh_node :: "HttpIn \<Rightarrow> ProviderService \<Rightarrow> HttpOut \<times> ProviderService" where
  "demo_mesh_node \<equiv> provider_node (\<lambda>_. Some demo_post) (serve demo_env demo_env) (\<lambda>_. []) (\<lambda>s. Snapshot 0 (pv_capability s))"

definition demo_mesh_net :: "HttpRequest \<Rightarrow> ProviderService \<Rightarrow> (go_error + HttpResponse) \<times> ProviderService" where
  "demo_mesh_net q s = (let (o', s') = demo_mesh_node (posted ''/v1/chat/completions'' q) s in (Inr (response_of id o'), s'))"

definition demo_mesh_env :: ClientEnv where
  "demo_mesh_env = \<lparr>cl_now = (\<lambda>n. 0), cl_discovery = Inr [demo_mesh_doc], cl_gateway = (\<lambda>k u r p. Inl ErrNoPeers)\<rparr>"

lemma demo_host: "default_host ''h'' = ''h''"
  by code_simp

theorem mesh_request_witness:
  "\<exists>r cl' s'. ClientInfer_on insertion_sort demo_mesh_env (\<lambda>k. HTTPGateway_on (\<lambda>_. None) demo_mesh_net (demo_wire\<lparr>enc_request := \<lambda>_. Inr ''q''\<rparr>))
      demo_post (fresh_client (DefaultConfig ''h'' None) ''c'') (fresh_provider (DefaultConfig ''h'' None) ''p'' None 0) = ((r, cl'), s')
    \<and> cs_ledger cl' = Some \<lparr>balance = 99\<rparr>"
proof -
  let ?c = "DefaultConfig ''h'' None"
  have c: "cfg_RoutingPolicy ?c = ''auto''" "cfg_BlockedPeers ?c = []" "cfg_InitialCredits ?c = 100" "cfg_PoWDifficulty ?c = 0"
    "cfg_ClientName ?c = ''h-client''"
    by (simp_all add: DefaultConfig_def Let_def demo_host)
  have pay: "0 <s cfg_InitialCredits ?c" unfolding c by code_simp
  have id: "header_ok ''c''" "header_ok (cfg_ClientName ?c)" by (simp_all add: c header_ok_def)
  have sup: "SupportsRequirements demo_mesh_doc (req_Model demo_post) (req_Requirements demo_post)"
    by (simp add: demo_mesh_doc_def demo_post_def SupportsRequirements_def zero_doc_def zero_spec_def no_requirements_def)
  have net: "reaches_on id (\<lambda>_. None) demo_mesh_net url ''/v1/chat/completions'' demo_mesh_node" for url
    by (simp add: reaches_on_def demo_mesh_net_def split_beta)
  have answer: "carried (fst (serve demo_env demo_env req pc s))" for req pc s
    by (simp add: serve_result carried_def demo_env_def stream_result_def ok_status_def header_ok_def split: option.split)
  have "req_Model demo_post \<noteq> []" "cl_discovery demo_mesh_env = Inr [demo_mesh_doc]" "PeerID demo_mesh_doc = ''p''"
    by (simp_all add: demo_post_def demo_mesh_env_def demo_mesh_doc_def)
  then show ?thesis
    using mesh_request[where cc = ?c and cp = ?c and me = "''c''" and pid = "''p''" and addrs = None and now = 0 and req = demo_post
        and gw = "\<lambda>k. HTTPGateway_on (\<lambda>_. None) demo_mesh_net (demo_wire\<lparr>enc_request := \<lambda>_. Inr ''q''\<rparr>)" and b = "''q''"
        and decode = "\<lambda>_. Some demo_post", OF keep_order _ c(1) _ sup pay _ id _ refl _ refl net answer]
    by (fastforce simp: c)
qed

section \<open>A conversation\<close>

text \<open>The words of the mock backend's answer to a prompt.\<close>

definition answer_words :: "string \<Rightarrow> string list" where
  "answer_words prompt = (if trim_space prompt = [] then [''mock:'', ''hello''] else str_fields (''mock:'' @ trim_space prompt))"

lemma answer_words_generated: "str_fields (generated (prompt_request m prompt)) = answer_words prompt"
proof -
  have "str_fields ''mock: hello'' = [''mock:'', ''hello'']" by code_simp
  then show ?thesis by (simp add: generated_def prompt_request_def answer_words_def Let_def)
qed

text \<open>A backend behind the HTTP adapter, as the provider's request reaches it.\<close>

lemma adapter_reaches_mock:
  assumes "marshal req = Inr b" "reaches sniff benv (ha_BaseURL ad @ ''/v1/chat/completions'') p (mock_handler decode encode mnow True failAfter)"
    and "decode b = Some req" "req_Stream req"
  shows "HTTPAdapter_Infer benv marshal ad req =
    Inr \<lparr>st_StatusCode = 200, st_ContentType = ''text/event-stream'', st_Body = mock_stream failAfter 0 (str_fields (generated req))\<rparr>"
  using assms json_headers_ok
  by (simp add: HTTPAdapter_Infer_def mock_handler_def reaches_iff posted_def response_of_def sendable_def answerable_def header_ok_def
      type_of_def body_of_def Let_def)

text \<open>A provider that serves HTTP, and what a client configured with its address alone finds.\<close>

definition provider_site ::
  "(string \<Rightarrow> ChatCompletionRequest option) \<Rightarrow> (CapabilityDocument \<Rightarrow> string) \<Rightarrow> CallEnv \<Rightarrow> CallEnv \<Rightarrow> gtime
    \<Rightarrow> ProviderService \<Rightarrow> HttpIn \<Rightarrow> HttpOut" where
  "provider_site decode encode env1 env2 t s h = fst (provider_node decode (serve env1 env2) encode (\<lambda>s. Snapshot t (pv_capability s)) h s)"

definition site_document :: "Config \<Rightarrow> string \<Rightarrow> gtime \<Rightarrow> string \<Rightarrow> CapabilityDocument" where
  "site_document cfg pid t base =
     (let d = (initial_capability cfg pid None)\<lparr>UpdatedAt := t\<rparr> in if GatewayURL d = [] then d\<lparr>GatewayURL := base\<rparr> else d)"

lemma site_document_keeps:
  "PeerID (site_document cfg pid t base) = pid"
  "Models (site_document cfg pid t base) = parseModelSpecs (cfg_Models cfg) (cfg_ModelSpecs cfg)"
  by (simp_all add: site_document_def initial_capability_def Let_def)

lemma only_site_found:
  assumes cfg: "cfg_ProviderPeerURLs cc = [base]" "clean_urls [base] = [base]" "\<not> cfg_LANDiscovery cc"
    and order: "permuting finish" "permuting rng"
    and site: "reaches sniff henv (base @ ''/capabilities'') ''/capabilities'' (provider_site decode encode env1 env2 t (fresh_provider cp pid None now))"
    and codec: "unm (encode ((initial_capability cp pid None)\<lparr>UpdatedAt := t\<rparr>)) = Inr ((initial_capability cp pid None)\<lparr>UpdatedAt := t\<rparr>)"
  shows "MultiDiscovery_List rng (client_sources cc (HTTPDiscovery_List henv unm finish (NewHTTPDiscovery (cfg_ProviderPeerURLs cc))) lan None)
    = Inr [site_document cp pid t base]"
proof -
  let ?s = "fresh_provider cp pid None now"
  have "http_probe henv unm base = Inr (site_document cp pid t base)"
    using probe_reads_snapshot[where snapshot = "\<lambda>s. Snapshot t (pv_capability s)" and s = ?s, OF site[unfolded provider_site_def]] codec
    by (simp add: started_snapshot site_document_def Let_def)
  then have "HTTPDiscovery_List henv unm finish (NewHTTPDiscovery (cfg_ProviderPeerURLs cc)) = Inr [site_document cp pid t base]"
    using permuting_single[OF order(1)] by (simp add: cfg HTTPDiscovery_List_def NewHTTPDiscovery_def del: clean_urls.simps)
  then show ?thesis using permuting_single[OF order(2)]
    by (simp add: cfg client_sources_def MultiDiscovery_List_def merge_docs_def)
qed

text \<open>C1: A conversation between two nodes that know of each other only what their configurations say,
  from the terminal to the backend and back: the client finds the provider by probing its address;
  what is typed in a chat goes to the client node, from there to the provider, from there to a mock
  backend, and what the chat prints is that backend's answer, word by word as far as the backend
  got, then a line feed; the client has paid one credit. The words are of printable ASCII without
  quotes and backslashes (a word with a quote does not reach the terminal, see \<open>escape\<close> in \<open>Mock\<close>).\<close>

theorem conversation:
  fixes cc cp :: Config and me pid prompt base :: string and now tq :: gtime and t :: "ClientService Chat"
  defines "s \<equiv> fresh_provider cp pid None now" and "req \<equiv> prompt_request (chat_model t) prompt"
    and "pc \<equiv> context_of (prompt_request (chat_model t) prompt) (cs_opts (fresh_client cc me))" and "d \<equiv> site_document cp pid tq base"
  assumes chat: "ch_daemon t = fresh_client cc me" "chat_model t \<noteq> []"
      "daemon_is E sniff path (client_node decC (ClientInfer srt env) encP peers encR decR)"
      "ch_join E (op_BaseURL (ch_opts t)) [''/v1/chat/completions''] = Inr u" "ch_url_error E u = None"
      "path u = ''/v1/chat/completions''" "decC (ch_prompt_body E req) = Some req"
    and srt: "slice_sort srt"
    and sources: "cl_discovery env = MultiDiscovery_List rng
        (client_sources cc (HTTPDiscovery_List henv unm finish (NewHTTPDiscovery (cfg_ProviderPeerURLs cc))) lan None)"
      "permuting finish" "permuting rng" "cfg_ProviderPeerURLs cc = [base]" "clean_urls [base] = [base]" "\<not> cfg_LANDiscovery cc"
    and site: "reaches sniff henv (base @ ''/capabilities'') ''/capabilities'' (provider_site decode encode env1 env2 tq s)"
      "reaches sniff henv (trim_right_char (CHR 0x2F) (GatewayURL d) @ ''/v1/chat/completions'') ''/v1/chat/completions''
         (provider_site decode encode env1 env2 tq s)"
      "unm (encode ((initial_capability cp pid None)\<lparr>UpdatedAt := tq\<rparr>)) = Inr ((initial_capability cp pid None)\<lparr>UpdatedAt := tq\<rparr>)"
    and route: "cfg_RoutingPolicy cc = ''auto''" "pid \<notin> set (cfg_BlockedPeers cc)" "chat_model t \<in> set (cfg_Models cp)"
    and pay: "0 <s cfg_InitialCredits cc" and named: "cfg_PoWDifficulty cc \<le> 0 \<or> me \<noteq> []"
    and identity: "header_ok me" "header_ok (cfg_ClientName cc)"
    and wire: "cl_gateway env 0 = HTTPGateway_Infer henv wire" "enc_request wire req = Inr b" "decode b = Some req"
    and admitted: "fst (admit_checks env1 req pc s) = None" "fst (Acquire (ce_ctxErr env1) (ce_now env1 0) (pv_limiter s)) = None"
    and backend: "ce_adapter env1 = HTTPAdapter_Infer benv marshal ad" "marshal req = Inr bb" "decM bb = Some req"
      "reaches sniff benv (ha_BaseURL ad @ ''/v1/chat/completions'') mp (mock_handler decM encM mnow True failAfter)"
    and codec: "list_all plain (answer_words prompt)" "\<And>tok. plain tok \<Longrightarrow> ch_chunk E (mock_json tok) = Some [tok @ '' '']"
  shows "\<exists>st t'. sendPromptWithStats E prompt t = (Inr st, t')
    \<and> ch_out t' = ch_out t @ concat (map (\<lambda>w. w @ '' '') (words_sent failAfter (answer_words prompt))) @ [nl]
    \<and> cs_ledger (ch_daemon t') = Some \<lparr>balance = cfg_InitialCredits cc - 1\<rparr>"
proof -
  let ?cl = "fresh_client cc me"
  have m: "req_Model req = chat_model t" "req_Model req \<noteq> []" "req_Stream req" "req_Requirements req = no_requirements"
    using chat(2) by (simp_all add: req_def prompt_request_def zero_request_def)
  have disc: "cl_discovery env = Inr [d]"
    unfolding sources(1) d_def
    by (rule only_site_found[where unm = unm and encode = encode and decode = decode and ?env1.0 = env1 and ?env2.0 = env2 and t = tq
        and cp = cp and pid = pid, OF sources(4,5,6,2,3) site(1,3)[unfolded s_def]])
  have sup: "SupportsRequirements d (req_Model req) (req_Requirements req)"
    using route(3) by (auto simp: d_def m SupportsRequirements_none SupportsModel_iff site_document_keeps parseModelSpecs_def
        intro!: bexI[where x = "zero_spec\<lparr>ms_Name := chat_model t, ms_Backend := ''openai-compatible''\<rparr>"])
  define body where "body = mock_stream failAfter 0 (answer_words prompt)"
  have "ce_adapter env1 req = Inr \<lparr>st_StatusCode = 200, st_ContentType = ''text/event-stream'', st_Body = body\<rparr>"
    using adapter_reaches_mock[where marshal = marshal and benv = benv and decode = decM and req = req, OF backend(2,4,3) m(3)]
    by (simp add: backend(1) body_def answer_words_generated req_def)
  then have "fst (serve env1 env2 req pc s) = Inr \<lparr>ir_StatusCode = 200, ir_ContentType = ''text/event-stream'', ir_Body = body\<rparr>"
    using admitted by (simp add: serve_result stream_result_def)
  then have served: "carried (fst (serve env1 env2 req pc s))"
      "http_told sniff (fst (serve env1 env2 req pc s)) = Inr \<lparr>gr_StatusCode = 200, gr_ContentType = ''text/event-stream'', gr_Body = body\<rparr>"
    by (simp_all add: http_told_def carried_def ok_status_def header_ok_def type_of_def body_of_def)
  obtain cl' where on: "ClientInfer_on srt env (asked_of (cl_gateway env)) req ?cl ()
      = ((relayed (http_told sniff (fst (serve env1 env2 req pc s))), cl'), ())"
      and paid: "cs_ledger cl' = Some \<lparr>balance = cfg_InitialCredits cc - 1\<rparr>"
    using mesh_client[where provider = "frozen (serve env1 env2) s" and w = "()" and gw = "asked_of (cl_gateway env)" and sniff = sniff,
        OF srt disc route(1) _ sup pay named identity wire(2,3) m(2) asked_of_HTTP[where gw = "cl_gateway env", OF wire(1)]
          site(2)[unfolded provider_site_def reaches_provider reaches_frozen]] route(2) served(1)
    by (auto simp: frozen_def pc_def req_def d_def site_document_keeps)
  then have run: "ClientInfer srt env req ?cl = (Inr \<lparr>ir_StatusCode = 200, ir_ContentType = ''text/event-stream'', ir_Body = body\<rparr>, cl')"
    "cs_ledger cl' = Some \<lparr>balance = cfg_InitialCredits cc - 1\<rparr>"
    by (simp_all add: ClientInfer_def served(2) relayed_def answer_of_def)
  define ans where "ans = relayResponse \<lparr>ir_StatusCode = 200, ir_ContentType = ''text/event-stream'', ir_Body = body\<rparr>"
  have ans: "answerable ans" by (simp add: ans_def answerable_def relayResponse_def header_ok_def)
  have "ch_serve E \<lparr>hq_Method = ''POST'', hq_URL = u, hq_Header = json_headers, hq_Body = ch_prompt_body E req\<rparr> (ch_daemon t)
      = (Inr (response_of sniff ans), cl')"
    using m(2) json_headers_ok ans
    by (intro daemon_serves[OF chat(3)])
      (simp_all add: chat(1,6,7) posted_def client_node_def HandleClientInference_def run(1) sendable_def ans_def)
  note sent = prompt_prints[OF chat(4,5) this[unfolded req_def]]
  have ok: "go_quot (hr_StatusCode (response_of sniff ans)) 100 = 2" "hr_Body (response_of sniff ans) = body"
    by (simp_all add: response_of_def relayResponse_def go_quot_def body_of_def ans_def)
  obtain l where l: "scan_wide (split_on nl body) = (l, False)"
    "chat_contents (ch_chunk E) l = (map (\<lambda>w. w @ '' '') (words_sent failAfter (answer_words prompt)), finished failAfter (answer_words prompt))"
    using read_mock[OF codec, of failAfter] unfolding body_def by auto
  obtain st t' where "sendPromptWithStats E prompt t = (Inr st, t')"
    "ch_out t' = ch_out t @ concat (map (\<lambda>w. w @ '' '') (words_sent failAfter (answer_words prompt))) @ [nl]" "ch_daemon t' = cl'"
    using sent[OF ok(1), unfolded ok(2), OF l] by blast
  then show ?thesis using run(2) by blast
qed

text \<open>Two nodes, nearly on the default configuration, and a mock backend that breaks off after two words.\<close>

definition talk_client_config :: Config where
  "talk_client_config = (DefaultConfig ''h'' None)\<lparr>cfg_ProviderPeerURLs := [''http://p''], cfg_LANDiscovery := False\<rparr>"

definition talk_provider_config :: Config where
  "talk_provider_config = (DefaultConfig ''h'' None)\<lparr>cfg_Models := [''m''], cfg_AdvertiseURL := ''http://p''\<rparr>"

abbreviation talk_provider :: ProviderService where
  "talk_provider \<equiv> fresh_provider talk_provider_config ''p'' None 0"

definition talk_prompt :: ChatCompletionRequest where
  "talk_prompt = prompt_request ''m'' ''how are you''"

abbreviation talk_document :: CapabilityDocument where
  "talk_document \<equiv> (initial_capability talk_provider_config ''p'' None)\<lparr>UpdatedAt := 0\<rparr>"

definition talk_backend :: HttpEnv where
  "talk_backend = \<lparr>url_error = \<lambda>_. None,
     round_trip = \<lambda>q. Inr (response_of id (mock_handler (\<lambda>_. Some talk_prompt) (\<lambda>_. []) 0 True 2 (posted [] q)))\<rparr>"

definition talk_provider_env :: CallEnv where
  "talk_provider_env = \<lparr>ce_now = (\<lambda>_. 0), ce_hour = 12, ce_probe = Inr (Fin 0), ce_ctxErr = None,
     ce_adapter = HTTPAdapter_Infer talk_backend (\<lambda>_. Inr []) (NewHTTPAdapter [])\<rparr>"

abbreviation talk_site :: "HttpIn \<Rightarrow> HttpOut" where
  "talk_site \<equiv> provider_site (\<lambda>_. Some talk_prompt) (\<lambda>_. []) talk_provider_env talk_provider_env 0 talk_provider"

definition talk_net :: HttpEnv where
  "talk_net = \<lparr>url_error = \<lambda>_. None,
     round_trip = (\<lambda>q. Inr (response_of id (talk_site (posted (drop (length ''http://p'') (hq_URL q)) q))))\<rparr>"

definition talk_client_env :: ClientEnv where
  "talk_client_env = \<lparr>cl_now = (\<lambda>n. 0),
     cl_discovery = MultiDiscovery_List (\<lambda>xs. xs) (client_sources talk_client_config
       (HTTPDiscovery_List talk_net (\<lambda>_. Inr talk_document) rev (NewHTTPDiscovery (cfg_ProviderPeerURLs talk_client_config))) (Inr []) None),
     cl_gateway = (\<lambda>k. HTTPGateway_Infer talk_net (demo_wire\<lparr>enc_request := \<lambda>_. Inr ''q''\<rparr>))\<rparr>"

text \<open>What the terminal's decoder makes of a chunk: the text between the quotes after the content's key.\<close>

fun after_key :: "string \<Rightarrow> string \<Rightarrow> string option" where
  "after_key k [] = None"
| "after_key k (c # s) = (if has_prefix k (c # s) then Some (drop (length k) (c # s)) else after_key k s)"

definition scan_content :: "string \<Rightarrow> string list option" where
  \<open>scan_content j = map_option (\<lambda>r. [takeWhile (\<lambda>c. c \<noteq> dquote) r]) (after_key ''"content":"'' j)\<close>

definition talk_terminal :: "ClientService ChatEnv" where
  "talk_terminal = (demo_session (through id (\<lambda>u. u) (client_node (\<lambda>_. Some talk_prompt) (ClientInfer insertion_sort talk_client_env)
       (\<lambda>_. []) (\<lambda>_. Inr []) (\<lambda>_. []) (\<lambda>_. None))))\<lparr>ch_chunk := scan_content\<rparr>"

lemma demo_chunk: "plain tok \<Longrightarrow> ch_chunk talk_terminal (mock_json tok) = Some [tok @ '' '']"
proof -
  assume p: "plain tok"
  have \<open>after_key ''"content":"'' (mock_json tok) = Some (tok @ '' "},"finish_reason":null}]}'')\<close>
    using plain_free[OF p] by (simp add: mock_json_def escape_plain has_prefix_def)
  moreover have \<open>takeWhile (\<lambda>c. c \<noteq> dquote) (tok @ '' "},"finish_reason":null}]}'') = tok @ '' ''\<close>
    using plain_free[OF p] by (subst takeWhile_append2) (auto simp: dquote_def)
  ultimately show ?thesis by (simp add: talk_terminal_def scan_content_def)
qed

lemma talk_config:
  "cfg_RoutingPolicy talk_client_config = ''auto''" "cfg_BlockedPeers talk_client_config = []" "cfg_InitialCredits talk_client_config = 100"
  "cfg_PoWDifficulty talk_client_config = 0" "cfg_ProviderPeerURLs talk_client_config = [''http://p'']" "\<not> cfg_LANDiscovery talk_client_config"
  "cfg_MaxTokensPerRequest talk_provider_config = 0" "\<not> cfg_NightOnly talk_provider_config" "\<not> cfg_IdleOnly talk_provider_config"
  "cfg_PoWDifficulty talk_provider_config = 0" "cfg_MinPeerReputation talk_provider_config = Fin 0"
  "cfg_MaxInflight talk_provider_config = 4" "cfg_Burst talk_provider_config = 20" "cfg_Models talk_provider_config = [''m'']"
  "cfg_AdvertiseURL talk_provider_config = ''http://p''"
  by (simp_all add: talk_client_config_def talk_provider_config_def DefaultConfig_def Let_def)

lemma talk_admitted:
  "fst (admit_checks talk_provider_env req pc talk_provider) = None"
  "fst (Acquire (ce_ctxErr talk_provider_env) (ce_now talk_provider_env 0) (pv_limiter talk_provider)) = None"
proof -
  have p: "pv_policy talk_provider = provider_policy talk_provider_config"
    "pv_limiter talk_provider = NewLimiter 4 (cfg_RatePerSecond talk_provider_config) 20 0"
    by (simp_all add: start_provider_def NewProviderService_def talk_config)
  show "fst (admit_checks talk_provider_env req pc talk_provider) = None"
    by (simp add: admit_checks_outcome p tokens_ok_def hour_ok_def load_ok_def pow_ok_def trusted_def provider_policy_def talk_config
        split: option.split)
  have "time_sub 0 0 = 0" by (simp add: time_sub_def sat64_def)
  then have "dur_seconds (time_sub 0 0) \<le> Fin 0" using dur_seconds_nonpos[of 0] by (simp add: zero_f64_def)
  moreover have "\<not> f64_of_int 20 < Fin 1" by (simp add: f64_of_int_exact)
  ultimately show "fst (Acquire (ce_ctxErr talk_provider_env) (ce_now talk_provider_env 0) (pv_limiter talk_provider)) = None"
    unfolding p by (simp add: talk_provider_env_def Acquire_def NewLimiter_def refillLocked_def Let_def)
qed

lemma talk_address:
  "GatewayURL (site_document talk_provider_config ''p'' 0 ''http://p'') = ''http://p''"
  "clean_urls [''http://p''] = [''http://p'']" "trim_right_char (CHR 0x2F) ''http://p'' = ''http://p''"
proof -
  show t: "trim_right_char (CHR 0x2F) ''http://p'' = ''http://p''" by code_simp
  show "clean_urls [''http://p''] = [''http://p'']" by code_simp
  show "GatewayURL (site_document talk_provider_config ''p'' 0 ''http://p'') = ''http://p''"
    by (simp add: site_document_def initial_capability_def Let_def buildAdvertiseURL_def talk_config t)
qed

lemma talk_reached:
  "reaches id talk_net ''http://p/capabilities'' ''/capabilities'' talk_site"
  "reaches id talk_net ''http://p/v1/chat/completions'' ''/v1/chat/completions'' talk_site"
  "reaches id talk_backend url [] (mock_handler (\<lambda>_. Some talk_prompt) (\<lambda>_. []) 0 True 2)"
  by (simp_all add: reaches_iff talk_net_def talk_backend_def)

lemma talk_wired:
  "cl_gateway talk_client_env 0 = HTTPGateway_Infer talk_net (demo_wire\<lparr>enc_request := \<lambda>_. Inr ''q''\<rparr>)"
  "cl_discovery talk_client_env = MultiDiscovery_List (\<lambda>xs. xs) (client_sources talk_client_config
     (HTTPDiscovery_List talk_net (\<lambda>_. Inr talk_document) rev (NewHTTPDiscovery (cfg_ProviderPeerURLs talk_client_config))) (Inr []) None)"
  "ce_adapter talk_provider_env = HTTPAdapter_Infer talk_backend (\<lambda>_. Inr []) (NewHTTPAdapter [])"
  "ch_join talk_terminal base [p] = Inr p" "ch_url_error talk_terminal u = None"
  "ch_daemon (demo_start d) = d" "ch_out (demo_start d) = []" "chat_model (demo_start d) = ''m''"
  by (simp_all add: talk_client_env_def talk_provider_env_def talk_terminal_def demo_session_def demo_start_def chat_model_def)

lemma talk_daemon:
  "daemon_is talk_terminal id (\<lambda>u. u) (client_node (\<lambda>_. Some talk_prompt) (ClientInfer insertion_sort talk_client_env)
     (\<lambda>_. []) (\<lambda>_. Inr []) (\<lambda>_. []) (\<lambda>_. None))"
  by (simp add: daemon_is_def talk_terminal_def demo_session_def)

lemma talk_identity: "header_ok ''c''" "header_ok (cfg_ClientName talk_client_config)"
  by (simp_all add: header_ok_def talk_client_config_def DefaultConfig_def demo_host Let_def)

theorem conversation_witness:
  "ch_out (snd (sendPromptWithStats talk_terminal ''how are you'' (demo_start (fresh_client talk_client_config ''c''))))
    = ''mock:how are '' @ [nl]"
proof -
  let ?t = "demo_start (fresh_client talk_client_config ''c'')"
  have pay: "0 <s cfg_InitialCredits talk_client_config" unfolding talk_config by code_simp
  have words: "answer_words ''how are you'' = [''mock:how'', ''are'', ''you'']" by code_simp
  have plain: "list_all plain (answer_words ''how are you'')"
    unfolding words by (simp add: plain_def plain_char_def bslash_def dquote_def)
  show ?thesis
    using conversation[where t = ?t and prompt = "''how are you''" and cc = talk_client_config and cp = talk_provider_config and me = "''c''"
        and pid = "''p''" and now = 0 and tq = 0 and base = "''http://p''" and E = talk_terminal and env = talk_client_env
        and ?env1.0 = talk_provider_env and ?env2.0 = talk_provider_env and henv = talk_net and decode = "\<lambda>_. Some talk_prompt"
        and encode = "\<lambda>_. []" and unm = "\<lambda>_. Inr talk_document" and finish = rev and rng = "\<lambda>xs. xs" and lan = "Inr []"
        and wire = "demo_wire\<lparr>enc_request := \<lambda>_. Inr ''q''\<rparr>" and b = "''q''" and srt = insertion_sort
        and benv = talk_backend and marshal = "\<lambda>_. Inr []" and ad = "NewHTTPAdapter []" and bb = "[]" and decM = "\<lambda>_. Some talk_prompt"
        and encM = "\<lambda>_. []" and mnow = 0 and failAfter = 2 and mp = "[]" and path = "\<lambda>u. u" and decC = "\<lambda>_. Some talk_prompt"
        and encP = "\<lambda>_. []" and peers = "\<lambda>_. Inr []" and encR = "\<lambda>_. []" and decR = "\<lambda>_. None" and u = "''/v1/chat/completions''",
        unfolded talk_wired, folded talk_prompt_def,
        OF refl _ talk_daemon refl refl refl refl keep_order refl _ _ talk_config(5) talk_address(2) talk_config(6) _ _ refl talk_config(1) _ _ pay _ talk_identity
          refl _ refl talk_admitted refl refl refl talk_reached(3) plain demo_chunk]
    by (auto simp: talk_config talk_address talk_reached words words_sent_def permuting_def)
qed

end
